theory Spec2Isabelle
  imports Main "HOL-Library.Sublist"
begin

section \<open>Values exchanged with the backend\<close>

text \<open>
  Everything a JavaScript \<open>throw\<close> carries in this program is an \<open>Error\<close> object that is
  only ever read through \<open>error.message\<close>; a thrown value is its message.
\<close>

datatype error = Error (message: string)

type_synonym job = "(string \<times> string) list"

record session_info =
  active_session_id :: string
  role_name :: string
  session_location :: string
  platforms_completed :: nat
  platforms_total :: nat

text \<open>
  The body of \<open>GET /current-session\<close>: the flag, and the session object, which is \<open>None\<close>
  when the field is null or missing.
\<close>

record session_check =
  has_active_session :: bool
  session :: "session_info option"

record role_info =
  role_id :: nat
  name :: string
  aliases :: "string list"
  candidate_count :: nat

record platform_info =
  platform_name :: string
  display_name :: string

record queue_item =
  session_id :: string
  role :: role_info
  location :: string
  platforms :: "platform_info list"

record progress_info =
  completed :: nat
  total_platforms :: nat

record completion_response =
  completion_role_name :: string
  completion_location :: string
  successful_platforms :: nat
  completion_total_platforms :: nat
  total_found :: nat
  total_imported :: nat
  total_skipped :: nat
  matching_triggered :: bool

text \<open>
  A credential as the backend hands it out: an e-mail and a password (LinkedIn,
  TechFetch), or, under the field \<open>credentials\<close>, an array of cookies or the older pair
  of a cookie string and a CSRF token (Glassdoor).
\<close>

datatype payload =
    EmailPassword string string
  | CookieArray "(string \<times> string) list"
  | CookieString string "string option"

record credential =
  cred_id :: nat
  payload :: payload

text \<open>
  What \<open>response.json()\<close> can resolve to. \<open>JNull\<close> is a falsy JSON value, \<open>JOther\<close> an
  object with none of the fields the program reads, \<open>JError\<close> the backend's error body
  with its \<open>message\<close> field. To a caller that expects another shape, a body is an object
  without the fields it reads: a missing field is \<open>undefined\<close>, and reading a field of
  \<open>undefined\<close> or of \<open>null\<close> throws a TypeError at the place where the code reads it.
\<close>

datatype json =
    JNull
  | JSessionCheck session_check
  | JQueueItem queue_item
  | JSubmit progress_info
  | JCompletion completion_response
  | JCredential credential
  | JError string
  | JOther

text \<open>A response; \<open>json_body = None\<close> is a body on which \<open>response.json()\<close> rejects.\<close>

record response =
  status :: nat
  statusText :: string
  json_body :: "json option"

definition ok :: "response \<Rightarrow> bool" where
  "ok r = (200 \<le> status r \<and> status r \<le> 299)"

datatype request_body =
    NoBody
  | SubmitBody string string "job list" "(string \<times> string option) option"
  | CompleteBody string
  | SuccessBody "string option"
  | FailureBody string nat

record request =
  url :: string
  http_method :: string
  api_key :: string
  content_type_json :: bool
  body :: request_body
  agent :: bool

section \<open>The world: the environment, the effects, the module-level variables\<close>

datatype event =
    Fetch request
  | Delay nat
  | Scrape string string string string

text \<open>
  \<open>ext\<close> is the state of everything outside the process (backend, browsers, web sites);
  \<open>trace\<close> logs the effects in the order they are issued; \<open>activeCredentials\<close> is the map
  of the singleton \<open>CredentialsAPIClient\<close> and \<open>isProcessingQueue\<close> the flag of
  \<open>server.js\<close>.
\<close>

record 'e world =
  ext :: 'e
  trace :: "event list"
  activeCredentials :: "string \<rightharpoonup> json"
  isProcessingQueue :: bool

type_synonym ('a, 'e) io = "'e world \<Rightarrow> (error + 'a) \<times> 'e world"

type_synonym 'e collaborator = "string \<Rightarrow> string \<Rightarrow> string \<Rightarrow> 'e \<Rightarrow> (error + job list) \<times> 'e"

type_synonym 'e scraper = "string \<Rightarrow> string \<Rightarrow> string \<Rightarrow> (job list, 'e) io"

text \<open>
  The collaborators the program calls and does not define: the network (\<open>fetchE\<close>, whose
  \<open>Inl\<close> is a network-level exception), the two scrapers without credentials, the
  browser work of the three scrapers with credentials, and the job formatter; with them,
  the two sections of \<open>credentials.json\<close> the program reads, and what
  \<open>String.prototype.toLowerCase\<close> gives on a string that holds a character outside ASCII. Where a scraper sets
  \<open>loginSuccess\<close> in the middle of its browser work (TechFetch, Glassdoor), the
  collaborator says on which side of that assignment it threw. \<open>glassdoorLaunch\<close> stands
  for the steps of scrapeGlassdoor between loadCookies and its \<open>try\<close> block (browser,
  context, cookies added, page).
\<close>

datatype 'a phased = Done 'a | ThrewBeforeLogin error | ThrewAfterLogin error

record 'e env =
  fetchE :: "request \<Rightarrow> 'e \<Rightarrow> (error + response) \<times> 'e"
  monsterBrowser :: "'e collaborator"
  diceBrowser :: "'e collaborator"
  linkedinBrowser :: "json \<Rightarrow> string \<Rightarrow> string \<Rightarrow> 'e \<Rightarrow> (error + job list) \<times> 'e"
  techfetchBrowser :: "json \<Rightarrow> string \<Rightarrow> string \<Rightarrow> 'e \<Rightarrow> job list phased \<times> 'e"
  glassdoorLaunch :: "json \<Rightarrow> 'e \<Rightarrow> (error + unit) \<times> 'e"
  glassdoorBrowser :: "json \<Rightarrow> string \<Rightarrow> string \<Rightarrow> 'e \<Rightarrow> job list phased \<times> 'e"
  formatJobForBlacklight :: "job \<Rightarrow> string \<Rightarrow> job"
  toLowerCaseUnicode :: "string \<Rightarrow> string"
  blacklight :: "(string \<times> string) option"
  scraperCredentials :: "(string \<times> string) option"

definition fetch :: "'e env \<Rightarrow> request \<Rightarrow> (response, 'e) io" where
  "fetch env req w =
     (case fetchE env req (ext w) of
        (outcome, x) \<Rightarrow> (outcome, w\<lparr>ext := x, trace := trace w @ [Fetch req]\<rparr>))"

definition sleep :: "nat \<Rightarrow> 'e world \<Rightarrow> 'e world" where
  "sleep ms w = w\<lparr>trace := trace w @ [Delay ms]\<rparr>"

section \<open>The API client of utils.js\<close>

definition RETRY_DELAYS :: "nat list" where
  "RETRY_DELAYS = [1000, 2000, 5000, 10000, 30000]"

text \<open>\<open>RETRY_DELAYS[attempt] || 30000\<close>: out of range or zero gives 30000.\<close>

definition retry_delay :: "nat \<Rightarrow> nat" where
  "retry_delay attempt =
     (if attempt < length RETRY_DELAYS \<and> RETRY_DELAYS ! attempt \<noteq> 0
      then RETRY_DELAYS ! attempt else 30000)"

text \<open>The HTTPS agent is added when the URL starts with \<open>https://\<close>.\<close>

definition fetchOptions :: "request \<Rightarrow> request" where
  "fetchOptions options =
     (if prefix ''https://'' (url options) then options\<lparr>agent := True\<rparr> else options)"

text \<open>
  The \<open>for\<close> loop of makeApiRequest, from \<open>attempt\<close> on. A response with status 429 or
  500 and more is followed by a sleep and the next attempt, the last one too; a network
  error is thrown on the last attempt and followed by a sleep and the next attempt
  before; leaving the loop throws "Max retries exceeded".
\<close>

function makeApiRequest_loop ::
  "'e env \<Rightarrow> request \<Rightarrow> nat \<Rightarrow> nat \<Rightarrow> (response, 'e) io" where
  "makeApiRequest_loop env options retries attempt w =
     (if attempt < retries then
        (case fetch env (fetchOptions options) w of
           (Inr response, w') \<Rightarrow>
             if status response = 429 then
               makeApiRequest_loop env options retries (attempt + 1) (sleep (retry_delay attempt) w')
             else if status response \<ge> 500 then
               makeApiRequest_loop env options retries (attempt + 1) (sleep (retry_delay attempt) w')
             else (Inr response, w')
         | (Inl error, w') \<Rightarrow>
             if attempt = retries - 1 then (Inl error, w')
             else makeApiRequest_loop env options retries (attempt + 1) (sleep (retry_delay attempt) w'))
      else (Inl (Error ''Max retries exceeded''), w))"
  by pat_completeness auto
termination
  by (relation "measure (\<lambda>(env, options, retries, attempt, w). retries - attempt)") auto

declare makeApiRequest_loop.simps [simp del]

definition makeApiRequest :: "'e env \<Rightarrow> request \<Rightarrow> nat \<Rightarrow> (response, 'e) io" where
  "makeApiRequest env options retries = makeApiRequest_loop env options retries 0"

section \<open>Strings\<close>

definition digit :: "nat \<Rightarrow> char" where
  "digit n = ''0123456789'' ! n"

function string_of_nat :: "nat \<Rightarrow> string" where
  "string_of_nat n = (if n < 10 then [digit n] else string_of_nat (n div 10) @ [digit (n mod 10)])"
  by pat_completeness auto
termination
  by (relation "measure (\<lambda>n. n)") auto

declare string_of_nat.simps [simp del]

text \<open>\<open>String.prototype.includes\<close>: the argument occurs as a contiguous substring.\<close>

fun str_includes :: "string \<Rightarrow> string \<Rightarrow> bool" where
  "str_includes [] sub = (sub = [])"
| "str_includes (c # cs) sub = (prefix sub (c # cs) \<or> str_includes cs sub)"

text \<open>
  \<open>toLowerCase\<close>. A string is the list of the bytes of its UTF-8 encoding. On a string
  of ASCII characters the letters A to Z are lowered and every other character is kept; a
  string with a byte of 128 or more holds a character outside ASCII, and its lower-cased
  form is the collaborator's.
\<close>

definition lower_char :: "char \<Rightarrow> char" where
  "lower_char c =
     (case map_of (zip ''ABCDEFGHIJKLMNOPQRSTUVWXYZ'' ''abcdefghijklmnopqrstuvwxyz'') c of
        Some d \<Rightarrow> d | None \<Rightarrow> c)"

definition toLowerCase :: "'e env \<Rightarrow> string \<Rightarrow> string" where
  "toLowerCase env s =
     (if list_all (\<lambda>c. \<not> digit7 c) s then map lower_char s else toLowerCaseUnicode env s)"

text \<open>The messages of the errors the JavaScript runtime itself throws.\<close>

definition TypeError :: error where
  "TypeError = Error ''Cannot read properties of undefined''"

definition SyntaxError :: error where
  "SyntaxError = Error ''Unexpected end of JSON input''"

definition response_json :: "response \<Rightarrow> error + json" where
  "response_json r = (case json_body r of None \<Rightarrow> Inl SyntaxError | Some j \<Rightarrow> Inr j)"

section \<open>The queue calls of utils.js\<close>

definition failed_message :: "string \<Rightarrow> response \<Rightarrow> string" where
  "failed_message what r = what @ string_of_nat (status r) @ '' '' @ statusText r"

definition checkActiveSession :: "'e env \<Rightarrow> string \<Rightarrow> string \<Rightarrow> (json, 'e) io" where
  "checkActiveSession env apiUrl apiKey w =
     (case makeApiRequest env
             \<lparr>url = apiUrl @ ''/api/scraper/queue/current-session'', http_method = ''GET'',
              api_key = apiKey, content_type_json = False, body = NoBody, agent = False\<rparr> 5 w of
        (Inl e, w') \<Rightarrow> (Inl e, w')
      | (Inr response, w') \<Rightarrow>
          if ok response then (response_json response, w')
          else (Inl (Error (failed_message ''Failed to check active session: '' response)), w'))"

definition getNextRoleLocation :: "'e env \<Rightarrow> string \<Rightarrow> string \<Rightarrow> (json, 'e) io" where
  "getNextRoleLocation env apiUrl apiKey w =
     (case makeApiRequest env
             \<lparr>url = apiUrl @ ''/api/scraper/queue/next-role-location'', http_method = ''GET'',
              api_key = apiKey, content_type_json = False, body = NoBody, agent = False\<rparr> 5 w of
        (Inl e, w') \<Rightarrow> (Inl e, w')
      | (Inr response, w') \<Rightarrow>
          if status response = 204 then (Inr JNull, w')
          else if status response = 409 then
            (Inl (Error ''Scraper already has an active session''), w')
          else if ok response then (response_json response, w')
          else (Inl (Error (failed_message ''Failed to get next role+location: '' response)), w'))"

text \<open>
  The body of a submission: \<open>status\<close> and \<open>error_message\<close> are added only when the
  status argument is \<open>failed\<close>.
\<close>

definition submit_body ::
  "string \<Rightarrow> string \<Rightarrow> job list \<Rightarrow> string \<Rightarrow> string option \<Rightarrow> request_body" where
  "submit_body sessionId platform jobs st errorMessage =
     SubmitBody sessionId platform jobs
       (if st = ''failed'' then Some (''failed'', errorMessage) else None)"

definition submitJobs ::
  "'e env \<Rightarrow> string \<Rightarrow> string \<Rightarrow> string \<Rightarrow> string \<Rightarrow> job list \<Rightarrow> string \<Rightarrow> string option
     \<Rightarrow> (json, 'e) io" where
  "submitJobs env apiUrl apiKey sessionId platform jobs st errorMessage w =
     (case makeApiRequest env
             \<lparr>url = apiUrl @ ''/api/scraper/queue/jobs'', http_method = ''POST'',
              api_key = apiKey, content_type_json = True,
              body = submit_body sessionId platform jobs st errorMessage, agent = False\<rparr> 5 w of
        (Inl e, w') \<Rightarrow> (Inl e, w')
      | (Inr response, w') \<Rightarrow>
          if status response = 202 \<or> ok response then (response_json response, w')
          else (Inl (Error (failed_message ''Failed to submit jobs: '' response)), w'))"

definition completeSession :: "'e env \<Rightarrow> string \<Rightarrow> string \<Rightarrow> string \<Rightarrow> (json, 'e) io" where
  "completeSession env apiUrl apiKey sessionId w =
     (case makeApiRequest env
             \<lparr>url = apiUrl @ ''/api/scraper/queue/complete'', http_method = ''POST'',
              api_key = apiKey, content_type_json = True,
              body = CompleteBody sessionId, agent = False\<rparr> 5 w of
        (Inl e, w') \<Rightarrow> (Inl e, w')
      | (Inr response, w') \<Rightarrow>
          if ok response then (response_json response, w')
          else (Inl (Error (failed_message ''Failed to complete session: '' response)), w'))"

section \<open>The credentials client (credentialsAPI.js)\<close>

definition getCredentialsAPIClient :: "'e env \<Rightarrow> error + string \<times> string" where
  "getCredentialsAPIClient env =
     (case scraperCredentials env of
        None \<Rightarrow> Inl (Error ''Credentials API client not initialized. Call initializeCredentialsAPI() first.'')
      | Some client \<Rightarrow> Inr client)"

text \<open>\<open>credential.id\<close> as it is spliced into a URL.\<close>

fun credential_id :: "json \<Rightarrow> string" where
  "credential_id (JCredential c) = string_of_nat (cred_id c)"
| "credential_id j = ''undefined''"

text \<open>\<open>error.message || response.statusText\<close> on the parsed error body.\<close>

fun message_or :: "json \<Rightarrow> string \<Rightarrow> string" where
  "message_or (JError m) text = (if m \<noteq> [] then m else text)"
| "message_or j text = text"

definition client_request :: "string \<times> string \<Rightarrow> string \<Rightarrow> string \<Rightarrow> request_body \<Rightarrow> request" where
  "client_request client path meth b =
     fetchOptions \<lparr>url = fst client @ path, http_method = meth, api_key = snd client,
                   content_type_json = True, body = b, agent = False\<rparr>"

definition api_error :: "response \<Rightarrow> error" where
  "api_error r =
     (case json_body r of
        None \<Rightarrow> SyntaxError
      | Some JNull \<Rightarrow> TypeError
      | Some err \<Rightarrow> Error (''API Error: '' @ message_or err (statusText r)))"

definition getCredential ::
  "'e env \<Rightarrow> string \<times> string \<Rightarrow> string \<Rightarrow> string \<Rightarrow> (json, 'e) io" where
  "getCredential env client platform sessionId w =
     (case fetch env
             (client_request client
                (''/api/scraper-credentials/queue/'' @ platform @ ''/next'' @
                   (if sessionId \<noteq> [] then ''?session_id='' @ sessionId else []))
                ''GET'' NoBody) w of
        (Inl e, w') \<Rightarrow> (Inl e, w')
      | (Inr response, w') \<Rightarrow>
          if status response = 204 then (Inr JNull, w')
          else if \<not> ok response then (Inl (api_error response), w')
          else
            (case json_body response of
               None \<Rightarrow> (Inl SyntaxError, w')
             | Some JNull \<Rightarrow> (Inl TypeError, w')
             | Some credential \<Rightarrow>
                 (Inr credential,
                  w'\<lparr>activeCredentials := (activeCredentials w')(platform \<mapsto> credential)\<rparr>)))"

text \<open>
  The three reports share one shape: no held credential is a warning and nothing else;
  every failure of the call is caught and logged; the map entry is deleted only after a
  successful call whose body could be read.
\<close>

definition report ::
  "'e env \<Rightarrow> string \<times> string \<Rightarrow> string \<Rightarrow> string \<Rightarrow> request_body \<Rightarrow> 'e world \<Rightarrow> 'e world" where
  "report env client platform endpoint b w =
     (case activeCredentials w platform of
        None \<Rightarrow> w
      | Some credential \<Rightarrow>
          (case fetch env
                  (client_request client
                     (''/api/scraper-credentials/queue/'' @ credential_id credential @ endpoint)
                     ''POST'' b) w of
             (Inl e, w') \<Rightarrow> w'
           | (Inr response, w') \<Rightarrow>
               if \<not> ok response then w'
               else
                 (case json_body response of
                    None \<Rightarrow> w'
                  | Some JNull \<Rightarrow> w'
                  | Some result \<Rightarrow>
                      w'\<lparr>activeCredentials := (activeCredentials w')(platform := None)\<rparr>)))"

definition reportSuccess ::
  "'e env \<Rightarrow> string \<times> string \<Rightarrow> string \<Rightarrow> string \<Rightarrow> 'e world \<Rightarrow> 'e world" where
  "reportSuccess env client platform msg w =
     report env client platform ''/success'' (SuccessBody (if msg \<noteq> [] then Some msg else None)) w"

definition reportFailure ::
  "'e env \<Rightarrow> string \<times> string \<Rightarrow> string \<Rightarrow> string \<Rightarrow> nat \<Rightarrow> 'e world \<Rightarrow> 'e world" where
  "reportFailure env client platform errorMessage cooldownMinutes w =
     report env client platform ''/failure'' (FailureBody errorMessage cooldownMinutes) w"

definition releaseCredential ::
  "'e env \<Rightarrow> string \<times> string \<Rightarrow> string \<Rightarrow> 'e world \<Rightarrow> 'e world" where
  "releaseCredential env client platform w = report env client platform ''/release'' NoBody w"

section \<open>The scrapers that lease credentials\<close>

text \<open>A collaborator acts on the outside world only.\<close>

definition outside :: "('e \<Rightarrow> 'a \<times> 'e) \<Rightarrow> 'e world \<Rightarrow> 'a \<times> 'e world" where
  "outside f w = (case f (ext w) of (r, x) \<Rightarrow> (r, w\<lparr>ext := x\<rparr>))"

definition maxAttempts :: nat where
  "maxAttempts = 3"

definition maxCredentialRetries :: nat where
  "maxCredentialRetries = 10"

definition credentialRetryDelay :: nat where
  "credentialRetryDelay = 60000"

text \<open>
  The inner \<open>for\<close> loop of scrapeLinkedIn and scrapeTechFetch: ask for a credential up to
  ten times, sleeping between two polls; \<open>JNull\<close> after the last poll.
\<close>

function waitForCredential ::
  "'e env \<Rightarrow> string \<times> string \<Rightarrow> string \<Rightarrow> string \<Rightarrow> nat \<Rightarrow> (json, 'e) io" where
  "waitForCredential env client platform sessionId credRetry w =
     (if credRetry < maxCredentialRetries then
        (case getCredential env client platform sessionId w of
           (Inl e, w') \<Rightarrow> (Inl e, w')
         | (Inr credential, w') \<Rightarrow>
             if credential \<noteq> JNull then (Inr credential, w')
             else waitForCredential env client platform sessionId (credRetry + 1)
                    (if credRetry < maxCredentialRetries - 1 then sleep credentialRetryDelay w' else w'))
      else (Inr JNull, w))"
  by pat_completeness auto
termination
  by (relation "measure (\<lambda>(env, client, platform, sessionId, credRetry, w). maxCredentialRetries - credRetry)")
     auto

declare waitForCredential.simps [simp del]

definition scraped_message :: "job list \<Rightarrow> string \<Rightarrow> string" where
  "scraped_message jobs what = ''Scraped '' @ string_of_nat (length jobs) @ what"

text \<open>
  The \<open>catch\<close> blocks of the three scrapers, given the value of \<open>loginSuccess\<close> at the
  throw: which failure report is sent, with which cooldown.
\<close>

definition linkedin_catch ::
  "'e env \<Rightarrow> string \<times> string \<Rightarrow> bool \<Rightarrow> error \<Rightarrow> 'e world \<Rightarrow> 'e world" where
  "linkedin_catch env client loginSuccess error w =
     (if \<not> loginSuccess then
        (if str_includes (message error) ''Login failed'' \<or> str_includes (message error) ''credentials''
            \<or> str_includes (message error) ''waitForSelector''
         then reportFailure env client ''linkedin'' (''Login failed: '' @ message error) 0 w
         else if str_includes (message error) ''rate limit'' \<or> str_includes (message error) ''challenge''
         then reportFailure env client ''linkedin'' (''Rate limited or challenge: '' @ message error) 60 w
         else reportFailure env client ''linkedin'' (''Credential error: '' @ message error) 0 w)
      else reportFailure env client ''linkedin'' (''Scraping error: '' @ message error) 30 w)"

text \<open>
  The \<open>while\<close> loop of scrapeLinkedIn. In its \<open>try\<close> block \<open>loginSuccess\<close> is set
  right before the success report, which does not throw: every error of the block comes
  with \<open>loginSuccess\<close> false.
\<close>

function scrapeLinkedIn_loop ::
  "'e env \<Rightarrow> string \<times> string \<Rightarrow> string \<Rightarrow> string \<Rightarrow> string \<Rightarrow> nat \<Rightarrow> error option
     \<Rightarrow> (job list, 'e) io" where
  "scrapeLinkedIn_loop env client jobTitle loc sessionId attemptCount lastError w =
     (if attemptCount < maxAttempts then
        (case waitForCredential env client ''linkedin'' sessionId 0 w of
           (Inl e, w1) \<Rightarrow> (Inl e, w1)
         | (Inr credential, w1) \<Rightarrow>
             if credential = JNull then
               (Inl (case lastError of Some e \<Rightarrow> e
                     | None \<Rightarrow> Error ''No LinkedIn credentials available from API''), w1)
             else
               (case outside (linkedinBrowser env credential jobTitle loc) w1 of
                  (Inr normalizedPosts, w2) \<Rightarrow>
                    (Inr normalizedPosts,
                     reportSuccess env client ''linkedin''
                       (scraped_message normalizedPosts '' posts successfully'') w2)
                | (Inl error, w2) \<Rightarrow>
                    scrapeLinkedIn_loop env client jobTitle loc sessionId (attemptCount + 1)
                      (Some error) (linkedin_catch env client False error w2)))
      else (Inl (case lastError of Some e \<Rightarrow> e
                 | None \<Rightarrow> Error ''All LinkedIn credential attempts failed''), w))"
  by pat_completeness auto
termination
  by (relation "measure (\<lambda>(env, client, jobTitle, loc, sessionId, attemptCount, lastError, w).
                           maxAttempts - attemptCount)")
     auto

declare scrapeLinkedIn_loop.simps [simp del]

definition scrapeLinkedIn :: "'e env \<Rightarrow> 'e scraper" where
  "scrapeLinkedIn env jobTitle loc sessionId w =
     (case getCredentialsAPIClient env of
        Inl e \<Rightarrow> (Inl e, w)
      | Inr client \<Rightarrow> scrapeLinkedIn_loop env client jobTitle loc sessionId 0 None w)"

definition techfetch_catch ::
  "'e env \<Rightarrow> string \<times> string \<Rightarrow> bool \<Rightarrow> error \<Rightarrow> 'e world \<Rightarrow> 'e world" where
  "techfetch_catch env client loginSuccess error w =
     (if \<not> loginSuccess then
        (if str_includes (message error) ''Login'' \<or> str_includes (message error) ''credentials''
         then reportFailure env client ''techfetch'' (''Login failed: '' @ message error) 0 w
         else if str_includes (message error) ''rate limit''
         then reportFailure env client ''techfetch'' (''Rate limited: '' @ message error) 60 w
         else reportFailure env client ''techfetch'' (''Credential error: '' @ message error) 0 w)
      else reportFailure env client ''techfetch'' (''Scraping error: '' @ message error) 30 w)"

text \<open>
  The \<open>while\<close> loop of scrapeTechFetch: \<open>loginSuccess\<close> is set once scrapeJobs has
  returned, before the jobs are normalised.
\<close>

function scrapeTechFetch_loop ::
  "'e env \<Rightarrow> string \<times> string \<Rightarrow> string \<Rightarrow> string \<Rightarrow> string \<Rightarrow> nat \<Rightarrow> error option
     \<Rightarrow> (job list, 'e) io" where
  "scrapeTechFetch_loop env client jobTitle loc sessionId attemptCount lastError w =
     (if attemptCount < maxAttempts then
        (case waitForCredential env client ''techfetch'' sessionId 0 w of
           (Inl e, w1) \<Rightarrow> (Inl e, w1)
         | (Inr credential, w1) \<Rightarrow>
             if credential = JNull then
               (Inl (case lastError of Some e \<Rightarrow> e
                     | None \<Rightarrow> Error ''No TechFetch credentials available from API''), w1)
             else
               (case outside (techfetchBrowser env credential jobTitle loc) w1 of
                  (Done normalizedJobs, w2) \<Rightarrow>
                    (Inr normalizedJobs,
                     reportSuccess env client ''techfetch''
                       (scraped_message normalizedJobs '' jobs successfully'') w2)
                | (ThrewBeforeLogin error, w2) \<Rightarrow>
                    scrapeTechFetch_loop env client jobTitle loc sessionId (attemptCount + 1)
                      (Some error) (techfetch_catch env client False error w2)
                | (ThrewAfterLogin error, w2) \<Rightarrow>
                    scrapeTechFetch_loop env client jobTitle loc sessionId (attemptCount + 1)
                      (Some error) (techfetch_catch env client True error w2)))
      else (Inl (case lastError of Some e \<Rightarrow> e
                 | None \<Rightarrow> Error ''All TechFetch credential attempts failed''), w))"
  by pat_completeness auto
termination
  by (relation "measure (\<lambda>(env, client, jobTitle, loc, sessionId, attemptCount, lastError, w).
                           maxAttempts - attemptCount)")
     auto

declare scrapeTechFetch_loop.simps [simp del]

definition scrapeTechFetch :: "'e env \<Rightarrow> 'e scraper" where
  "scrapeTechFetch env jobTitle loc sessionId w =
     (case getCredentialsAPIClient env of
        Inl e \<Rightarrow> (Inl e, w)
      | Inr client \<Rightarrow> scrapeTechFetch_loop env client jobTitle loc sessionId 0 None w)"

text \<open>\<open>split\<close> on a separator of one character: the pieces between its occurrences.\<close>

fun split_on :: "char \<Rightarrow> string \<Rightarrow> string list" where
  "split_on sep [] = [[]]"
| "split_on sep (c # cs) =
     (if c = sep then [] # split_on sep cs
      else (case split_on sep cs of piece # pieces \<Rightarrow> (c # piece) # pieces | [] \<Rightarrow> [[c]]))"

text \<open>
  loadCookies on what getCredential returned: whether it returns its cookies or throws.
  An array under \<open>credentials\<close> is mapped cookie by cookie. Of the older form the cookie
  string is split at every semicolon and each piece at its equals sign: a piece
  without one has no value, and trimming that value throws. An object without
  \<open>credentials\<close>, such as an e-mail and password credential, is taken for a holder of a
  path to a cookie file, it has none, and reading the file throws.
\<close>

definition no_cookie_path :: error where
  "no_cookie_path = Error ''The path argument must be of type string. Received undefined''"

definition loadCookies :: "json \<Rightarrow> error + unit" where
  "loadCookies cookiesPathOrCredential =
     (case cookiesPathOrCredential of
        JCredential c \<Rightarrow>
          (case payload c of
             CookieArray cookies \<Rightarrow> Inr ()
           | CookieString cookie csrf_token \<Rightarrow>
               if list_all (\<lambda>pair. CHR ''='' \<in> set pair) (split_on CHR '';'' cookie) then Inr ()
               else Inl TypeError
           | EmailPassword e p \<Rightarrow>
               Inl no_cookie_path)
      | _ \<Rightarrow> Inl no_cookie_path)"

text \<open>
  scrapeGlassdoor has no loop, and reports nothing for an error after \<open>loginSuccess\<close>;
  the error is thrown on in every case. Closing the browser is taken not to throw.
\<close>

definition glassdoor_catch ::
  "'e env \<Rightarrow> string \<times> string \<Rightarrow> bool \<Rightarrow> error \<Rightarrow> 'e world \<Rightarrow> 'e world" where
  "glassdoor_catch env client loginSuccess error w =
     (if \<not> loginSuccess then
        (if str_includes (message error) ''cookie'' \<or> str_includes (message error) ''login''
            \<or> str_includes (message error) ''auth''
         then reportFailure env client ''glassdoor'' (''Authentication failed: '' @ message error) 0 w
         else if str_includes (message error) ''rate limit'' \<or> str_includes (message error) ''blocked''
         then reportFailure env client ''glassdoor'' (''Rate limited or blocked: '' @ message error) 60 w
         else reportFailure env client ''glassdoor'' (''Scraping error: '' @ message error) 30 w)
      else w)"

definition scrapeGlassdoor :: "'e env \<Rightarrow> 'e scraper" where
  "scrapeGlassdoor env jobTitle loc sessionId w =
     (case getCredentialsAPIClient env of
        Inl e \<Rightarrow> (Inl e, w)
      | Inr client \<Rightarrow>
          (case getCredential env client ''glassdoor'' sessionId w of
             (Inl e, w1) \<Rightarrow> (Inl e, w1)
           | (Inr credential, w1) \<Rightarrow>
               if credential = JNull then
                 (Inl (Error ''No Glassdoor credentials available from API''), w1)
               else
                 (case loadCookies credential of
                    Inl e \<Rightarrow> (Inl e, w1)
                  | Inr cookies \<Rightarrow>
                      (case outside (glassdoorLaunch env credential) w1 of
                         (Inl e, w2) \<Rightarrow> (Inl e, w2)
                       | (Inr u, w2) \<Rightarrow>
                           (case outside (glassdoorBrowser env credential jobTitle loc) w2 of
                              (Done jobDetails, w3) \<Rightarrow>
                                (Inr jobDetails,
                                 reportSuccess env client ''glassdoor''
                                   (scraped_message jobDetails '' jobs successfully'') w3)
                            | (ThrewBeforeLogin error, w3) \<Rightarrow>
                                (Inl error, glassdoor_catch env client False error w3)
                            | (ThrewAfterLogin error, w3) \<Rightarrow>
                                (Inl error, glassdoor_catch env client True error w3))))))"

definition scrapeMonster :: "'e env \<Rightarrow> 'e scraper" where
  "scrapeMonster env jobTitle loc sessionId = outside (monsterBrowser env jobTitle loc sessionId)"

definition scrapeDice :: "'e env \<Rightarrow> 'e scraper" where
  "scrapeDice env jobTitle loc sessionId = outside (diceBrowser env jobTitle loc sessionId)"

section \<open>The orchestrator (server.js)\<close>

text \<open>
  \<open>SCRAPERS[platformName]\<close>. The lookup on the object literal finds its five own keys
  and the properties it inherits from \<open>Object.prototype\<close>. Of those only \<open>constructor\<close>
  and \<open>__proto__\<close> are written without a capital, so only they can be a lower-cased
  name. Both are truthy and pass for a scraper: \<open>Object(role.name)\<close> returns a String
  object, on which \<open>jobs.map\<close> is not a function, and \<open>Object.prototype\<close> cannot be
  called. Either way a TypeError is thrown inside the \<open>try\<close> block, with nothing done.
\<close>

definition inherited :: "string \<Rightarrow> error option" where
  "inherited platformName =
     (if platformName = ''constructor'' then Some (Error ''jobs.map is not a function'')
      else if platformName = ''__proto__'' then Some (Error ''scraper is not a function'')
      else None)"

definition SCRAPERS :: "'e env \<Rightarrow> string \<rightharpoonup> 'e scraper" where
  "SCRAPERS env platformName =
     (case [''monster'' \<mapsto> scrapeMonster env,
            ''dice'' \<mapsto> scrapeDice env,
            ''techfetch'' \<mapsto> scrapeTechFetch env,
            ''linkedin'' \<mapsto> scrapeLinkedIn env,
            ''glassdoor'' \<mapsto> scrapeGlassdoor env] platformName of
        Some scraper \<Rightarrow> Some scraper
      | None \<Rightarrow>
          (case inherited platformName of
             Some error \<Rightarrow> Some (\<lambda>jobTitle loc sessionId w. (Inl error, w))
           | None \<Rightarrow> None))"

record platform_outcome =
  success :: bool
  jobs_found :: "nat option"
  jobs_submitted :: "nat option"
  outcome_error :: "string option"

record results =
  results_session_id :: string
  results_role :: string
  results_location :: string
  results_platforms :: "string \<rightharpoonup> platform_outcome"
  summary_total_platforms :: nat
  summary_successful :: nat
  summary_failed :: nat
  completion :: "completion_response option"
  completion_error :: "string option"

datatype run_result = ErrorResult string | MessageResult string | Results results

text \<open>
  \<open>results.platforms[platformName] = outcome\<close>: the assignment adds the key, except for
  \<open>__proto__\<close>, where it sets the prototype of the object and adds no key.
\<close>

definition set_platform ::
  "string \<Rightarrow> platform_outcome \<Rightarrow> (string \<rightharpoonup> platform_outcome) \<Rightarrow> (string \<rightharpoonup> platform_outcome)" where
  "set_platform platformName outcome m =
     (if platformName = ''__proto__'' then m else m(platformName \<mapsto> outcome))"

definition record_success :: "string \<Rightarrow> nat \<Rightarrow> nat \<Rightarrow> results \<Rightarrow> results" where
  "record_success platformName found submitted r =
     r\<lparr>results_platforms :=
         set_platform platformName
           \<lparr>success = True, jobs_found = Some found, jobs_submitted = Some submitted,
            outcome_error = None\<rparr> (results_platforms r),
       summary_successful := summary_successful r + 1\<rparr>"

definition record_failure :: "string \<Rightarrow> string \<Rightarrow> results \<Rightarrow> results" where
  "record_failure platformName err r =
     r\<lparr>results_platforms :=
         set_platform platformName
           \<lparr>success = False, jobs_found = None, jobs_submitted = None, outcome_error = Some err\<rparr>
           (results_platforms r),
       summary_failed := summary_failed r + 1\<rparr>"

text \<open>The \<open>try\<close> block of the platform loop.\<close>

definition scrape_and_submit ::
  "'e env \<Rightarrow> string \<Rightarrow> string \<Rightarrow> queue_item \<Rightarrow> string \<Rightarrow> 'e scraper \<Rightarrow> results
     \<Rightarrow> (results, 'e) io" where
  "scrape_and_submit env apiUrl apiKey queueItem platformName scraper res w =
     (case scraper (name (role queueItem)) (location queueItem) (session_id queueItem)
             (w\<lparr>trace := trace w @
                  [Scrape platformName (name (role queueItem)) (location queueItem)
                     (session_id queueItem)]\<rparr>) of
        (Inl error, w1) \<Rightarrow> (Inl error, w1)
      | (Inr jobs, w1) \<Rightarrow>
          (case submitJobs env apiUrl apiKey (session_id queueItem) platformName
                  (map (\<lambda>job. formatJobForBlacklight env job platformName) jobs) ''success'' None w1 of
             (Inl error, w2) \<Rightarrow> (Inl error, w2)
           | (Inr submitResponse, w2) \<Rightarrow>
               (case submitResponse of
                  JSubmit progress \<Rightarrow>
                    (Inr (record_success platformName (length jobs) (length jobs) res), w2)
                | _ \<Rightarrow> (Inl TypeError, w2))))"

text \<open>The body of the platform loop; \<open>Inl\<close> is an exception that leaves the loop.\<close>

definition process_platform ::
  "'e env \<Rightarrow> string \<Rightarrow> string \<Rightarrow> queue_item \<Rightarrow> platform_info \<Rightarrow> results \<Rightarrow> (results, 'e) io" where
  "process_platform env apiUrl apiKey queueItem platformInfo res w =
     (let platformName = toLowerCase env (platform_name platformInfo) in
      case SCRAPERS env platformName of
        None \<Rightarrow>
          (case submitJobs env apiUrl apiKey (session_id queueItem) platformName [] ''failed''
                  (Some (''Platform not supported: '' @ platformName)) w of
             (Inl e, w') \<Rightarrow> (Inl e, w')
           | (Inr r, w') \<Rightarrow> (Inr (record_failure platformName ''Platform not supported'' res), w'))
      | Some scraper \<Rightarrow>
          (case scrape_and_submit env apiUrl apiKey queueItem platformName scraper res w of
             (Inr res', w') \<Rightarrow> (Inr res', w')
           | (Inl error, w') \<Rightarrow>
               (case submitJobs env apiUrl apiKey (session_id queueItem) platformName [] ''failed''
                       (Some (message error)) w' of
                  (r, w'') \<Rightarrow> (Inr (record_failure platformName (message error) res), w''))))"

fun platform_loop ::
  "'e env \<Rightarrow> string \<Rightarrow> string \<Rightarrow> queue_item \<Rightarrow> platform_info list \<Rightarrow> results \<Rightarrow> (results, 'e) io" where
  "platform_loop env apiUrl apiKey queueItem [] res w = (Inr res, w)"
| "platform_loop env apiUrl apiKey queueItem (platformInfo # rest) res w =
     (case process_platform env apiUrl apiKey queueItem platformInfo res w of
        (Inl e, w') \<Rightarrow> (Inl e, w')
      | (Inr res', w') \<Rightarrow> platform_loop env apiUrl apiKey queueItem rest res' w')"

definition initial_results :: "queue_item \<Rightarrow> results" where
  "initial_results queueItem =
     \<lparr>results_session_id = session_id queueItem, results_role = name (role queueItem),
      results_location = location queueItem, results_platforms = Map.empty,
      summary_total_platforms = length (platforms queueItem), summary_successful = 0,
      summary_failed = 0, completion = None, completion_error = None\<rparr>"

text \<open>Step 4: the completion call and its \<open>try\<close>/\<open>catch\<close>.\<close>

definition complete_step ::
  "'e env \<Rightarrow> string \<Rightarrow> string \<Rightarrow> queue_item \<Rightarrow> results \<Rightarrow> 'e world \<Rightarrow> results \<times> 'e world" where
  "complete_step env apiUrl apiKey queueItem res w =
     (case completeSession env apiUrl apiKey (session_id queueItem) w of
        (Inl error, w') \<Rightarrow> (res\<lparr>completion_error := Some (message error)\<rparr>, w')
      | (Inr completionResponse, w') \<Rightarrow>
          (case completionResponse of
             JCompletion c \<Rightarrow> (res\<lparr>completion := Some c\<rparr>, w')
           | _ \<Rightarrow> (res\<lparr>completion_error := Some (message TypeError)\<rparr>, w')))"

text \<open>
  \<open>blacklightConfig\<close>, \<open>apiUrl\<close> and \<open>apiKey\<close> all have to be truthy.
\<close>

definition blacklightConfigured :: "'e env \<Rightarrow> bool" where
  "blacklightConfigured env =
     (case blacklight env of None \<Rightarrow> False | Some (apiUrl, apiKey) \<Rightarrow> apiUrl \<noteq> [] \<and> apiKey \<noteq> [])"

text \<open>
  Reading \<open>sessionCheck.has_active_session\<close>: a field that is missing is falsy, and
  reading it from null throws. When it is true the run logs \<open>session_id\<close>, \<open>role_name\<close>,
  \<open>location\<close> and the two counts of \<open>sessionCheck.session\<close> before it returns: reading
  them throws when the session object is null or missing.
\<close>

fun session_is_active :: "json \<Rightarrow> error + bool" where
  "session_is_active JNull = Inl TypeError"
| "session_is_active (JSessionCheck c) = Inr (has_active_session c)"
| "session_is_active j = Inr False"

fun session_of :: "json \<Rightarrow> session_info option" where
  "session_of (JSessionCheck c) = session c"
| "session_of j = None"

definition runBlacklightQueue :: "'e env \<Rightarrow> (run_result, 'e) io" where
  "runBlacklightQueue env w =
     (if \<not> blacklightConfigured env then
        (Inl (Error ''Blacklight API configuration missing in credentials.json''), w)
      else
        (case the (blacklight env) of (apiUrl, apiKey) \<Rightarrow>
           (case checkActiveSession env apiUrl apiKey w of
              (Inl e, w1) \<Rightarrow> (Inl e, w1)
            | (Inr sessionCheck, w1) \<Rightarrow>
                (case session_is_active sessionCheck of
                   Inl e \<Rightarrow> (Inl e, w1)
                 | Inr True \<Rightarrow>
                     (case session_of sessionCheck of
                        None \<Rightarrow> (Inl TypeError, w1)
                      | Some s \<Rightarrow>
                          (Inr (ErrorResult ''Active session already exists. Complete it first.''),
                           w1))
                 | Inr False \<Rightarrow>
                     (case getNextRoleLocation env apiUrl apiKey w1 of
                        (Inl e, w2) \<Rightarrow> (Inl e, w2)
                      | (Inr JNull, w2) \<Rightarrow> (Inr (MessageResult ''Queue is empty''), w2)
                      | (Inr (JQueueItem queueItem), w2) \<Rightarrow>
                          (case platform_loop env apiUrl apiKey queueItem (platforms queueItem)
                                  (initial_results queueItem) w2 of
                             (Inl e, w3) \<Rightarrow> (Inl e, w3)
                           | (Inr res, w3) \<Rightarrow>
                               (case complete_step env apiUrl apiKey queueItem res w3 of
                                  (res', w4) \<Rightarrow> (Inr (Results res'), w4)))
                      | (Inr other, w2) \<Rightarrow> (Inl TypeError, w2))))))"

text \<open>The handler of \<open>POST /scrape-queue\<close>: what it sends back.\<close>

record reply =
  reply_status :: nat
  reply_success :: bool
  reply_error :: "string option"
  reply_message :: "string option"
  reply_results :: "results option"

definition post_scrape_queue :: "'e env \<Rightarrow> 'e world \<Rightarrow> reply \<times> 'e world" where
  "post_scrape_queue env w =
     (case runBlacklightQueue env w of
        (Inr (ErrorResult e), w') \<Rightarrow>
          (\<lparr>reply_status = 409, reply_success = False, reply_error = Some e, reply_message = None,
            reply_results = None\<rparr>, w')
      | (Inr (MessageResult m), w') \<Rightarrow>
          (\<lparr>reply_status = 200, reply_success = True, reply_error = None, reply_message = Some m,
            reply_results = None\<rparr>, w')
      | (Inr (Results res), w') \<Rightarrow>
          (\<lparr>reply_status = 200, reply_success = True, reply_error = None,
            reply_message = Some ''Blacklight queue workflow completed'',
            reply_results = Some res\<rparr>, w')
      | (Inl error, w') \<Rightarrow>
          (\<lparr>reply_status = 500, reply_success = False, reply_error = Some (message error),
            reply_message = None, reply_results = None\<rparr>, w'))"

section \<open>The scheduler (server.js)\<close>

text \<open>
  autoCheckQueue in its two parts. The first runs in the turn of the event loop in which
  the timer fires: it tests the flag and the configuration and, when a run is to start,
  sets the flag; it says whether a run starts. The second is the awaited run with its
  \<open>catch\<close>, which logs whatever was thrown, and its \<open>finally\<close>, which resets the flag.
\<close>

definition autoCheckQueue_begin :: "'e env \<Rightarrow> 'e world \<Rightarrow> bool \<times> 'e world" where
  "autoCheckQueue_begin env w =
     (if isProcessingQueue w then (False, w)
      else if \<not> blacklightConfigured env then (False, w)
      else (True, w\<lparr>isProcessingQueue := True\<rparr>))"

definition autoCheckQueue_finish :: "'e env \<Rightarrow> 'e world \<Rightarrow> 'e world" where
  "autoCheckQueue_finish env w =
     (case runBlacklightQueue env w of (outcome, w') \<Rightarrow> w'\<lparr>isProcessingQueue := False\<rparr>)"

text \<open>One call of autoCheckQueue from start to end, with nothing else in between.\<close>

definition autoCheckQueue :: "'e env \<Rightarrow> 'e world \<Rightarrow> 'e world" where
  "autoCheckQueue env w =
     (case autoCheckQueue_begin env w of
        (False, w') \<Rightarrow> w'
      | (True, w') \<Rightarrow> autoCheckQueue_finish env w')"

text \<open>
  Runs that overlap. A run goes on over many turns of the event loop, and other turns
  come in between. The server is followed turn by turn: the timer fires (the first part
  of autoCheckQueue); a client posts to \<open>/scrape-queue\<close> (the handler starts its run,
  with no test and no flag); a run that autoCheckQueue started settles (its second
  part); a run that the handler started settles (the handler's run and reply). The two
  counts say how many runs of each kind have started and not settled. What a run does to
  the world is taken at the turn in which it settles.
\<close>

record 'e server =
  current :: "'e world"
  scheduled_runs :: nat
  manual_runs :: nat

datatype turn = TimerFires | PostScrapeQueue | ScheduledRunSettles | ManualRunSettles

fun turn_step :: "'e env \<Rightarrow> 'e server \<Rightarrow> turn \<Rightarrow> 'e server" where
  "turn_step env s TimerFires =
     (case autoCheckQueue_begin env (current s) of
        (starts, w') \<Rightarrow>
          s\<lparr>current := w', scheduled_runs := scheduled_runs s + (if starts then 1 else 0)\<rparr>)"
| "turn_step env s PostScrapeQueue = s\<lparr>manual_runs := manual_runs s + 1\<rparr>"
| "turn_step env s ScheduledRunSettles =
     (if 0 < scheduled_runs s
      then s\<lparr>current := autoCheckQueue_finish env (current s),
             scheduled_runs := scheduled_runs s - 1\<rparr>
      else s)"
| "turn_step env s ManualRunSettles =
     (if 0 < manual_runs s
      then s\<lparr>current := snd (post_scrape_queue env (current s)),
             manual_runs := manual_runs s - 1\<rparr>
      else s)"

definition turns :: "'e env \<Rightarrow> 'e world \<Rightarrow> turn list \<Rightarrow> 'e server" where
  "turns env w ts =
     foldl (turn_step env) \<lparr>current = w, scheduled_runs = 0, manual_runs = 0\<rparr> ts"

definition runs_in_flight :: "'e server \<Rightarrow> nat" where
  "runs_in_flight s = scheduled_runs s + manual_runs s"

text \<open>The scheduler's invariant on overlapping runs.\<close>

definition guarded :: "'e server \<Rightarrow> bool" where
  "guarded s =
     (scheduled_runs s \<le> 1 \<and> (isProcessingQueue (current s) \<longleftrightarrow> scheduled_runs s = 1))"

section \<open>Reading a trace\<close>

fun delays_of :: "event list \<Rightarrow> nat list" where
  "delays_of [] = []"
| "delays_of (Delay d # es) = d # delays_of es"
| "delays_of (e # es) = delays_of es"

fun fetches_of :: "event list \<Rightarrow> request list" where
  "fetches_of [] = []"
| "fetches_of (Fetch r # es) = r # fetches_of es"
| "fetches_of (e # es) = fetches_of es"

text \<open>
  The platform of each scrape and of each submission request, in the order issued; and
  the session of each completion request.
\<close>

fun platform_ops :: "event list \<Rightarrow> string list" where
  "platform_ops [] = []"
| "platform_ops (Scrape p r l s # es) = p # platform_ops es"
| "platform_ops (Fetch req # es) =
     (case body req of SubmitBody s p jobs st \<Rightarrow> p # platform_ops es | _ \<Rightarrow> platform_ops es)"
| "platform_ops (Delay d # es) = platform_ops es"

fun completions_of :: "event list \<Rightarrow> string list" where
  "completions_of [] = []"
| "completions_of (Fetch req # es) =
     (case body req of CompleteBody s \<Rightarrow> s # completions_of es | _ \<Rightarrow> completions_of es)"
| "completions_of (e # es) = completions_of es"

text \<open>
  The step from \<open>w\<close> to \<open>w'\<close> adds no scrape, no submission and no completion, and
  leaves the flag of the scheduler as it was.
\<close>

definition no_queue_traffic :: "'e world \<Rightarrow> 'e world \<Rightarrow> bool" where
  "no_queue_traffic w w' =
     ((\<exists>evs. trace w' = trace w @ evs \<and> platform_ops evs = [] \<and> completions_of evs = [])
      \<and> isProcessingQueue w' = isProcessingQueue w)"

definition retryable :: "response \<Rightarrow> bool" where
  "retryable r = (status r = 429 \<or> status r \<ge> 500)"

text \<open>
  The events of one makeApiRequest that starts at \<open>attempt\<close>: every request is the same
  one, the delays are the schedule from \<open>attempt\<close> on, a response is returned right after
  its request, and an error comes either right after a request (the network error of the
  last attempt) or after a delay (the budget is used up).
\<close>

definition api_run :: "request \<Rightarrow> nat \<Rightarrow> nat \<Rightarrow> error + response \<Rightarrow> event list \<Rightarrow> bool" where
  "api_run options retries attempt r evs =
     ((\<forall>ev \<in> set evs. ev = Fetch (fetchOptions options) \<or> (\<exists>d. ev = Delay d))
      \<and> fetches_of evs = replicate (length (fetches_of evs)) (fetchOptions options)
      \<and> delays_of evs = map retry_delay [attempt ..< attempt + length (delays_of evs)]
      \<and> (if attempt < retries
          then 1 \<le> length (fetches_of evs) \<and> attempt + length (fetches_of evs) \<le> retries
          else evs = [])
      \<and> (case r of
            Inr resp \<Rightarrow> \<not> retryable resp \<and> length (delays_of evs) + 1 = length (fetches_of evs)
          | Inl e \<Rightarrow> length (delays_of evs) = length (fetches_of evs)
                     \<or> length (delays_of evs) + 1 = length (fetches_of evs)))"

section \<open>Scenarios\<close>

text \<open>
  Concrete environments: the outside world is a counter of the requests answered so
  far, and a script gives the answer to each request.
\<close>

definition quiet_env :: "nat env" where
  "quiet_env =
     \<lparr>fetchE = (\<lambda>req n. (Inl (Error ''fetch failed''), Suc n)),
      monsterBrowser = (\<lambda>jobTitle loc sessionId x. (Inr [], x)),
      diceBrowser = (\<lambda>jobTitle loc sessionId x. (Inr [], x)),
      linkedinBrowser = (\<lambda>credential jobTitle loc x. (Inr [], x)),
      techfetchBrowser = (\<lambda>credential jobTitle loc x. (Done [], x)),
      glassdoorLaunch = (\<lambda>credential x. (Inr (), x)),
      glassdoorBrowser = (\<lambda>credential jobTitle loc x. (Done [], x)),
      formatJobForBlacklight = (\<lambda>job platform. job),
      toLowerCaseUnicode = (\<lambda>s. s),
      blacklight = Some (''http://backend'', ''key''),
      scraperCredentials = Some (''http://backend'', ''key'')\<rparr>"

definition scripted :: "(request \<Rightarrow> nat \<Rightarrow> error + response) \<Rightarrow> nat env" where
  "scripted script = quiet_env\<lparr>fetchE := (\<lambda>req n. (script req n, Suc n))\<rparr>"

definition w0 :: "nat world" where
  "w0 = \<lparr>ext = 0, trace = [], activeCredentials = Map.empty, isProcessingQueue = False\<rparr>"

definition answer :: "nat \<Rightarrow> string \<Rightarrow> json \<Rightarrow> error + response" where
  "answer code text j = Inr \<lparr>status = code, statusText = text, json_body = Some j\<rparr>"

definition ping :: request where
  "ping = \<lparr>url = ''http://backend/ping'', http_method = ''GET'', api_key = ''key'',
           content_type_json = False, body = NoBody, agent = False\<rparr>"

text \<open>Four 500 responses and then a 200; 500 for ever; the network down for ever.\<close>

definition four_500_then_200 :: "nat env" where
  "four_500_then_200 =
     scripted (\<lambda>req n. if n < 4 then answer 500 ''Internal Server Error'' JOther
                        else answer 200 ''OK'' JOther)"

definition always_500 :: "nat env" where
  "always_500 = scripted (\<lambda>req n. answer 500 ''Internal Server Error'' JOther)"

definition network_down :: "nat env" where
  "network_down = scripted (\<lambda>req n. Inl (Error ''ECONNRESET''))"

text \<open>
  A backend that answers the four queue calls: the session check, the next queue item,
  every submission and the completion.
\<close>

definition backend ::
  "json \<Rightarrow> error + response \<Rightarrow> error + response \<Rightarrow> error + response \<Rightarrow> nat env" where
  "backend sessionCheck next submit complete =
     scripted (\<lambda>req n.
       case body req of
         SubmitBody s p jobs st \<Rightarrow> submit
       | CompleteBody s \<Rightarrow> complete
       | _ \<Rightarrow> if url req = ''http://backend/api/scraper/queue/current-session''
              then answer 200 ''OK'' sessionCheck else next)"

definition sample_session :: session_info where
  "sample_session = \<lparr>active_session_id = ''s0'', role_name = ''DevOps Engineer'',
     session_location = ''New York'', platforms_completed = 2, platforms_total = 6\<rparr>"

definition devops :: "string list \<Rightarrow> queue_item" where
  "devops names =
     \<lparr>session_id = ''s1'',
      role = \<lparr>role_id = 42, name = ''DevOps Engineer'', aliases = [''SRE''], candidate_count = 15\<rparr>,
      location = ''New York'',
      platforms = map (\<lambda>n. \<lparr>platform_name = n, display_name = n\<rparr>) names\<rparr>"

definition sample_completion :: completion_response where
  "sample_completion =
     \<lparr>completion_role_name = ''DevOps Engineer'', completion_location = ''New York'',
      successful_platforms = 2, completion_total_platforms = 2, total_found = 0,
      total_imported = 0, total_skipped = 0, matching_triggered = True\<rparr>"

definition active_session_env :: "nat env" where
  "active_session_env =
     backend (JSessionCheck \<lparr>has_active_session = True, session = Some sample_session\<rparr>)
       (answer 200 ''OK'' (JQueueItem (devops [''dice''])))
       (answer 202 ''Accepted'' (JSubmit \<lparr>completed = 1, total_platforms = 1\<rparr>))
       (answer 200 ''OK'' (JCompletion sample_completion))"


text \<open>The requests of the queue calls, as they are sent to this backend.\<close>

definition get_request :: "string \<Rightarrow> request" where
  "get_request path =
     \<lparr>url = ''http://backend'' @ path, http_method = ''GET'', api_key = ''key'',
      content_type_json = False, body = NoBody, agent = False\<rparr>"

definition post_request :: "string \<Rightarrow> request_body \<Rightarrow> request" where
  "post_request path b =
     \<lparr>url = ''http://backend'' @ path, http_method = ''POST'', api_key = ''key'',
      content_type_json = True, body = b, agent = False\<rparr>"

text \<open>Two 429 responses, a 503 and then a 200.\<close>

definition busy_then_ok :: "nat env" where
  "busy_then_ok =
     scripted (\<lambda>req n. if n < 2 then answer 429 ''Too Many Requests'' JOther
                        else if n = 2 then answer 503 ''Service Unavailable'' JOther
                        else answer 200 ''OK'' JOther)"

definition in_list_order :: "string list \<Rightarrow> string list list \<Rightarrow> bool" where
  "in_list_order names segs =
     (length segs \<le> length names
      \<and> (\<forall>i < length segs. segs ! i \<noteq> [] \<and> set (segs ! i) = {names ! i}))"

definition no_session :: json where
  "no_session = JSessionCheck \<lparr>has_active_session = False, session = None\<rparr>"

definition conflict_env :: "nat env" where
  "conflict_env =
     backend no_session
       (answer 409 ''Conflict'' (JError ''Scraper already has an active session''))
       (answer 202 ''Accepted'' (JSubmit \<lparr>completed = 1, total_platforms = 1\<rparr>))
       (answer 200 ''OK'' (JCompletion sample_completion))"

definition unsupported_env :: "nat env" where
  "unsupported_env =
     backend no_session
       (answer 200 ''OK'' (JQueueItem (devops [''Indeed'', ''dice''])))
       (answer 404 ''Not Found'' (JError ''Session not found or unauthorized''))
       (answer 200 ''OK'' (JCompletion sample_completion))"

definition normal_env :: "string list \<Rightarrow> nat env" where
  "normal_env names =
     backend no_session
       (answer 200 ''OK'' (JQueueItem (devops names)))
       (answer 202 ''Accepted'' (JSubmit \<lparr>completed = 1, total_platforms = 2\<rparr>))
       (answer 200 ''OK'' (JCompletion sample_completion))"

definition failure_request :: "string \<times> string \<Rightarrow> json \<Rightarrow> string \<Rightarrow> nat \<Rightarrow> request" where
  "failure_request client credential msg cooldownMinutes =
     client_request client
       (''/api/scraper-credentials/queue/'' @ credential_id credential @ ''/failure'')
       ''POST'' (FailureBody msg cooldownMinutes)"

definition next_credential_request :: "string \<times> string \<Rightarrow> string \<Rightarrow> string \<Rightarrow> request" where
  "next_credential_request client platform sessionId =
     client_request client
       (''/api/scraper-credentials/queue/'' @ platform @ ''/next'' @
          (if sessionId \<noteq> [] then ''?session_id='' @ sessionId else []))
       ''GET'' NoBody"

text \<open>Credentials on demand: the n-th request is answered with credential n.\<close>

definition lease :: "nat \<Rightarrow> json" where
  "lease n = JCredential \<lparr>cred_id = n, payload = EmailPassword ''user@example.com'' ''secret''\<rparr>"

definition leasing :: "nat env" where
  "leasing =
     scripted (\<lambda>req n. case body req of NoBody \<Rightarrow> answer 200 ''OK'' (lease n)
                       | _ \<Rightarrow> answer 200 ''OK'' JOther)"

definition linkedin_wrong_password :: "nat env" where
  "linkedin_wrong_password =
     leasing\<lparr>linkedinBrowser :=
       (\<lambda>credential jobTitle loc x. (Inl (Error ''Login failed: invalid password''), x))\<rparr>"

definition techfetch_rate_limited :: "nat env" where
  "techfetch_rate_limited =
     leasing\<lparr>techfetchBrowser :=
       (\<lambda>credential jobTitle loc x. (ThrewBeforeLogin (Error ''rate limit reached''), x))\<rparr>"

text \<open>Cookie credentials on demand, in the form of a cookie string and a CSRF token.\<close>

definition cookie_lease :: "nat \<Rightarrow> json" where
  "cookie_lease n =
     JCredential \<lparr>cred_id = n,
                  payload = CookieString ''gdId=abc; JSESSIONID=xyz'' (Some ''token'')\<rparr>"

definition cookie_leasing :: "nat env" where
  "cookie_leasing =
     scripted (\<lambda>req n. case body req of NoBody \<Rightarrow> answer 200 ''OK'' (cookie_lease n)
                       | _ \<Rightarrow> answer 200 ''OK'' JOther)"

definition glassdoor_timeout :: "nat env" where
  "glassdoor_timeout =
     cookie_leasing\<lparr>glassdoorBrowser :=
       (\<lambda>credential jobTitle loc x. (ThrewBeforeLogin (Error ''Navigation timeout exceeded''), x))\<rparr>"

definition the_client :: "string \<times> string" where
  "the_client = (''http://backend'', ''key'')"

section \<open>Strings: properties\<close>

lemma str_includes_sublist: "str_includes s sub \<longleftrightarrow> sublist sub s"
proof (induction s)
  case Nil
  then show ?case by simp
next
  case (Cons c cs)
  then show ?case by (auto simp: sublist_Cons_right)
qed

lemma toLowerCase_LinkedIn: "toLowerCase env ''LinkedIn'' = ''linkedin''"
  by (simp add: toLowerCase_def lower_char_def)

lemma string_of_nat_404: "string_of_nat 404 = ''404''"
  by (simp add: string_of_nat.simps digit_def)

section \<open>The API client: properties\<close>

lemma delays_of_append [simp]: "delays_of (xs @ ys) = delays_of xs @ delays_of ys"
  by (induction xs rule: delays_of.induct) auto

lemma fetches_of_append [simp]: "fetches_of (xs @ ys) = fetches_of xs @ fetches_of ys"
  by (induction xs rule: fetches_of.induct) auto

lemma platform_ops_append [simp]: "platform_ops (xs @ ys) = platform_ops xs @ platform_ops ys"
  by (induction xs rule: platform_ops.induct) (auto split: request_body.splits)

lemma completions_of_append [simp]:
  "completions_of (xs @ ys) = completions_of xs @ completions_of ys"
  by (induction xs rule: completions_of.induct) (auto split: request_body.splits)

lemma fetch_trace:
  "fetch env req w = (out, w') \<Longrightarrow> trace w' = trace w @ [Fetch req]"
  by (auto simp: fetch_def split: prod.splits)

lemma sleep_trace [simp]: "trace (sleep ms w) = trace w @ [Delay ms]"
  by (simp add: sleep_def)

lemmas scenario_simps =
  makeApiRequest_def makeApiRequest_loop.simps scripted_def quiet_env_def fetch_def w0_def
  ping_def fetchOptions_def answer_def sleep_def retry_delay_def RETRY_DELAYS_def

lemma api_run_exhausted: "\<not> attempt < retries \<Longrightarrow> api_run options retries attempt (Inl e) []"
  by (simp add: api_run_def)

lemma api_run_return:
  "attempt < retries \<Longrightarrow> \<not> retryable resp \<Longrightarrow>
   api_run options retries attempt (Inr resp) [Fetch (fetchOptions options)]"
  by (simp add: api_run_def)

lemma api_run_throw:
  "attempt < retries \<Longrightarrow> api_run options retries attempt (Inl e) [Fetch (fetchOptions options)]"
  by (simp add: api_run_def)

lemma api_run_retry:
  assumes "attempt < retries" and "api_run options retries (attempt + 1) r evs"
  shows "api_run options retries attempt r
           (Fetch (fetchOptions options) # Delay (retry_delay attempt) # evs)"
proof -
  have "map retry_delay [attempt ..< attempt + Suc k] =
        retry_delay attempt # map retry_delay [Suc attempt ..< Suc attempt + k]" for k
    by (simp add: upt_conv_Cons del: upt_Suc)
  with assms show ?thesis
    by (auto simp: api_run_def split: if_splits sum.splits)
qed

text \<open>The loop only appends to the trace, and what it appends has the shape above.\<close>

lemma makeApiRequest_loop_events:
  "makeApiRequest_loop env options retries attempt w = (r, w') \<Longrightarrow>
   \<exists>evs. trace w' = trace w @ evs \<and> api_run options retries attempt r evs"
proof (induction env options retries attempt w arbitrary: r w' rule: makeApiRequest_loop.induct)
  case (1 env options retries attempt w)
  show ?case
  proof (cases "attempt < retries")
    case False
    with "1.prems" show ?thesis
      by (auto simp: makeApiRequest_loop.simps[of env options retries attempt w] api_run_exhausted)
  next
    case True
    obtain out w1 where f: "fetch env (fetchOptions options) w = (out, w1)"
      by (cases "fetch env (fetchOptions options) w")
    have t1: "trace w1 = trace w @ [Fetch (fetchOptions options)]"
      using fetch_trace[OF f] .
    let ?next = "makeApiRequest_loop env options retries (attempt + 1) (sleep (retry_delay attempt) w1)"
    have eq: "(r, w') =
        (case out of
           Inr response \<Rightarrow>
             if status response = 429 then ?next
             else if 500 \<le> status response then ?next else (Inr response, w1)
         | Inl error \<Rightarrow> if attempt = retries - 1 then (Inl error, w1) else ?next)"
      using "1.prems" True f
      by (simp add: makeApiRequest_loop.simps[of env options retries attempt w])
    have retry: "\<exists>evs. trace w' = trace w @ evs \<and> api_run options retries attempt r evs"
      if ih: "\<exists>evs. trace w' = trace (sleep (retry_delay attempt) w1) @ evs
                  \<and> api_run options retries (attempt + 1) r evs"
    proof -
      from ih obtain evs where e: "trace w' = trace (sleep (retry_delay attempt) w1) @ evs"
        and a: "api_run options retries (attempt + 1) r evs" by blast
      from e t1 have "trace w' =
          trace w @ (Fetch (fetchOptions options) # Delay (retry_delay attempt) # evs)"
        by simp
      with api_run_retry[OF True a] show ?thesis by blast
    qed
    show ?thesis
    proof (cases out)
      case (Inr resp)
      show ?thesis
      proof (cases "retryable resp")
        case again: True
        with eq Inr have n: "?next = (r, w')"
          by (auto simp: retryable_def)
        from again have "status resp = 429 \<or> (status resp \<noteq> 429 \<and> 500 \<le> status resp)"
          by (auto simp: retryable_def)
        then show ?thesis
        proof
          assume s: "status resp = 429"
          from "1.IH"(2)[OF True f[unfolded Inr, symmetric] refl s n] retry show ?thesis by blast
        next
          assume s: "status resp \<noteq> 429 \<and> 500 \<le> status resp"
          from "1.IH"(3)[OF True f[unfolded Inr, symmetric] refl _ _ n] s retry
          show ?thesis by blast
        qed
      next
        case False
        with eq Inr have "r = Inr resp" "w' = w1"
          by (auto simp: retryable_def)
        with t1 api_run_return[OF True False] show ?thesis by auto
      qed
    next
      case (Inl e)
      show ?thesis
      proof (cases "attempt = retries - 1")
        case last: True
        with eq Inl have "r = Inl e" "w' = w1"
          by auto
        with t1 api_run_throw[OF True] show ?thesis by auto
      next
        case False
        with eq Inl have n: "?next = (r, w')"
          by auto
        from "1.IH"(1)[OF True f[unfolded Inl, symmetric] refl False n] retry
        show ?thesis by blast
      qed
    qed
  qed
qed

lemma fetch_flag: "fetch env req w = (out, w') \<Longrightarrow> isProcessingQueue w' = isProcessingQueue w"
  by (auto simp: fetch_def split: prod.splits)

lemma sleep_flag [simp]: "isProcessingQueue (sleep ms w) = isProcessingQueue w"
  by (simp add: sleep_def)

lemma makeApiRequest_loop_flag:
  "makeApiRequest_loop env options retries attempt w = (r, w') \<Longrightarrow>
   isProcessingQueue w' = isProcessingQueue w"
proof (induction env options retries attempt w arbitrary: r w' rule: makeApiRequest_loop.induct)
  case (1 env options retries attempt w)
  show ?case
  proof (cases "attempt < retries")
    case False
    with "1.prems" show ?thesis
      by (auto simp: makeApiRequest_loop.simps[of env options retries attempt w])
  next
    case True
    obtain out w1 where f: "fetch env (fetchOptions options) w = (out, w1)"
      by (cases "fetch env (fetchOptions options) w")
    note f1 = fetch_flag[OF f]
    let ?next = "makeApiRequest_loop env options retries (attempt + 1) (sleep (retry_delay attempt) w1)"
    have eq: "(r, w') =
        (case out of
           Inr response \<Rightarrow>
             if status response = 429 then ?next
             else if 500 \<le> status response then ?next else (Inr response, w1)
         | Inl error \<Rightarrow> if attempt = retries - 1 then (Inl error, w1) else ?next)"
      using "1.prems" True f
      by (simp add: makeApiRequest_loop.simps[of env options retries attempt w])
    show ?thesis
    proof (cases out)
      case (Inr resp)
      show ?thesis
      proof (cases "status resp = 429")
        case True
        with eq Inr have n: "?next = (r, w')" by simp
        from "1.IH"(2)[OF \<open>attempt < retries\<close> f[unfolded Inr, symmetric] refl True n] f1
        show ?thesis by simp
      next
        case no429: False
        show ?thesis
        proof (cases "500 \<le> status resp")
          case True
          with eq Inr no429 have n: "?next = (r, w')" by simp
          from "1.IH"(3)[OF \<open>attempt < retries\<close> f[unfolded Inr, symmetric] refl no429 True n] f1
          show ?thesis by simp
        next
          case False
          with eq Inr no429 have "w' = w1" by simp
          with f1 show ?thesis by simp
        qed
      qed
    next
      case (Inl e)
      show ?thesis
      proof (cases "attempt = retries - 1")
        case True
        with eq Inl have "w' = w1" by simp
        with f1 show ?thesis by simp
      next
        case False
        with eq Inl have n: "?next = (r, w')" by simp
        from "1.IH"(1)[OF \<open>attempt < retries\<close> f[unfolded Inl, symmetric] refl False n] f1
        show ?thesis by simp
      qed
    qed
  qed
qed

lemma makeApiRequest_flag:
  "makeApiRequest env options retries w = (r, w') \<Longrightarrow> isProcessingQueue w' = isProcessingQueue w"
  unfolding makeApiRequest_def by (rule makeApiRequest_loop_flag)

lemma makeApiRequest_events:
  "makeApiRequest env options retries w = (r, w') \<Longrightarrow>
   \<exists>evs. trace w' = trace w @ evs \<and> api_run options retries 0 r evs"
  unfolding makeApiRequest_def by (rule makeApiRequest_loop_events)

lemma retry_delay_schedule:
  assumes "k \<le> 5"
  shows "map retry_delay [0 ..< k] = take k RETRY_DELAYS"
proof -
  from assms have "k = 0 \<or> k = 1 \<or> k = 2 \<or> k = 3 \<or> k = 4 \<or> k = 5" by arith
  then show ?thesis
    by (elim disjE) (simp_all add: retry_delay_def RETRY_DELAYS_def upt_conv_Cons)
qed

lemma makeApiRequest_general:
  assumes "makeApiRequest env options 5 w = (r, w')"
  shows "\<exists>evs. trace w' = trace w @ evs
      \<and> fetches_of evs = replicate (length (fetches_of evs)) (fetchOptions options)
      \<and> 1 \<le> length (fetches_of evs) \<and> length (fetches_of evs) \<le> 5
      \<and> delays_of evs = take (length (delays_of evs)) RETRY_DELAYS
      \<and> (case r of
            Inr resp \<Rightarrow> status resp \<noteq> 429 \<and> status resp < 500
                        \<and> length (delays_of evs) + 1 = length (fetches_of evs)
          | Inl e \<Rightarrow> length (delays_of evs) = length (fetches_of evs)
                     \<or> length (delays_of evs) + 1 = length (fetches_of evs))"
proof -
  from makeApiRequest_events[OF assms] obtain evs where
    t: "trace w' = trace w @ evs" and a: "api_run options 5 0 r evs" by blast
  from a have n: "1 \<le> length (fetches_of evs)" "length (fetches_of evs) \<le> 5"
    by (auto simp: api_run_def)
  from a have k: "length (delays_of evs) \<le> 5"
    by (auto simp: api_run_def split: sum.splits)
  from a have "delays_of evs = map retry_delay [0 ..< length (delays_of evs)]"
    by (simp add: api_run_def)
  with retry_delay_schedule[OF k]
  have d: "delays_of evs = take (length (delays_of evs)) RETRY_DELAYS"
    by simp
  from a have f: "fetches_of evs = replicate (length (fetches_of evs)) (fetchOptions options)"
    by (simp add: api_run_def)
  from a have c: "(case r of
            Inr resp \<Rightarrow> status resp \<noteq> 429 \<and> status resp < 500
                        \<and> length (delays_of evs) + 1 = length (fetches_of evs)
          | Inl e \<Rightarrow> length (delays_of evs) = length (fetches_of evs)
                     \<or> length (delays_of evs) + 1 = length (fetches_of evs))"
    by (auto simp: api_run_def retryable_def split: sum.splits)
  from t f n d c show ?thesis by blast
qed

lemma makeApiRequest_immediate:
  assumes "fetch env (fetchOptions options) w = (Inr resp, w1)"
    and "status resp \<noteq> 429" and "status resp < 500"
  shows "makeApiRequest env options 5 w = (Inr resp, w1)"
  using assms by (simp add: makeApiRequest_def makeApiRequest_loop.simps[of env options 5 0 w])

lemma four_500_then_200_run:
  "fst (makeApiRequest four_500_then_200 ping 5 w0) = answer 200 ''OK'' JOther
   \<and> trace (snd (makeApiRequest four_500_then_200 ping 5 w0)) =
       [Fetch ping, Delay 1000, Fetch ping, Delay 2000, Fetch ping, Delay 5000,
        Fetch ping, Delay 10000, Fetch ping]"
  by (simp add: scenario_simps four_500_then_200_def)

lemma always_500_run:
  "fst (makeApiRequest always_500 ping 5 w0) = Inl (Error ''Max retries exceeded'')
   \<and> trace (snd (makeApiRequest always_500 ping 5 w0)) =
       [Fetch ping, Delay 1000, Fetch ping, Delay 2000, Fetch ping, Delay 5000,
        Fetch ping, Delay 10000, Fetch ping, Delay 30000]"
  by (simp add: scenario_simps always_500_def)

lemma network_down_run:
  "fst (makeApiRequest network_down ping 5 w0) = Inl (Error ''ECONNRESET'')
   \<and> trace (snd (makeApiRequest network_down ping 5 w0)) =
       [Fetch ping, Delay 1000, Fetch ping, Delay 2000, Fetch ping, Delay 5000,
        Fetch ping, Delay 10000, Fetch ping]"
  by (simp add: scenario_simps network_down_def)

lemma retry_delay_nth: "attempt < 5 \<Longrightarrow> retry_delay attempt = RETRY_DELAYS ! attempt"
proof -
  assume "attempt < 5"
  then have "attempt = 0 \<or> attempt = 1 \<or> attempt = 2 \<or> attempt = 3 \<or> attempt = 4" by arith
  then show ?thesis
    by (elim disjE) (simp_all add: retry_delay_def RETRY_DELAYS_def)
qed

lemma makeApiRequest_loop_retry_status:
  assumes "attempt < 5" and "fetch env (fetchOptions options) w = (Inr resp, w1)"
    and "status resp = 429 \<or> 500 \<le> status resp"
  shows "makeApiRequest_loop env options 5 attempt w =
          makeApiRequest_loop env options 5 (attempt + 1) (sleep (RETRY_DELAYS ! attempt) w1)"
  using assms retry_delay_nth[OF assms(1)]
  by (auto simp: makeApiRequest_loop.simps[of env options 5 attempt w])

lemma makeApiRequest_loop_retry_network:
  assumes "attempt < 4" and "fetch env (fetchOptions options) w = (Inl e, w1)"
  shows "makeApiRequest_loop env options 5 attempt w =
          makeApiRequest_loop env options 5 (attempt + 1) (sleep (RETRY_DELAYS ! attempt) w1)"
  using assms retry_delay_nth[of attempt]
  by (auto simp: makeApiRequest_loop.simps[of env options 5 attempt w])

lemma makeApiRequest_loop_last_network:
  assumes "fetch env (fetchOptions options) w = (Inl e, w1)"
  shows "makeApiRequest_loop env options 5 4 w = (Inl e, w1)"
  using assms by (simp add: makeApiRequest_loop.simps[of env options 5 4 w])

lemma makeApiRequest_loop_return:
  assumes "attempt < 5" and "fetch env (fetchOptions options) w = (Inr resp, w1)"
    and "status resp \<noteq> 429" and "status resp < 500"
  shows "makeApiRequest_loop env options 5 attempt w = (Inr resp, w1)"
  using assms by (simp add: makeApiRequest_loop.simps[of env options 5 attempt w])

lemma makeApiRequest_loop_exhausted:
  "makeApiRequest_loop env options 5 5 w = (Inl (Error ''Max retries exceeded''), w)"
  by (simp add: makeApiRequest_loop.simps[of env options 5 5 w])

lemma busy_then_ok_run:
  "fst (makeApiRequest busy_then_ok ping 5 w0) = answer 200 ''OK'' JOther
      \<and> trace (snd (makeApiRequest busy_then_ok ping 5 w0)) =
          [Fetch ping, Delay 1000, Fetch ping, Delay 2000, Fetch ping, Delay 5000, Fetch ping]"
  by (simp add: scenario_simps busy_then_ok_def)

lemma checkActiveSession_through_makeApiRequest:
  "snd (checkActiveSession env apiUrl apiKey w) =
          snd (makeApiRequest env
             \<lparr>url = apiUrl @ ''/api/scraper/queue/current-session'', http_method = ''GET'', api_key = apiKey,
                content_type_json = False, body = NoBody, agent = False\<rparr> 5 w)"
  by (simp add: checkActiveSession_def split: prod.splits sum.splits)

lemma getNextRoleLocation_through_makeApiRequest:
  "snd (getNextRoleLocation env apiUrl apiKey w) =
          snd (makeApiRequest env
             \<lparr>url = apiUrl @ ''/api/scraper/queue/next-role-location'', http_method = ''GET'', api_key = apiKey,
                content_type_json = False, body = NoBody, agent = False\<rparr> 5 w)"
  by (simp add: getNextRoleLocation_def split: prod.splits sum.splits)

lemma submitJobs_through_makeApiRequest:
  "snd (submitJobs env apiUrl apiKey sessionId platform jobs st errorMessage w) =
          snd (makeApiRequest env
             \<lparr>url = apiUrl @ ''/api/scraper/queue/jobs'', http_method = ''POST'', api_key = apiKey,
                content_type_json = True, body = submit_body sessionId platform jobs st errorMessage, agent = False\<rparr> 5 w)"
  by (simp add: submitJobs_def split: prod.splits sum.splits)

lemma completeSession_through_makeApiRequest:
  "snd (completeSession env apiUrl apiKey sessionId w) =
          snd (makeApiRequest env
             \<lparr>url = apiUrl @ ''/api/scraper/queue/complete'', http_method = ''POST'', api_key = apiKey,
                content_type_json = True, body = CompleteBody sessionId, agent = False\<rparr> 5 w)"
  by (simp add: completeSession_def split: prod.splits sum.splits)


lemma getCredential_one_fetch:
  "getCredential env client platform sessionId w = (r, w') \<Longrightarrow>
   \<exists>req. trace w' = trace w @ [Fetch req]"
  by (auto simp: getCredential_def
           split: prod.splits sum.splits if_splits option.splits json.splits dest: fetch_trace)

lemma report_one_fetch:
  "trace (report env client platform endpoint b w) =
     trace w @
     (case activeCredentials w platform of
        None \<Rightarrow> []
      | Some credential \<Rightarrow>
          [Fetch (client_request client
                    (''/api/scraper-credentials/queue/'' @ credential_id credential @ endpoint)
                    ''POST'' b)])"
proof (cases "activeCredentials w platform")
  case None
  then show ?thesis by (simp add: report_def)
next
  case (Some credential)
  let ?req = "client_request client
                (''/api/scraper-credentials/queue/'' @ credential_id credential @ endpoint) ''POST'' b"
  obtain out w1 where f: "fetch env ?req w = (out, w1)" by (cases "fetch env ?req w")
  from Some f have "trace (report env client platform endpoint b w) = trace w1"
    by (auto simp: report_def split: sum.splits if_splits option.splits json.splits)
  with fetch_trace[OF f] Some show ?thesis by simp
qed

lemma reportSuccess_one_fetch:
  "trace (reportSuccess env client platform msg w) =
          trace w @
          (case activeCredentials w platform of
             None \<Rightarrow> []
           | Some credential \<Rightarrow>
               [Fetch (client_request client
                         (''/api/scraper-credentials/queue/'' @ credential_id credential @ ''/success'')
                         ''POST'' (SuccessBody (if msg \<noteq> [] then Some msg else None)))])"
  by (simp add: reportSuccess_def report_one_fetch)

lemma reportFailure_one_fetch:
  "trace (reportFailure env client platform errorMessage cooldownMinutes w) =
          trace w @
          (case activeCredentials w platform of
             None \<Rightarrow> []
           | Some credential \<Rightarrow>
               [Fetch (client_request client
                         (''/api/scraper-credentials/queue/'' @ credential_id credential @ ''/failure'')
                         ''POST'' (FailureBody errorMessage cooldownMinutes))])"
  by (simp add: reportFailure_def report_one_fetch)

lemma releaseCredential_one_fetch:
  "trace (releaseCredential env client platform w) =
          trace w @
          (case activeCredentials w platform of
             None \<Rightarrow> []
           | Some credential \<Rightarrow>
               [Fetch (client_request client
                         (''/api/scraper-credentials/queue/'' @ credential_id credential @ ''/release'')
                         ''POST'' NoBody)])"
  by (simp add: releaseCredential_def report_one_fetch)


text \<open>
  C6, as stated, fails: a request of the credentials client is a backend call, and a 500
  in answer to it is thrown to the caller after one request, with no delay and no retry.
\<close>

theorem retry_every_call_counterexample:
  "fst (getCredential always_500 (''http://backend'', ''key'') ''linkedin'' ''s1'' w0) =
     Inl (Error ''API Error: Internal Server Error'')
   \<and> length (fetches_of (trace (snd (getCredential always_500 (''http://backend'', ''key'')
                                          ''linkedin'' ''s1'' w0)))) = 1
   \<and> delays_of (trace (snd (getCredential always_500 (''http://backend'', ''key'')
                                  ''linkedin'' ''s1'' w0))) = []"
  by (simp add: scenario_simps always_500_def getCredential_def client_request_def ok_def
        api_error_def)

text \<open>
  C6 (amended): the four queue calls (the session check, the next queue item, a
  submission, a completion) are made through makeApiRequest with five attempts. Such a
  call sends the same request between one and five times; the delays slept are an
  initial part of the schedule 1000, 2000, 5000, 10000, 30000; a response is returned only
  when its status is neither 429 nor 500 or more, right after its request. Attempt by
  attempt, counted from 0: a response with status 429 or with status 500 or more is
  followed by a sleep of the delay at the index of the attempt and by the next attempt; so
  is a network error on the attempts 0 to 3, and on attempt 4 it is thrown; a response of
  any other status is returned at once; after attempt 4 the error is "Max retries
  exceeded". Four 500 responses and a 200 give the 200 after the first four delays; five
  500 responses end in "Max retries exceeded"; a network that stays down ends, after four
  delays, in the network error; two 429 responses and a 503 are retried after 1000, 2000
  and 5000. The calls of the credentials client are outside the schedule: asking for a
  credential sends one request whatever the answer, and a report of success, a report of
  failure and a release each send one request when a credential is held for the platform
  and none otherwise, with no delay.
\<close>

theorem makeApiRequest_retry_schedule:
  "(\<forall>(env :: 'e env) options w r w'.
      makeApiRequest env options 5 w = (r, w') \<longrightarrow>
      (\<exists>evs. trace w' = trace w @ evs
         \<and> fetches_of evs = replicate (length (fetches_of evs)) (fetchOptions options)
         \<and> 1 \<le> length (fetches_of evs) \<and> length (fetches_of evs) \<le> 5
         \<and> delays_of evs = take (length (delays_of evs)) RETRY_DELAYS
         \<and> (case r of
               Inr resp \<Rightarrow> status resp \<noteq> 429 \<and> status resp < 500
                           \<and> length (delays_of evs) + 1 = length (fetches_of evs)
             | Inl e \<Rightarrow> length (delays_of evs) = length (fetches_of evs)
                        \<or> length (delays_of evs) + 1 = length (fetches_of evs))))
   \<and> (\<forall>(env :: 'e env) options w resp w1.
        fetch env (fetchOptions options) w = (Inr resp, w1) \<and> status resp \<noteq> 429
          \<and> status resp < 500 \<longrightarrow>
        makeApiRequest env options 5 w = (Inr resp, w1))
   \<and> (fst (makeApiRequest four_500_then_200 ping 5 w0) = answer 200 ''OK'' JOther
      \<and> delays_of (trace (snd (makeApiRequest four_500_then_200 ping 5 w0))) =
          [1000, 2000, 5000, 10000]
      \<and> length (fetches_of (trace (snd (makeApiRequest four_500_then_200 ping 5 w0)))) = 5)
   \<and> (fst (makeApiRequest always_500 ping 5 w0) = Inl (Error ''Max retries exceeded'')
      \<and> length (fetches_of (trace (snd (makeApiRequest always_500 ping 5 w0)))) = 5)
   \<and> (fst (makeApiRequest network_down ping 5 w0) = Inl (Error ''ECONNRESET'')
      \<and> delays_of (trace (snd (makeApiRequest network_down ping 5 w0))) =
          [1000, 2000, 5000, 10000]
      \<and> length (fetches_of (trace (snd (makeApiRequest network_down ping 5 w0)))) = 5)
   \<and> (\<forall>(env :: 'e env) client platform sessionId w r w'.
        getCredential env client platform sessionId w = (r, w') \<longrightarrow>
        (\<exists>req. trace w' = trace w @ [Fetch req]))
   \<and> (\<forall>(env :: 'e env) options w.
        makeApiRequest env options 5 w = makeApiRequest_loop env options 5 0 w)
   \<and> (\<forall>(env :: 'e env) options attempt w resp w1.
        attempt < 5 \<and> fetch env (fetchOptions options) w = (Inr resp, w1)
          \<and> (status resp = 429 \<or> 500 \<le> status resp) \<longrightarrow>
        makeApiRequest_loop env options 5 attempt w =
          makeApiRequest_loop env options 5 (attempt + 1) (sleep (RETRY_DELAYS ! attempt) w1))
   \<and> (\<forall>(env :: 'e env) options attempt w e w1.
        attempt < 4 \<and> fetch env (fetchOptions options) w = (Inl e, w1) \<longrightarrow>
        makeApiRequest_loop env options 5 attempt w =
          makeApiRequest_loop env options 5 (attempt + 1) (sleep (RETRY_DELAYS ! attempt) w1))
   \<and> (\<forall>(env :: 'e env) options w e w1.
        fetch env (fetchOptions options) w = (Inl e, w1) \<longrightarrow>
        makeApiRequest_loop env options 5 4 w = (Inl e, w1))
   \<and> (\<forall>(env :: 'e env) options attempt w resp w1.
        attempt < 5 \<and> fetch env (fetchOptions options) w = (Inr resp, w1)
          \<and> status resp \<noteq> 429 \<and> status resp < 500 \<longrightarrow>
        makeApiRequest_loop env options 5 attempt w = (Inr resp, w1))
   \<and> (\<forall>(env :: 'e env) options w.
        makeApiRequest_loop env options 5 5 w = (Inl (Error ''Max retries exceeded''), w))
   \<and> (fst (makeApiRequest busy_then_ok ping 5 w0) = answer 200 ''OK'' JOther
      \<and> trace (snd (makeApiRequest busy_then_ok ping 5 w0)) =
          [Fetch ping, Delay 1000, Fetch ping, Delay 2000, Fetch ping, Delay 5000, Fetch ping])
   \<and> (\<forall>(env :: 'e env) apiUrl apiKey w.
        snd (checkActiveSession env apiUrl apiKey w) =
          snd (makeApiRequest env
             \<lparr>url = apiUrl @ ''/api/scraper/queue/current-session'', http_method = ''GET'', api_key = apiKey,
                content_type_json = False, body = NoBody, agent = False\<rparr> 5 w))
   \<and> (\<forall>(env :: 'e env) apiUrl apiKey w.
        snd (getNextRoleLocation env apiUrl apiKey w) =
          snd (makeApiRequest env
             \<lparr>url = apiUrl @ ''/api/scraper/queue/next-role-location'', http_method = ''GET'', api_key = apiKey,
                content_type_json = False, body = NoBody, agent = False\<rparr> 5 w))
   \<and> (\<forall>(env :: 'e env) apiUrl apiKey sessionId platform jobs st errorMessage w.
        snd (submitJobs env apiUrl apiKey sessionId platform jobs st errorMessage w) =
          snd (makeApiRequest env
             \<lparr>url = apiUrl @ ''/api/scraper/queue/jobs'', http_method = ''POST'', api_key = apiKey,
                content_type_json = True, body = submit_body sessionId platform jobs st errorMessage, agent = False\<rparr> 5 w))
   \<and> (\<forall>(env :: 'e env) apiUrl apiKey sessionId w.
        snd (completeSession env apiUrl apiKey sessionId w) =
          snd (makeApiRequest env
             \<lparr>url = apiUrl @ ''/api/scraper/queue/complete'', http_method = ''POST'', api_key = apiKey,
                content_type_json = True, body = CompleteBody sessionId, agent = False\<rparr> 5 w))
   \<and> (\<forall>(env :: 'e env) client platform msg w.
        trace (reportSuccess env client platform msg w) =
          trace w @
          (case activeCredentials w platform of
             None \<Rightarrow> []
           | Some credential \<Rightarrow>
               [Fetch (client_request client
                         (''/api/scraper-credentials/queue/'' @ credential_id credential @ ''/success'')
                         ''POST'' (SuccessBody (if msg \<noteq> [] then Some msg else None)))]))
   \<and> (\<forall>(env :: 'e env) client platform errorMessage cooldownMinutes w.
        trace (reportFailure env client platform errorMessage cooldownMinutes w) =
          trace w @
          (case activeCredentials w platform of
             None \<Rightarrow> []
           | Some credential \<Rightarrow>
               [Fetch (client_request client
                         (''/api/scraper-credentials/queue/'' @ credential_id credential @ ''/failure'')
                         ''POST'' (FailureBody errorMessage cooldownMinutes))]))
   \<and> (\<forall>(env :: 'e env) client platform w.
        trace (releaseCredential env client platform w) =
          trace w @
          (case activeCredentials w platform of
             None \<Rightarrow> []
           | Some credential \<Rightarrow>
               [Fetch (client_request client
                         (''/api/scraper-credentials/queue/'' @ credential_id credential @ ''/release'')
                         ''POST'' NoBody)]))"
proof (intro conjI allI impI)
  fix env :: "'e env" and options w r w'
  assume "makeApiRequest env options 5 w = (r, w')"
  then show "\<exists>evs. trace w' = trace w @ evs
         \<and> fetches_of evs = replicate (length (fetches_of evs)) (fetchOptions options)
         \<and> 1 \<le> length (fetches_of evs) \<and> length (fetches_of evs) \<le> 5
         \<and> delays_of evs = take (length (delays_of evs)) RETRY_DELAYS
         \<and> (case r of
               Inr resp \<Rightarrow> status resp \<noteq> 429 \<and> status resp < 500
                           \<and> length (delays_of evs) + 1 = length (fetches_of evs)
             | Inl e \<Rightarrow> length (delays_of evs) = length (fetches_of evs)
                        \<or> length (delays_of evs) + 1 = length (fetches_of evs))"
    by (rule makeApiRequest_general)
next
  fix env :: "'e env" and options w resp w1
  assume "fetch env (fetchOptions options) w = (Inr resp, w1) \<and> status resp \<noteq> 429
          \<and> status resp < 500"
  then show "makeApiRequest env options 5 w = (Inr resp, w1)"
    by (simp add: makeApiRequest_immediate)
next
  fix env :: "'e env" and client platform sessionId w r w'
  assume "getCredential env client platform sessionId w = (r, w')"
  then show "\<exists>req. trace w' = trace w @ [Fetch req]"
    by (rule getCredential_one_fetch)
next
  fix env :: "'e env" and options w
  show "makeApiRequest env options 5 w = makeApiRequest_loop env options 5 0 w"
    by (simp add: makeApiRequest_def)
next
  fix env :: "'e env" and options and attempt :: nat and w resp w1
  assume "attempt < 5 \<and> fetch env (fetchOptions options) w = (Inr resp, w1)
          \<and> (status resp = 429 \<or> 500 \<le> status resp)"
  then show "makeApiRequest_loop env options 5 attempt w =
          makeApiRequest_loop env options 5 (attempt + 1) (sleep (RETRY_DELAYS ! attempt) w1)"
    by (elim conjE) (rule makeApiRequest_loop_retry_status)
next
  fix env :: "'e env" and options and attempt :: nat and w e w1
  assume "attempt < 4 \<and> fetch env (fetchOptions options) w = (Inl e, w1)"
  then show "makeApiRequest_loop env options 5 attempt w =
          makeApiRequest_loop env options 5 (attempt + 1) (sleep (RETRY_DELAYS ! attempt) w1)"
    by (elim conjE) (rule makeApiRequest_loop_retry_network)
next
  fix env :: "'e env" and options w e w1
  assume "fetch env (fetchOptions options) w = (Inl e, w1)"
  then show "makeApiRequest_loop env options 5 4 w = (Inl e, w1)"
    by (rule makeApiRequest_loop_last_network)
next
  fix env :: "'e env" and options and attempt :: nat and w resp w1
  assume "attempt < 5 \<and> fetch env (fetchOptions options) w = (Inr resp, w1)
          \<and> status resp \<noteq> 429 \<and> status resp < 500"
  then show "makeApiRequest_loop env options 5 attempt w = (Inr resp, w1)"
    by (elim conjE) (rule makeApiRequest_loop_return)
next
  fix env :: "'e env" and options w
  show "makeApiRequest_loop env options 5 5 w = (Inl (Error ''Max retries exceeded''), w)"
    by (rule makeApiRequest_loop_exhausted)
next
  fix env :: "'e env" and apiUrl apiKey w
  show "snd (checkActiveSession env apiUrl apiKey w) =
          snd (makeApiRequest env
             \<lparr>url = apiUrl @ ''/api/scraper/queue/current-session'', http_method = ''GET'', api_key = apiKey,
                content_type_json = False, body = NoBody, agent = False\<rparr> 5 w)"
    by (rule checkActiveSession_through_makeApiRequest)
next
  fix env :: "'e env" and apiUrl apiKey w
  show "snd (getNextRoleLocation env apiUrl apiKey w) =
          snd (makeApiRequest env
             \<lparr>url = apiUrl @ ''/api/scraper/queue/next-role-location'', http_method = ''GET'', api_key = apiKey,
                content_type_json = False, body = NoBody, agent = False\<rparr> 5 w)"
    by (rule getNextRoleLocation_through_makeApiRequest)
next
  fix env :: "'e env" and apiUrl apiKey sessionId platform jobs st errorMessage w
  show "snd (submitJobs env apiUrl apiKey sessionId platform jobs st errorMessage w) =
          snd (makeApiRequest env
             \<lparr>url = apiUrl @ ''/api/scraper/queue/jobs'', http_method = ''POST'', api_key = apiKey,
                content_type_json = True, body = submit_body sessionId platform jobs st errorMessage, agent = False\<rparr> 5 w)"
    by (rule submitJobs_through_makeApiRequest)
next
  fix env :: "'e env" and apiUrl apiKey sessionId w
  show "snd (completeSession env apiUrl apiKey sessionId w) =
          snd (makeApiRequest env
             \<lparr>url = apiUrl @ ''/api/scraper/queue/complete'', http_method = ''POST'', api_key = apiKey,
                content_type_json = True, body = CompleteBody sessionId, agent = False\<rparr> 5 w)"
    by (rule completeSession_through_makeApiRequest)
next
  fix env :: "'e env" and client platform msg w
  show "trace (reportSuccess env client platform msg w) =
          trace w @
          (case activeCredentials w platform of
             None \<Rightarrow> []
           | Some credential \<Rightarrow>
               [Fetch (client_request client
                         (''/api/scraper-credentials/queue/'' @ credential_id credential @ ''/success'')
                         ''POST'' (SuccessBody (if msg \<noteq> [] then Some msg else None)))])"
    by (rule reportSuccess_one_fetch)
next
  fix env :: "'e env" and client platform errorMessage cooldownMinutes w
  show "trace (reportFailure env client platform errorMessage cooldownMinutes w) =
          trace w @
          (case activeCredentials w platform of
             None \<Rightarrow> []
           | Some credential \<Rightarrow>
               [Fetch (client_request client
                         (''/api/scraper-credentials/queue/'' @ credential_id credential @ ''/failure'')
                         ''POST'' (FailureBody errorMessage cooldownMinutes))])"
    by (rule reportFailure_one_fetch)
next
  fix env :: "'e env" and client platform w
  show "trace (releaseCredential env client platform w) =
          trace w @
          (case activeCredentials w platform of
             None \<Rightarrow> []
           | Some credential \<Rightarrow>
               [Fetch (client_request client
                         (''/api/scraper-credentials/queue/'' @ credential_id credential @ ''/release'')
                         ''POST'' NoBody)])"
    by (rule releaseCredential_one_fetch)
qed (simp_all add: four_500_then_200_run always_500_run network_down_run busy_then_ok_run)

theorem makeApiRequest_retry_schedule_witness:
  "(\<exists>evs. trace (snd (makeApiRequest four_500_then_200 ping 5 w0)) = trace w0 @ evs
      \<and> length (fetches_of evs) = 5
      \<and> delays_of evs = take 4 RETRY_DELAYS)
   \<and> makeApiRequest_loop always_500 ping 5 0 w0 =
       makeApiRequest_loop always_500 ping 5 1
         (sleep 1000 (snd (fetch always_500 (fetchOptions ping) w0)))"
proof -
  from makeApiRequest_retry_schedule[THEN conjunct1, rule_format,
      of four_500_then_200 ping w0 "fst (makeApiRequest four_500_then_200 ping 5 w0)"
         "snd (makeApiRequest four_500_then_200 ping 5 w0)"]
  obtain evs where
    t: "trace (snd (makeApiRequest four_500_then_200 ping 5 w0)) = trace w0 @ evs"
    and d: "delays_of evs = take (length (delays_of evs)) RETRY_DELAYS"
    by auto
  from t have "evs = trace (snd (makeApiRequest four_500_then_200 ping 5 w0))"
    by (simp add: w0_def)
  with four_500_then_200_run have "length (fetches_of evs) = 5" "length (delays_of evs) = 4"
    by simp_all
  with t d have first: "\<exists>evs. trace (snd (makeApiRequest four_500_then_200 ping 5 w0)) = trace w0 @ evs
      \<and> length (fetches_of evs) = 5 \<and> delays_of evs = take 4 RETRY_DELAYS"
    by auto
  let ?resp = "\<lparr>status = 500, statusText = ''Internal Server Error'', json_body = Some JOther\<rparr>"
  have a: "(0::nat) < 5" by simp
  have f: "fetch always_500 (fetchOptions ping) w0 =
             (Inr ?resp, snd (fetch always_500 (fetchOptions ping) w0))"
    by (simp add: always_500_def scenario_simps)
  have st: "status ?resp = 429 \<or> 500 \<le> status ?resp" by simp
  from makeApiRequest_retry_schedule[THEN conjunct2, THEN conjunct2, THEN conjunct2,
      THEN conjunct2, THEN conjunct2, THEN conjunct2, THEN conjunct2, THEN conjunct1,
      rule_format, OF conjI[OF a conjI[OF f st]]]
  have "makeApiRequest_loop always_500 ping 5 0 w0 =
          makeApiRequest_loop always_500 ping 5 (0 + 1)
            (sleep (RETRY_DELAYS ! 0) (snd (fetch always_500 (fetchOptions ping) w0)))" .
  then have second: "makeApiRequest_loop always_500 ping 5 0 w0 =
       makeApiRequest_loop always_500 ping 5 1
         (sleep 1000 (snd (fetch always_500 (fetchOptions ping) w0)))"
    by (simp add: RETRY_DELAYS_def)
  from first second show ?thesis by blast
qed

section \<open>The orchestrator: properties\<close>

lemma only_fetches_platform_ops_nil:
  "\<forall>ev \<in> set evs. ev = Fetch q \<or> (\<exists>d. ev = Delay d) \<Longrightarrow> platform_ops [Fetch q] = [] \<Longrightarrow>
   platform_ops evs = []"
  by (induction evs) (auto split: request_body.splits)

lemma only_fetches_completions_nil:
  "\<forall>ev \<in> set evs. ev = Fetch q \<or> (\<exists>d. ev = Delay d) \<Longrightarrow> completions_of [Fetch q] = [] \<Longrightarrow>
   completions_of evs = []"
  by (induction evs) (auto split: request_body.splits)

lemma only_fetches_set:
  "\<forall>ev \<in> set evs. ev = Fetch q \<or> (\<exists>d. ev = Delay d) \<Longrightarrow> set (fetches_of evs) \<subseteq> {q}"
  by (induction evs) auto

lemma fetchOptions_fields [simp]:
  "body (fetchOptions options) = body options" "url (fetchOptions options) = url options"
  by (simp_all add: fetchOptions_def)

lemma checkActiveSession_events:
  assumes "checkActiveSession env apiUrl apiKey w = (r, w1)"
  shows "\<exists>evs. trace w1 = trace w @ evs
      \<and> (\<forall>req \<in> set (fetches_of evs). url req = apiUrl @ ''/api/scraper/queue/current-session'')
      \<and> platform_ops evs = [] \<and> completions_of evs = []"
proof -
  let ?options = "\<lparr>url = apiUrl @ ''/api/scraper/queue/current-session'', http_method = ''GET'',
              api_key = apiKey, content_type_json = False, body = NoBody, agent = False\<rparr>"
  obtain r0 w' where m: "makeApiRequest env ?options 5 w = (r0, w')"
    by (cases "makeApiRequest env ?options 5 w")
  with assms have "w1 = w'"
    by (auto simp: checkActiveSession_def split: sum.splits if_splits)
  moreover from makeApiRequest_events[OF m] obtain evs where
    t: "trace w' = trace w @ evs" and a: "api_run ?options 5 0 r0 evs" by blast
  from a have shape: "\<forall>ev \<in> set evs. ev = Fetch (fetchOptions ?options) \<or> (\<exists>d. ev = Delay d)"
    by (simp add: api_run_def)
  have "platform_ops evs = []"
    by (rule only_fetches_platform_ops_nil[OF shape]) simp
  moreover have "completions_of evs = []"
    by (rule only_fetches_completions_nil[OF shape]) simp
  moreover from only_fetches_set[OF shape]
  have "\<forall>req \<in> set (fetches_of evs). url req = apiUrl @ ''/api/scraper/queue/current-session''"
    by auto
  ultimately show ?thesis using t by blast
qed

lemmas run_simps =
  runBlacklightQueue_def blacklightConfigured_def checkActiveSession_def getNextRoleLocation_def
  submitJobs_def completeSession_def ok_def response_json_def failed_message_def backend_def




lemma nqt_refl [simp]: "no_queue_traffic w w"
  by (simp add: no_queue_traffic_def)

lemma nqt_trans: "no_queue_traffic w w1 \<Longrightarrow> no_queue_traffic w1 w2 \<Longrightarrow> no_queue_traffic w w2"
  by (auto simp: no_queue_traffic_def)

lemma nqt_same_trace:
  "trace w' = trace w \<and> isProcessingQueue w' = isProcessingQueue w \<Longrightarrow> no_queue_traffic w w'"
  by (simp add: no_queue_traffic_def)

lemma nqt_sleep [simp]: "no_queue_traffic w (sleep d w)"
  by (simp add: no_queue_traffic_def sleep_def)

lemma nqt_outside: "outside f w = (r, w') \<Longrightarrow> no_queue_traffic w w'"
  by (auto simp: outside_def no_queue_traffic_def split: prod.splits)

lemma nqt_fetch:
  "fetch env req w = (r, w') \<Longrightarrow> platform_ops [Fetch req] = [] \<Longrightarrow>
   completions_of [Fetch req] = [] \<Longrightarrow> no_queue_traffic w w'"
  by (auto simp: no_queue_traffic_def fetch_def split: prod.splits)

lemma client_request_body [simp]: "body (client_request client path meth b) = b"
  by (simp add: client_request_def)

lemma nqt_getCredential:
  assumes "getCredential env client platform sessionId w = (r, w')"
  shows "no_queue_traffic w w'"
proof -
  let ?req = "client_request client
                (''/api/scraper-credentials/queue/'' @ platform @ ''/next'' @
                   (if sessionId \<noteq> [] then ''?session_id='' @ sessionId else []))
                ''GET'' NoBody"
  obtain out w1 where f: "fetch env ?req w = (out, w1)" by (cases "fetch env ?req w")
  have q: "no_queue_traffic w w1" by (rule nqt_fetch[OF f]) simp_all
  from assms f have "trace w' = trace w1 \<and> isProcessingQueue w' = isProcessingQueue w1"
    by (auto simp: getCredential_def split: sum.splits if_splits option.splits json.splits)
  then have "no_queue_traffic w1 w'" by (rule nqt_same_trace)
  with q show ?thesis by (rule nqt_trans)
qed

lemma nqt_report:
  assumes "b \<noteq> NoBody \<longrightarrow> (\<exists>m. b = SuccessBody m) \<or> (\<exists>m c. b = FailureBody m c)"
  shows "no_queue_traffic w (report env client platform endpoint b w)"
proof (cases "activeCredentials w platform")
  case None
  then show ?thesis by (simp add: report_def)
next
  case (Some credential)
  let ?req = "client_request client
                     (''/api/scraper-credentials/queue/'' @ credential_id credential @ endpoint)
                     ''POST'' b"
  obtain out w1 where f: "fetch env ?req w = (out, w1)" by (cases "fetch env ?req w")
  have q: "no_queue_traffic w w1" using assms by (intro nqt_fetch[OF f]) (auto split: request_body.splits)
  from Some f have "trace (report env client platform endpoint b w) = trace w1
      \<and> isProcessingQueue (report env client platform endpoint b w) = isProcessingQueue w1"
    by (auto simp: report_def split: sum.splits if_splits option.splits json.splits)
  then have "no_queue_traffic w1 (report env client platform endpoint b w)" by (rule nqt_same_trace)
  with q show ?thesis by (rule nqt_trans)
qed

lemma nqt_reportSuccess [simp]: "no_queue_traffic w (reportSuccess env client platform msg w)"
  unfolding reportSuccess_def by (rule nqt_report) simp

lemma nqt_reportFailure [simp]: "no_queue_traffic w (reportFailure env client platform msg c w)"
  unfolding reportFailure_def by (rule nqt_report) simp

lemma nqt_waitForCredential:
  "waitForCredential env client platform sessionId credRetry w = (r, w') \<Longrightarrow> no_queue_traffic w w'"
proof (induction env client platform sessionId credRetry w arbitrary: r w' rule: waitForCredential.induct)
  case (1 env client platform sessionId credRetry w)
  show ?case
  proof (cases "credRetry < maxCredentialRetries")
    case False
    with "1.prems" show ?thesis
      by (simp add: waitForCredential.simps[of env client platform sessionId credRetry w])
  next
    case True
    obtain out w1 where g: "getCredential env client platform sessionId w = (out, w1)"
      by (cases "getCredential env client platform sessionId w")
    note q1 = nqt_getCredential[OF g]
    show ?thesis
    proof (cases out)
      case (Inl e)
      with "1.prems" True g have "w' = w1"
        by (simp add: waitForCredential.simps[of env client platform sessionId credRetry w])
      with q1 show ?thesis by simp
    next
      case (Inr credential)
      show ?thesis
      proof (cases "credential = JNull")
        case False
        with "1.prems" True g Inr have "w' = w1"
          by (simp add: waitForCredential.simps[of env client platform sessionId credRetry w])
        with q1 show ?thesis by simp
      next
        case null: True
        let ?w2 = "if credRetry < maxCredentialRetries - 1 then sleep credentialRetryDelay w1 else w1"
        from "1.prems" True g Inr null
        have n: "waitForCredential env client platform sessionId (credRetry + 1) ?w2 = (r, w')"
          by (simp add: waitForCredential.simps[of env client platform sessionId credRetry w])
        from "1.IH"[OF True g[unfolded Inr, symmetric] refl _ n] null
        have "no_queue_traffic ?w2 w'" by simp
        moreover have "no_queue_traffic w1 ?w2" by simp
        ultimately show ?thesis using q1 by (blast intro: nqt_trans)
      qed
    qed
  qed
qed

lemma nqt_linkedin_catch [simp]: "no_queue_traffic w (linkedin_catch env client b e w)"
  by (simp add: linkedin_catch_def)

lemma nqt_techfetch_catch [simp]: "no_queue_traffic w (techfetch_catch env client b e w)"
  by (simp add: techfetch_catch_def)

lemma nqt_glassdoor_catch [simp]: "no_queue_traffic w (glassdoor_catch env client b e w)"
  by (simp add: glassdoor_catch_def)

lemma nqt_scrapeLinkedIn_loop:
  "scrapeLinkedIn_loop env client jobTitle loc sessionId attemptCount lastError w = (r, w') \<Longrightarrow>
   no_queue_traffic w w'"
proof (induction env client jobTitle loc sessionId attemptCount lastError w arbitrary: r w'
        rule: scrapeLinkedIn_loop.induct)
  case (1 env client jobTitle loc sessionId attemptCount lastError w)
  note unf = scrapeLinkedIn_loop.simps[of env client jobTitle loc sessionId attemptCount lastError w]
  show ?case
  proof (cases "attemptCount < maxAttempts")
    case False
    with "1.prems" show ?thesis by (simp add: unf)
  next
    case True
    obtain out w1 where g: "waitForCredential env client ''linkedin'' sessionId 0 w = (out, w1)"
      by (cases "waitForCredential env client ''linkedin'' sessionId 0 w")
    note q1 = nqt_waitForCredential[OF g]
    show ?thesis
    proof (cases out)
      case (Inl e)
      with "1.prems" True g have "w' = w1" by (simp add: unf)
      with q1 show ?thesis by simp
    next
      case (Inr credential)
      show ?thesis
      proof (cases "credential = JNull")
        case null: True
        with "1.prems" True g Inr have "w' = w1" by (simp add: unf)
        with q1 show ?thesis by simp
      next
        case False
        obtain b w2 where o: "outside (linkedinBrowser env credential jobTitle loc) w1 = (b, w2)"
          by (cases "outside (linkedinBrowser env credential jobTitle loc) w1")
        note q2 = nqt_outside[OF o]
        show ?thesis
        proof (cases b)
          case (Inr posts)
          with "1.prems" True g \<open>out = Inr credential\<close> False o
          have "w' = reportSuccess env client ''linkedin'' (scraped_message posts '' posts successfully'') w2"
            by (simp add: unf)
          then have "no_queue_traffic w2 w'" by simp
          with q1 q2 show ?thesis by (blast intro: nqt_trans)
        next
          case (Inl error)
          with "1.prems" True g \<open>out = Inr credential\<close> False o
          have n: "scrapeLinkedIn_loop env client jobTitle loc sessionId (attemptCount + 1) (Some error)
                  (linkedin_catch env client False error w2) = (r, w')"
            by (simp add: unf)
          from "1.IH"[OF True g[unfolded \<open>out = Inr credential\<close>, symmetric] refl False o[unfolded Inl, symmetric] refl n]
          have "no_queue_traffic (linkedin_catch env client False error w2) w'" .
          moreover have "no_queue_traffic w2 (linkedin_catch env client False error w2)" by simp
          ultimately show ?thesis using q1 q2 by (blast intro: nqt_trans)
        qed
      qed
    qed
  qed
qed

lemma nqt_scrapeTechFetch_loop:
  "scrapeTechFetch_loop env client jobTitle loc sessionId attemptCount lastError w = (r, w') \<Longrightarrow>
   no_queue_traffic w w'"
proof (induction env client jobTitle loc sessionId attemptCount lastError w arbitrary: r w'
        rule: scrapeTechFetch_loop.induct)
  case (1 env client jobTitle loc sessionId attemptCount lastError w)
  note unf = scrapeTechFetch_loop.simps[of env client jobTitle loc sessionId attemptCount lastError w]
  show ?case
  proof (cases "attemptCount < maxAttempts")
    case False
    with "1.prems" show ?thesis by (simp add: unf)
  next
    case True
    obtain out w1 where g: "waitForCredential env client ''techfetch'' sessionId 0 w = (out, w1)"
      by (cases "waitForCredential env client ''techfetch'' sessionId 0 w")
    note q1 = nqt_waitForCredential[OF g]
    show ?thesis
    proof (cases out)
      case (Inl e)
      with "1.prems" True g have "w' = w1" by (simp add: unf)
      with q1 show ?thesis by simp
    next
      case (Inr credential)
      show ?thesis
      proof (cases "credential = JNull")
        case null: True
        with "1.prems" True g Inr have "w' = w1" by (simp add: unf)
        with q1 show ?thesis by simp
      next
        case False
        obtain b w2 where o: "outside (techfetchBrowser env credential jobTitle loc) w1 = (b, w2)"
          by (cases "outside (techfetchBrowser env credential jobTitle loc) w1")
        note q2 = nqt_outside[OF o]
        show ?thesis
        proof (cases b)
          case (Done jobs)
          with "1.prems" True g \<open>out = Inr credential\<close> False o
          have "w' = reportSuccess env client ''techfetch'' (scraped_message jobs '' jobs successfully'') w2"
            by (simp add: unf)
          then have "no_queue_traffic w2 w'" by simp
          with q1 q2 show ?thesis by (blast intro: nqt_trans)
        next
          case (ThrewBeforeLogin error)
          with "1.prems" True g \<open>out = Inr credential\<close> False o
          have n: "scrapeTechFetch_loop env client jobTitle loc sessionId (attemptCount + 1) (Some error)
                  (techfetch_catch env client False error w2) = (r, w')"
            by (simp add: unf)
          from "1.IH"(1)[OF True g[unfolded \<open>out = Inr credential\<close>, symmetric] refl False
                 o[unfolded ThrewBeforeLogin, symmetric] refl n]
          have "no_queue_traffic (techfetch_catch env client False error w2) w'" .
          moreover have "no_queue_traffic w2 (techfetch_catch env client False error w2)" by simp
          ultimately show ?thesis using q1 q2 by (blast intro: nqt_trans)
        next
          case (ThrewAfterLogin error)
          with "1.prems" True g \<open>out = Inr credential\<close> False o
          have n: "scrapeTechFetch_loop env client jobTitle loc sessionId (attemptCount + 1) (Some error)
                  (techfetch_catch env client True error w2) = (r, w')"
            by (simp add: unf)
          from "1.IH"(2)[OF True g[unfolded \<open>out = Inr credential\<close>, symmetric] refl False
                 o[unfolded ThrewAfterLogin, symmetric] refl n]
          have "no_queue_traffic (techfetch_catch env client True error w2) w'" .
          moreover have "no_queue_traffic w2 (techfetch_catch env client True error w2)" by simp
          ultimately show ?thesis using q1 q2 by (blast intro: nqt_trans)
        qed
      qed
    qed
  qed
qed

lemma nqt_scrapeGlassdoor:
  assumes "scrapeGlassdoor env jobTitle loc sessionId w = (r, w')"
  shows "no_queue_traffic w w'"
proof (cases "getCredentialsAPIClient env")
  case (Inl e)
  with assms show ?thesis by (simp add: scrapeGlassdoor_def)
next
  case (Inr client)
  obtain out w1 where g: "getCredential env client ''glassdoor'' sessionId w = (out, w1)"
    by (cases "getCredential env client ''glassdoor'' sessionId w")
  note q1 = nqt_getCredential[OF g]
  show ?thesis
  proof (cases "\<exists>credential. out = Inr credential \<and> credential \<noteq> JNull")
    case False
    with assms Inr g have "w' = w1"
      by (auto simp: scrapeGlassdoor_def split: sum.splits)
    with q1 show ?thesis by simp
  next
    case True
    then obtain credential where c: "out = Inr credential" "credential \<noteq> JNull" by blast
    obtain l w2 where o1: "outside (glassdoorLaunch env credential) w1 = (l, w2)"
      by (cases "outside (glassdoorLaunch env credential) w1")
    note q2 = nqt_outside[OF o1]
    obtain b w3 where o2: "outside (glassdoorBrowser env credential jobTitle loc) w2 = (b, w3)"
      by (cases "outside (glassdoorBrowser env credential jobTitle loc) w2")
    note q3 = nqt_outside[OF o2]
    from assms Inr g c o1 o2 have "w' = w1 \<or> w' = w2 \<or> no_queue_traffic w3 w'"
      by (auto simp: scrapeGlassdoor_def split: sum.splits phased.splits)
    with q1 q2 q3 show ?thesis by (blast intro: nqt_trans)
  qed
qed

lemma nqt_SCRAPERS:
  assumes "SCRAPERS env platformName = Some scraper" and "scraper jobTitle loc sessionId w = (r, w')"
  shows "no_queue_traffic w w'"
proof -
  from assms(1) have "scraper = scrapeMonster env \<or> scraper = scrapeDice env
      \<or> scraper = scrapeTechFetch env \<or> scraper = scrapeLinkedIn env \<or> scraper = scrapeGlassdoor env
      \<or> (\<exists>error. scraper = (\<lambda>jobTitle loc sessionId w. (Inl error, w)))"
    by (auto simp: SCRAPERS_def split: if_splits option.splits)
  then show ?thesis
  proof (elim disjE)
    assume "\<exists>error. scraper = (\<lambda>jobTitle loc sessionId w. (Inl error, w))"
    with assms(2) show ?thesis by auto
  next
    assume "scraper = scrapeMonster env"
    with assms(2) show ?thesis by (auto simp: scrapeMonster_def intro: nqt_outside)
  next
    assume "scraper = scrapeDice env"
    with assms(2) show ?thesis by (auto simp: scrapeDice_def intro: nqt_outside)
  next
    assume "scraper = scrapeTechFetch env"
    with assms(2) show ?thesis
      by (auto simp: scrapeTechFetch_def split: sum.splits intro: nqt_scrapeTechFetch_loop)
  next
    assume "scraper = scrapeLinkedIn env"
    with assms(2) show ?thesis
      by (auto simp: scrapeLinkedIn_def split: sum.splits intro: nqt_scrapeLinkedIn_loop)
  next
    assume "scraper = scrapeGlassdoor env"
    with assms(2) show ?thesis by (auto intro: nqt_scrapeGlassdoor)
  qed
qed

text \<open>One submission: the same request one to five times, for this platform.\<close>

lemma only_fetches_platform_ops_submit:
  "\<forall>ev \<in> set evs. ev = Fetch q \<or> (\<exists>d. ev = Delay d) \<Longrightarrow> body q = SubmitBody s p jobs st \<Longrightarrow>
   platform_ops evs = replicate (length (fetches_of evs)) p"
  by (induction evs) auto

lemma submitJobs_events:
  assumes "submitJobs env apiUrl apiKey sessionId platform jobs st errorMessage w = (r, w')"
  shows "\<exists>evs n. trace w' = trace w @ evs \<and> platform_ops evs = replicate (Suc n) platform
           \<and> completions_of evs = []"
proof -
  let ?options = "\<lparr>url = apiUrl @ ''/api/scraper/queue/jobs'', http_method = ''POST'',
              api_key = apiKey, content_type_json = True,
              body = submit_body sessionId platform jobs st errorMessage, agent = False\<rparr>"
  obtain r0 w1 where m: "makeApiRequest env ?options 5 w = (r0, w1)"
    by (cases "makeApiRequest env ?options 5 w")
  with assms have "w' = w1"
    by (auto simp: submitJobs_def split: sum.splits if_splits)
  moreover from makeApiRequest_events[OF m] obtain evs where
    t: "trace w1 = trace w @ evs" and a: "api_run ?options 5 0 r0 evs" by blast
  from a have shape: "\<forall>ev \<in> set evs. ev = Fetch (fetchOptions ?options) \<or> (\<exists>d. ev = Delay d)"
    by (simp add: api_run_def)
  from a obtain n where n: "length (fetches_of evs) = Suc n"
    by (cases "length (fetches_of evs)") (auto simp: api_run_def)
  have "platform_ops evs = replicate (length (fetches_of evs)) platform"
    by (rule only_fetches_platform_ops_submit[OF shape]) (simp add: submit_body_def)
  moreover have "completions_of evs = []"
    by (rule only_fetches_completions_nil[OF shape]) (simp add: submit_body_def)
  ultimately show ?thesis using t n by auto
qed

lemma in_list_order_Nil [simp]: "in_list_order names []"
  by (simp add: in_list_order_def)

lemma in_list_order_Cons:
  "seg \<noteq> [] \<Longrightarrow> set seg = {n} \<Longrightarrow> in_list_order names segs \<Longrightarrow>
   in_list_order (n # names) (seg # segs)"
  by (auto simp: in_list_order_def nth_Cons split: nat.splits)

lemma scrape_and_submit_events:
  assumes "SCRAPERS env platformName = Some scraper"
    and "scrape_and_submit env apiUrl apiKey queueItem platformName scraper res w = (r, w')"
  shows "\<exists>evs n. trace w' = trace w @ evs \<and> platform_ops evs = replicate (Suc n) platformName
           \<and> completions_of evs = []"
proof -
  let ?w0 = "w\<lparr>trace := trace w @
                  [Scrape platformName (name (role queueItem)) (location queueItem)
                     (session_id queueItem)]\<rparr>"
  obtain out w1 where s: "scraper (name (role queueItem)) (location queueItem) (session_id queueItem) ?w0 = (out, w1)"
    by (cases "scraper (name (role queueItem)) (location queueItem) (session_id queueItem) ?w0")
  from nqt_SCRAPERS[OF assms(1) s] obtain evs1 where
    t1: "trace w1 = trace ?w0 @ evs1" "platform_ops evs1 = []" "completions_of evs1 = []"
    by (auto simp: no_queue_traffic_def)
  show ?thesis
  proof (cases out)
    case (Inl e)
    with assms(2) s have "w' = w1" by (simp add: scrape_and_submit_def)
    with t1 have "trace w' = trace w @ (Scrape platformName (name (role queueItem)) (location queueItem)
                     (session_id queueItem) # evs1)" by simp
    moreover have "platform_ops (Scrape platformName (name (role queueItem)) (location queueItem)
                     (session_id queueItem) # evs1) = replicate (Suc 0) platformName"
      using t1 by simp
    moreover have "completions_of (Scrape platformName (name (role queueItem)) (location queueItem)
                     (session_id queueItem) # evs1) = []"
      using t1 by simp
    ultimately show ?thesis by blast
  next
    case (Inr jobs)
    let ?sub = "submitJobs env apiUrl apiKey (session_id queueItem) platformName
                  (map (\<lambda>job. formatJobForBlacklight env job platformName) jobs) ''success'' None w1"
    obtain r2 w2 where sj: "?sub = (r2, w2)" by (cases ?sub)
    from submitJobs_events[OF sj] obtain evs2 n where
      t2: "trace w2 = trace w1 @ evs2" "platform_ops evs2 = replicate (Suc n) platformName"
          "completions_of evs2 = []" by blast
    from assms(2) s Inr sj have "w' = w2"
      by (auto simp: scrape_and_submit_def split: sum.splits json.splits)
    with t1 t2 have "trace w' = trace w @ (Scrape platformName (name (role queueItem)) (location queueItem)
                     (session_id queueItem) # evs1 @ evs2)" by simp
    moreover have "platform_ops (Scrape platformName (name (role queueItem)) (location queueItem)
                     (session_id queueItem) # evs1 @ evs2) = replicate (Suc (Suc n)) platformName"
      using t1 t2 by simp
    moreover have "completions_of (Scrape platformName (name (role queueItem)) (location queueItem)
                     (session_id queueItem) # evs1 @ evs2) = []"
      using t1 t2 by simp
    ultimately show ?thesis by blast
  qed
qed

lemma process_platform_events:
  assumes "process_platform env apiUrl apiKey queueItem platformInfo res w = (r, w')"
  shows "\<exists>evs n. trace w' = trace w @ evs
           \<and> platform_ops evs = replicate (Suc n) (toLowerCase env (platform_name platformInfo))
           \<and> completions_of evs = []"
proof (cases "SCRAPERS env (toLowerCase env (platform_name platformInfo))")
  case None
  let ?sub = "submitJobs env apiUrl apiKey (session_id queueItem) (toLowerCase env (platform_name platformInfo)) [] ''failed''
                  (Some (''Platform not supported: '' @ toLowerCase env (platform_name platformInfo))) w"
  obtain r1 w1 where sj: "?sub = (r1, w1)" by (cases ?sub)
  from assms None sj have "w' = w1"
    by (auto simp: process_platform_def Let_def split: sum.splits)
  with submitJobs_events[OF sj] show ?thesis by simp
next
  case (Some scraper)
  let ?name = "toLowerCase env (platform_name platformInfo)"
  obtain r1 w1 where ss: "scrape_and_submit env apiUrl apiKey queueItem ?name scraper res w = (r1, w1)"
    by (cases "scrape_and_submit env apiUrl apiKey queueItem ?name scraper res w")
  from scrape_and_submit_events[OF Some ss] obtain evs1 n where
    t1: "trace w1 = trace w @ evs1" "platform_ops evs1 = replicate (Suc n) ?name"
        "completions_of evs1 = []" by blast
  show ?thesis
  proof (cases r1)
    case (Inr res')
    with assms Some ss have "w' = w1" by (simp add: process_platform_def Let_def)
    with t1 show ?thesis by blast
  next
    case (Inl error)
    let ?sub = "submitJobs env apiUrl apiKey (session_id queueItem) ?name [] ''failed''
                       (Some (message error)) w1"
    obtain r2 w2 where sj: "?sub = (r2, w2)" by (cases ?sub)
    from submitJobs_events[OF sj] obtain evs2 m where
      t2: "trace w2 = trace w1 @ evs2" "platform_ops evs2 = replicate (Suc m) ?name"
          "completions_of evs2 = []" by blast
    from assms Some ss Inl sj have "w' = w2" by (simp add: process_platform_def Let_def)
    with t1 t2 have "trace w' = trace w @ (evs1 @ evs2)" by simp
    moreover have "platform_ops (evs1 @ evs2) = replicate (Suc (Suc (n + m))) ?name"
      using t1 t2 by (simp add: replicate_add[symmetric] del: replicate_add replicate_Suc)
    moreover have "completions_of (evs1 @ evs2) = []" using t1 t2 by simp
    ultimately show ?thesis by blast
  qed
qed

lemma platform_loop_events:
  "platform_loop env apiUrl apiKey queueItem ps res w = (r, w') \<Longrightarrow>
   \<exists>evs segs. trace w' = trace w @ evs \<and> platform_ops evs = concat segs
      \<and> completions_of evs = []
      \<and> in_list_order (map (\<lambda>p. toLowerCase env (platform_name p)) ps) segs
      \<and> ((\<exists>res'. r = Inr res') \<longrightarrow> length segs = length ps)"
proof (induction ps arbitrary: res w r w')
  case Nil
  then have "trace w' = trace w @ []" "r = Inr res" by auto
  then show ?case by (intro exI[of _ "[]"]) simp
next
  case (Cons p ps)
  obtain r1 w1 where pp: "process_platform env apiUrl apiKey queueItem p res w = (r1, w1)"
    by (cases "process_platform env apiUrl apiKey queueItem p res w")
  from process_platform_events[OF pp] obtain evs1 n where
    t1: "trace w1 = trace w @ evs1"
        "platform_ops evs1 = replicate (Suc n) (toLowerCase env (platform_name p))"
        "completions_of evs1 = []" by blast
  let ?seg = "replicate (Suc n) (toLowerCase env (platform_name p))"
  have seg: "?seg \<noteq> []" "set ?seg = {toLowerCase env (platform_name p)}" by auto
  show ?case
  proof (cases r1)
    case (Inl e)
    with Cons.prems pp have "w' = w1" "r = Inl e" by auto
    moreover have "in_list_order (map (\<lambda>p. toLowerCase env (platform_name p)) (p # ps)) [?seg]"
      using in_list_order_Cons[OF seg in_list_order_Nil] by simp
    ultimately show ?thesis using t1
      by (intro exI[of _ evs1] exI[of _ "[?seg]"]) simp
  next
    case (Inr res1)
    with Cons.prems pp have n: "platform_loop env apiUrl apiKey queueItem ps res1 w1 = (r, w')" by simp
    from Cons.IH[OF n] obtain evs2 segs where
      t2: "trace w' = trace w1 @ evs2" "platform_ops evs2 = concat segs" "completions_of evs2 = []"
          "in_list_order (map (\<lambda>p. toLowerCase env (platform_name p)) ps) segs"
          "(\<exists>res'. r = Inr res') \<longrightarrow> length segs = length ps" by blast
    have "in_list_order (map (\<lambda>p. toLowerCase env (platform_name p)) (p # ps)) (?seg # segs)"
      using in_list_order_Cons[OF seg t2(4)] by simp
    with t1 t2 show ?thesis
      by (intro exI[of _ "evs1 @ evs2"] exI[of _ "?seg # segs"]) simp
  qed
qed

lemma makeApiRequest_quiet:
  assumes "makeApiRequest env options n w = (r, w')"
    and "platform_ops [Fetch options] = []" and "completions_of [Fetch options] = []"
  shows "no_queue_traffic w w'"
proof -
  from makeApiRequest_events[OF assms(1)] obtain evs where
    t: "trace w' = trace w @ evs" and a: "api_run options n 0 r evs" by blast
  from a have shape: "\<forall>ev \<in> set evs. ev = Fetch (fetchOptions options) \<or> (\<exists>d. ev = Delay d)"
    by (simp add: api_run_def)
  have "platform_ops evs = []"
    using assms(2) by (intro only_fetches_platform_ops_nil[OF shape]) simp
  moreover have "completions_of evs = []"
    using assms(3) by (intro only_fetches_completions_nil[OF shape]) simp
  ultimately show ?thesis using t makeApiRequest_flag[OF assms(1)]
    by (auto simp: no_queue_traffic_def)
qed

lemma checkActiveSession_flag:
  "checkActiveSession env apiUrl apiKey w = (r, w') \<Longrightarrow> isProcessingQueue w' = isProcessingQueue w"
  by (auto simp: checkActiveSession_def split: prod.splits sum.splits if_splits
           dest: makeApiRequest_flag)

lemma nqt_checkActiveSession:
  "checkActiveSession env apiUrl apiKey w = (r, w') \<Longrightarrow> no_queue_traffic w w'"
  using checkActiveSession_events[of env apiUrl apiKey w r w']
    checkActiveSession_flag[of env apiUrl apiKey w r w']
  by (auto simp: no_queue_traffic_def)

lemma nqt_getNextRoleLocation:
  assumes "getNextRoleLocation env apiUrl apiKey w = (r, w')"
  shows "no_queue_traffic w w'"
proof -
  let ?options = "\<lparr>url = apiUrl @ ''/api/scraper/queue/next-role-location'', http_method = ''GET'',
              api_key = apiKey, content_type_json = False, body = NoBody, agent = False\<rparr>"
  obtain r0 w1 where m: "makeApiRequest env ?options 5 w = (r0, w1)"
    by (cases "makeApiRequest env ?options 5 w")
  with assms have "w' = w1"
    by (auto simp: getNextRoleLocation_def split: sum.splits if_splits)
  with makeApiRequest_quiet[OF m] show ?thesis by simp
qed

lemma complete_step_events:
  assumes "complete_step env apiUrl apiKey queueItem res w = (res', w')"
  shows "\<exists>evs n. trace w' = trace w @ evs \<and> platform_ops evs = []
           \<and> completions_of evs = replicate (Suc n) (session_id queueItem)"
proof -
  let ?options = "\<lparr>url = apiUrl @ ''/api/scraper/queue/complete'', http_method = ''POST'',
              api_key = apiKey, content_type_json = True,
              body = CompleteBody (session_id queueItem), agent = False\<rparr>"
  obtain r0 w1 where m: "makeApiRequest env ?options 5 w = (r0, w1)"
    by (cases "makeApiRequest env ?options 5 w")
  with assms have "w' = w1"
    by (auto simp: complete_step_def completeSession_def split: sum.splits if_splits json.splits prod.splits)
  moreover from makeApiRequest_events[OF m] obtain evs where
    t: "trace w1 = trace w @ evs" and a: "api_run ?options 5 0 r0 evs" by blast
  from a have shape: "\<forall>ev \<in> set evs. ev = Fetch (fetchOptions ?options) \<or> (\<exists>d. ev = Delay d)"
    by (simp add: api_run_def)
  from a obtain n where n: "length (fetches_of evs) = Suc n"
    by (cases "length (fetches_of evs)") (auto simp: api_run_def)
  have "platform_ops evs = []"
    by (rule only_fetches_platform_ops_nil[OF shape]) simp
  moreover have "completions_of evs = replicate (length (fetches_of evs)) (session_id queueItem)"
    using shape by (induction evs) auto
  ultimately show ?thesis using t n by auto
qed

text \<open>
  C5 (amended): when the request for the next queue item is answered with 409,
  getNextRoleLocation throws "Scraper already has an active session" and the exception
  leaves runBlacklightQueue: the handler of /scrape-queue answers 500 with that message.
  The run has scraped, submitted and completed nothing.
\<close>

theorem next_role_location_409_throws:
  assumes "blacklight env = Some (apiUrl, apiKey)" and "apiUrl \<noteq> []" and "apiKey \<noteq> []"
    and "checkActiveSession env apiUrl apiKey w = (Inr sessionCheck, w1)"
    and "session_is_active sessionCheck = Inr False"
    and "makeApiRequest env
           \<lparr>url = apiUrl @ ''/api/scraper/queue/next-role-location'', http_method = ''GET'',
            api_key = apiKey, content_type_json = False, body = NoBody, agent = False\<rparr> 5 w1 =
         (Inr response, w2)"
    and "status response = 409"
  shows "runBlacklightQueue env w = (Inl (Error ''Scraper already has an active session''), w2)
       \<and> post_scrape_queue env w =
           (\<lparr>reply_status = 500, reply_success = False,
             reply_error = Some ''Scraper already has an active session'',
             reply_message = None, reply_results = None\<rparr>, w2)
       \<and> (\<exists>evs. trace w2 = trace w @ evs \<and> platform_ops evs = [] \<and> completions_of evs = [])"
proof -
  have g: "getNextRoleLocation env apiUrl apiKey w1 =
             (Inl (Error ''Scraper already has an active session''), w2)"
    using assms(6,7) by (simp add: getNextRoleLocation_def)
  have run: "runBlacklightQueue env w = (Inl (Error ''Scraper already has an active session''), w2)"
    using assms(1-5) g by (simp add: runBlacklightQueue_def blacklightConfigured_def)
  then have "post_scrape_queue env w =
           (\<lparr>reply_status = 500, reply_success = False,
             reply_error = Some ''Scraper already has an active session'',
             reply_message = None, reply_results = None\<rparr>, w2)"
    by (simp add: post_scrape_queue_def)
  moreover from nqt_trans[OF nqt_checkActiveSession[OF assms(4)] nqt_getNextRoleLocation[OF g]]
  have "\<exists>evs. trace w2 = trace w @ evs \<and> platform_ops evs = [] \<and> completions_of evs = []"
    by (simp add: no_queue_traffic_def)
  ultimately show ?thesis using run by blast
qed

lemmas world_simps = scenario_simps run_simps

theorem next_role_location_409_throws_witness:
  "runBlacklightQueue conflict_env w0 =
     (Inl (Error ''Scraper already has an active session''), snd (runBlacklightQueue conflict_env w0))
   \<and> reply_status (fst (post_scrape_queue conflict_env w0)) = 500
   \<and> platform_ops (trace (snd (runBlacklightQueue conflict_env w0))) = []
   \<and> completions_of (trace (snd (runBlacklightQueue conflict_env w0))) = []"
proof -
  let ?w1 = "snd (checkActiveSession conflict_env ''http://backend'' ''key'' w0)"
  let ?next = "\<lparr>url = ''http://backend'' @ ''/api/scraper/queue/next-role-location'',
                http_method = ''GET'', api_key = ''key'', content_type_json = False,
                body = NoBody, agent = False\<rparr>"
  let ?w2 = "snd (makeApiRequest conflict_env ?next 5 ?w1)"
  have b: "blacklight conflict_env = Some (''http://backend'', ''key'')"
    by (simp add: conflict_env_def backend_def scripted_def quiet_env_def)
  have c: "checkActiveSession conflict_env ''http://backend'' ''key'' w0 = (Inr no_session, ?w1)"
    by (simp add: conflict_env_def no_session_def world_simps)
  have a: "session_is_active no_session = Inr False"
    by (simp add: no_session_def)
  have m: "makeApiRequest conflict_env ?next 5 ?w1 =
             (answer 409 ''Conflict'' (JError ''Scraper already has an active session''), ?w2)"
    by (simp add: conflict_env_def no_session_def world_simps)
  have s: "status \<lparr>status = 409, statusText = ''Conflict'',
                   json_body = Some (JError ''Scraper already has an active session'')\<rparr> = 409"
    by simp
  from next_role_location_409_throws[OF b _ _ c a m[unfolded answer_def] s]
  have run: "runBlacklightQueue conflict_env w0 =
               (Inl (Error ''Scraper already has an active session''), ?w2)"
    and post: "post_scrape_queue conflict_env w0 =
           (\<lparr>reply_status = 500, reply_success = False,
             reply_error = Some ''Scraper already has an active session'',
             reply_message = None, reply_results = None\<rparr>, ?w2)"
    and quiet: "\<exists>evs. trace ?w2 = trace w0 @ evs \<and> platform_ops evs = [] \<and> completions_of evs = []"
    by simp_all
  from quiet have q: "platform_ops (trace ?w2) = []" "completions_of (trace ?w2) = []"
    by (auto simp: w0_def)
  from run have w: "snd (runBlacklightQueue conflict_env w0) = ?w2" by simp
  from run post q show ?thesis unfolding w by simp
qed

text \<open>
  C5, as stated, fails: on a 409 from next-role-location the run does not return a
  conflict result, it throws; the handler answers 500, and 409 for an active session.
\<close>

theorem conflict_409_counterexample:
  "fst (runBlacklightQueue conflict_env w0) = Inl (Error ''Scraper already has an active session'')
   \<and> reply_status (fst (post_scrape_queue conflict_env w0)) = 500
   \<and> reply_status (fst (post_scrape_queue active_session_env w0)) = 409"
  by (simp add: conflict_env_def active_session_env_def no_session_def post_scrape_queue_def world_simps)

lemmas loop_simps =
  process_platform_def scrape_and_submit_def SCRAPERS_def inherited_def toLowerCase_def lower_char_def
  devops_def submit_body_def string_of_nat.simps digit_def complete_step_def initial_results_def
  record_failure_def record_success_def set_platform_def scrapeDice_def scrapeMonster_def outside_def Let_def

text \<open>
  C3 at the failing input: the queue item lists Indeed, which SCRAPERS does not hold, and
  dice; the backend answers 404 to the failure report for indeed. The error of submitJobs
  leaves the loop and the run: dice is never scraped nor submitted.
\<close>

theorem unsupported_platform_report_failure_escapes:
  "fst (runBlacklightQueue unsupported_env w0) = Inl (Error ''Failed to submit jobs: 404 Not Found'')
   \<and> platform_ops (trace (snd (runBlacklightQueue unsupported_env w0))) = [''indeed'']"
  by (simp add: unsupported_env_def no_session_def world_simps loop_simps)

text \<open>
  C4 at the same input: the run throws and sends no completion request.
\<close>

theorem unsupported_platform_run_skips_completion:
  "fst (runBlacklightQueue unsupported_env w0) = Inl (Error ''Failed to submit jobs: 404 Not Found'')
   \<and> completions_of (trace (snd (runBlacklightQueue unsupported_env w0))) = []"
  by (simp add: unsupported_env_def no_session_def world_simps loop_simps)

lemma normal_run: "platform_ops (trace (snd (runBlacklightQueue (normal_env [''Dice'', ''monster'']) w0))) = [''dice'', ''dice'', ''monster'', ''monster'']
  \<and> completions_of (trace (snd (runBlacklightQueue (normal_env [''Dice'', ''monster'']) w0))) = [''s1'']"
  by (simp add: normal_env_def no_session_def world_simps loop_simps)

lemma process_platform_supported:
  assumes "SCRAPERS env (toLowerCase env (platform_name platformInfo)) = Some scraper"
  shows "\<exists>res'. fst (process_platform env apiUrl apiKey queueItem platformInfo res w) = Inr res'"
  using assms by (auto simp: process_platform_def Let_def split: prod.splits sum.splits)

lemma platform_loop_supported:
  "\<forall>p \<in> set ps. SCRAPERS env (toLowerCase env (platform_name p)) \<noteq> None \<Longrightarrow>
   \<exists>res'. fst (platform_loop env apiUrl apiKey queueItem ps res w) = Inr res'"
proof (induction ps arbitrary: res w)
  case Nil
  then show ?case by simp
next
  case (Cons p ps)
  then obtain scraper where s: "SCRAPERS env (toLowerCase env (platform_name p)) = Some scraper" by auto
  from process_platform_supported[OF s, of apiUrl apiKey queueItem res w]
  obtain res1 w1 where "process_platform env apiUrl apiKey queueItem p res w = (Inr res1, w1)"
    by (cases "process_platform env apiUrl apiKey queueItem p res w") auto
  with Cons show ?case by simp
qed

text \<open>
  What holds of every run that fetched a queue item: the scrapes and submissions, read off
  the trace in the order they were issued, fall into consecutive groups, one for each
  platform of the list from its head on and in the order of the list, each group on the
  lower-cased name of its platform. The groups cover the whole list when the run returns,
  and when every listed platform has a scraper.
\<close>

lemma platform_groups_in_list_order:
  assumes "blacklight env = Some (apiUrl, apiKey)" and "apiUrl \<noteq> []" and "apiKey \<noteq> []"
    and "checkActiveSession env apiUrl apiKey w = (Inr sessionCheck, w1)"
    and "session_is_active sessionCheck = Inr False"
    and "getNextRoleLocation env apiUrl apiKey w1 = (Inr (JQueueItem queueItem), w2)"
    and "runBlacklightQueue env w = (r, w')"
  shows "\<exists>evs segs. trace w' = trace w @ evs \<and> platform_ops evs = concat segs
       \<and> in_list_order (map (\<lambda>p. toLowerCase env (platform_name p)) (platforms queueItem)) segs
       \<and> ((\<exists>x. r = Inr x) \<longrightarrow> length segs = length (platforms queueItem))
       \<and> ((\<forall>p \<in> set (platforms queueItem). SCRAPERS env (toLowerCase env (platform_name p)) \<noteq> None)
            \<longrightarrow> length segs = length (platforms queueItem))"
proof -
  let ?loop = "platform_loop env apiUrl apiKey queueItem (platforms queueItem)
                 (initial_results queueItem) w2"
  obtain r3 w3 where l: "?loop = (r3, w3)" by (cases ?loop)
  from nqt_trans[OF nqt_checkActiveSession[OF assms(4)] nqt_getNextRoleLocation[OF assms(6)]]
  obtain evs0 where t0: "trace w2 = trace w @ evs0" "platform_ops evs0 = []"
    by (auto simp: no_queue_traffic_def)
  from platform_loop_events[OF l] obtain evs1 segs where
    t1: "trace w3 = trace w2 @ evs1" "platform_ops evs1 = concat segs"
        "in_list_order (map (\<lambda>p. toLowerCase env (platform_name p)) (platforms queueItem)) segs"
        "(\<exists>res'. r3 = Inr res') \<longrightarrow> length segs = length (platforms queueItem)" by blast
  have full: "length segs = length (platforms queueItem)"
    if "\<forall>p \<in> set (platforms queueItem). SCRAPERS env (toLowerCase env (platform_name p)) \<noteq> None"
    using platform_loop_supported[OF that, of apiUrl apiKey queueItem "initial_results queueItem" w2] l t1(4)
    by simp
  have run: "runBlacklightQueue env w =
      (case r3 of Inl e \<Rightarrow> (Inl e, w3)
       | Inr res \<Rightarrow> (case complete_step env apiUrl apiKey queueItem res w3 of
                       (res', w4) \<Rightarrow> (Inr (Results res'), w4)))"
    using assms(1-6) l by (simp add: runBlacklightQueue_def blacklightConfigured_def split: sum.splits)
  show ?thesis
  proof (cases r3)
    case (Inl e)
    with run assms(7) have "w' = w3" "r = Inl e" by auto
    with t0 t1 full show ?thesis
      by (intro exI[of _ "evs0 @ evs1"] exI[of _ segs]) simp
  next
    case (Inr res)
    obtain res' w4 where c: "complete_step env apiUrl apiKey queueItem res w3 = (res', w4)"
      by (cases "complete_step env apiUrl apiKey queueItem res w3")
    from complete_step_events[OF c] obtain evs2 where
      t2: "trace w4 = trace w3 @ evs2" "platform_ops evs2 = []" by blast
    from run assms(7) Inr c have "w' = w4" by auto
    with t0 t1 t2 Inr full show ?thesis
      by (intro exI[of _ "evs0 @ evs1 @ evs2"] exI[of _ segs]) simp
  qed
qed

text \<open>
  C7 at the failing input: the list is Indeed, dice; SCRAPERS does not hold indeed, and
  the backend answers 404 to the failure report for it. The run asks for the session and for the queue item,
  sends that report, and ends there: dice, the second platform of the list, is neither
  scraped nor submitted, and the operations of the run are not those of the list. With a
  backend that accepts the report, the same list is processed to its end and in its
  order: the report for indeed, the scrape of dice and then its submission, the
  completion.
\<close>

theorem unsupported_platform_cuts_list_short:
  "map (\<lambda>p. toLowerCase unsupported_env (platform_name p)) (platforms (devops [''Indeed'', ''dice''])) =
     [''indeed'', ''dice'']
   \<and> fst (getNextRoleLocation unsupported_env ''http://backend'' ''key''
            (snd (checkActiveSession unsupported_env ''http://backend'' ''key'' w0))) =
       Inr (JQueueItem (devops [''Indeed'', ''dice'']))
   \<and> trace (snd (runBlacklightQueue unsupported_env w0)) =
       [Fetch (get_request ''/api/scraper/queue/current-session''),
        Fetch (get_request ''/api/scraper/queue/next-role-location''),
        Fetch (post_request ''/api/scraper/queue/jobs''
                 (SubmitBody ''s1'' ''indeed'' []
                    (Some (''failed'', Some ''Platform not supported: indeed''))))]
   \<and> trace (snd (runBlacklightQueue (normal_env [''Indeed'', ''dice'']) w0)) =
       [Fetch (get_request ''/api/scraper/queue/current-session''),
        Fetch (get_request ''/api/scraper/queue/next-role-location''),
        Fetch (post_request ''/api/scraper/queue/jobs''
                 (SubmitBody ''s1'' ''indeed'' []
                    (Some (''failed'', Some ''Platform not supported: indeed'')))),
        Scrape ''dice'' ''DevOps Engineer'' ''New York'' ''s1'',
        Fetch (post_request ''/api/scraper/queue/jobs'' (SubmitBody ''s1'' ''dice'' [] None)),
        Fetch (post_request ''/api/scraper/queue/complete'' (CompleteBody ''s1''))]"
  by (simp add: unsupported_env_def normal_env_def no_session_def world_simps loop_simps
        get_request_def post_request_def)

section \<open>The credential scrapers: properties\<close>

lemma getCredential_held:
  "getCredential env client platform sessionId w = (Inr credential, w') \<Longrightarrow> credential \<noteq> JNull \<Longrightarrow>
   activeCredentials w' = (activeCredentials w)(platform \<mapsto> credential)"
  by (auto simp: getCredential_def fetch_def
           split: prod.splits sum.splits if_splits option.splits json.splits)

lemma getCredential_trace:
  "getCredential env client platform sessionId w = (r, w') \<Longrightarrow>
   trace w' = trace w @ [Fetch (next_credential_request client platform sessionId)]"
  by (auto simp: getCredential_def next_credential_request_def
           split: prod.splits sum.splits if_splits option.splits json.splits dest: fetch_trace)

lemma waitForCredential_held:
  "waitForCredential env client platform sessionId credRetry w = (Inr credential, w') \<Longrightarrow>
   credential \<noteq> JNull \<Longrightarrow> activeCredentials w' platform = Some credential"
proof (induction env client platform sessionId credRetry w arbitrary: w'
        rule: waitForCredential.induct)
  case (1 env client platform sessionId credRetry w)
  note unf = waitForCredential.simps[of env client platform sessionId credRetry w]
  from "1.prems" have lt: "credRetry < maxCredentialRetries"
    by (auto simp: unf split: if_splits)
  obtain out w1 where g: "getCredential env client platform sessionId w = (out, w1)"
    by (cases "getCredential env client platform sessionId w")
  from "1.prems" lt g obtain c where out: "out = Inr c"
    by (cases out) (auto simp: unf)
  show ?case
  proof (cases "c = JNull")
    case False
    with "1.prems" lt g out have "w' = w1" "c = credential" by (auto simp: unf)
    with getCredential_held[OF g[unfolded out]] False show ?thesis by simp
  next
    case True
    let ?w2 = "if credRetry < maxCredentialRetries - 1 then sleep credentialRetryDelay w1 else w1"
    from "1.prems" lt g out True
    have n: "waitForCredential env client platform sessionId (credRetry + 1) ?w2 = (Inr credential, w')"
      by (simp add: unf)
    from "1.IH"[OF lt g[unfolded out, symmetric] refl _ n "1.prems"(2)] True show ?thesis by simp
  qed
qed

lemma waitForCredential_first_request:
  assumes "credRetry < maxCredentialRetries"
    and "waitForCredential env client platform sessionId credRetry w = (r, w')"
  shows "\<exists>rest. trace w' = trace w @ Fetch (next_credential_request client platform sessionId) # rest"
proof -
  note unf = waitForCredential.simps[of env client platform sessionId credRetry w]
  obtain out w1 where g: "getCredential env client platform sessionId w = (out, w1)"
    by (cases "getCredential env client platform sessionId w")
  note t1 = getCredential_trace[OF g]
  let ?w2 = "if credRetry < maxCredentialRetries - 1 then sleep credentialRetryDelay w1 else w1"
  from assms g have "w' = w1 \<or> waitForCredential env client platform sessionId (credRetry + 1) ?w2 = (r, w')"
    by (auto simp: unf split: sum.splits if_splits)
  then show ?thesis
  proof
    assume "w' = w1"
    with t1 show ?thesis by simp
  next
    assume "waitForCredential env client platform sessionId (credRetry + 1) ?w2 = (r, w')"
    from nqt_waitForCredential[OF this] obtain evs where "trace w' = trace ?w2 @ evs"
      by (auto simp: no_queue_traffic_def)
    with t1 show ?thesis by (auto split: if_splits)
  qed
qed

lemma outside_held: "outside f w = (r, w') \<Longrightarrow> activeCredentials w' = activeCredentials w"
  by (auto simp: outside_def split: prod.splits)

lemma outside_trace: "outside f w = (r, w') \<Longrightarrow> trace w' = trace w"
  by (auto simp: outside_def split: prod.splits)

lemma reportFailure_trace:
  assumes "activeCredentials w platform = Some credential"
  shows "trace (reportFailure env client platform msg cooldownMinutes w) =
         trace w @ [Fetch (failure_request client credential msg cooldownMinutes)]"
proof -
  obtain out w1 where f: "fetch env (failure_request client credential msg cooldownMinutes) w = (out, w1)"
    by (cases "fetch env (failure_request client credential msg cooldownMinutes) w")
  from assms f have "trace (reportFailure env client platform msg cooldownMinutes w) = trace w1"
    by (auto simp: reportFailure_def report_def failure_request_def
             split: sum.splits if_splits option.splits json.splits)
  with fetch_trace[OF f] show ?thesis by simp
qed

lemma scrapeLinkedIn_loop_first_request:
  assumes "attemptCount < maxAttempts"
    and "scrapeLinkedIn_loop env client jobTitle loc sessionId attemptCount lastError w = (r, w')"
  shows "\<exists>rest. trace w' = trace w @ Fetch (next_credential_request client ''linkedin'' sessionId) # rest"
proof -
  note unf = scrapeLinkedIn_loop.simps[of env client jobTitle loc sessionId attemptCount lastError w]
  obtain out w1 where g: "waitForCredential env client ''linkedin'' sessionId 0 w = (out, w1)"
    by (cases "waitForCredential env client ''linkedin'' sessionId 0 w")
  from waitForCredential_first_request[OF _ g] obtain rest where
    t1: "trace w1 = trace w @ Fetch (next_credential_request client ''linkedin'' sessionId) # rest"
    by (auto simp: maxCredentialRetries_def)
  have "no_queue_traffic w1 w'"
  proof (cases "\<exists>credential. out = Inr credential \<and> credential \<noteq> JNull")
    case False
    with assms g have "w' = w1" by (auto simp: unf split: sum.splits)
    then show ?thesis by simp
  next
    case True
    then obtain credential where c: "out = Inr credential" "credential \<noteq> JNull" by blast
    obtain b w2 where o: "outside (linkedinBrowser env credential jobTitle loc) w1 = (b, w2)"
      by (cases "outside (linkedinBrowser env credential jobTitle loc) w1")
    note q2 = nqt_outside[OF o]
    show ?thesis
    proof (cases b)
      case (Inr posts)
      with assms g c o have "w' = reportSuccess env client ''linkedin'' (scraped_message posts '' posts successfully'') w2"
        by (simp add: unf)
      then have "no_queue_traffic w2 w'" by simp
      with q2 show ?thesis by (rule nqt_trans)
    next
      case (Inl error)
      with assms g c o
      have "scrapeLinkedIn_loop env client jobTitle loc sessionId (attemptCount + 1) (Some error)
                  (linkedin_catch env client False error w2) = (r, w')"
        by (simp add: unf)
      from nqt_scrapeLinkedIn_loop[OF this] have "no_queue_traffic (linkedin_catch env client False error w2) w'" .
      moreover have "no_queue_traffic w2 (linkedin_catch env client False error w2)" by simp
      ultimately show ?thesis using q2 by (blast intro: nqt_trans)
    qed
  qed
  then obtain evs where "trace w' = trace w1 @ evs" by (auto simp: no_queue_traffic_def)
  with t1 show ?thesis by simp
qed

lemma linkedin_failure_before_login:
  assumes "attemptCount < 3"
    and "waitForCredential env client ''linkedin'' sessionId 0 w = (Inr credential, w1)"
    and "credential \<noteq> JNull"
    and "outside (linkedinBrowser env credential jobTitle loc) w1 = (Inl error, w2)"
  shows "\<exists>w3 label cooldownMinutes.
           trace w3 = trace w2 @ [Fetch (failure_request client credential (label @ message error) cooldownMinutes)]
         \<and> cooldownMinutes =
             (if str_includes (message error) ''Login failed'' \<or> str_includes (message error) ''credentials''
                 \<or> str_includes (message error) ''waitForSelector'' then 0
              else if str_includes (message error) ''rate limit'' \<or> str_includes (message error) ''challenge''
              then 60 else 0)
         \<and> scrapeLinkedIn_loop env client jobTitle loc sessionId attemptCount lastError w =
             scrapeLinkedIn_loop env client jobTitle loc sessionId (attemptCount + 1) (Some error) w3
         \<and> (attemptCount + 1 < 3 \<longrightarrow>
              (\<exists>rest. trace (snd (scrapeLinkedIn_loop env client jobTitle loc sessionId attemptCount lastError w)) =
                 trace w3 @ Fetch (next_credential_request client ''linkedin'' sessionId) # rest))
         \<and> (attemptCount = 2 \<longrightarrow>
              scrapeLinkedIn_loop env client jobTitle loc sessionId attemptCount lastError w = (Inl error, w3))"
proof -
  let ?w3 = "linkedin_catch env client False error w2"
  from waitForCredential_held[OF assms(2,3)] outside_held[OF assms(4)]
  have held: "activeCredentials w2 ''linkedin'' = Some credential" by simp
  have eq: "scrapeLinkedIn_loop env client jobTitle loc sessionId attemptCount lastError w =
             scrapeLinkedIn_loop env client jobTitle loc sessionId (attemptCount + 1) (Some error) ?w3"
    using assms
    by (simp add: scrapeLinkedIn_loop.simps[of env client jobTitle loc sessionId attemptCount lastError w]
          maxAttempts_def)
  have nxt: "\<exists>rest. trace (snd (scrapeLinkedIn_loop env client jobTitle loc sessionId attemptCount lastError w)) =
                 trace ?w3 @ Fetch (next_credential_request client ''linkedin'' sessionId) # rest"
    if "attemptCount + 1 < maxAttempts"
    using scrapeLinkedIn_loop_first_request[OF that, of env client jobTitle loc sessionId "Some error" ?w3
            "fst (scrapeLinkedIn_loop env client jobTitle loc sessionId (attemptCount + 1) (Some error) ?w3)"
            "snd (scrapeLinkedIn_loop env client jobTitle loc sessionId (attemptCount + 1) (Some error) ?w3)"]
      eq by simp
  have last: "scrapeLinkedIn_loop env client jobTitle loc sessionId attemptCount lastError w = (Inl error, ?w3)"
    if "attemptCount = 2"
    using eq that
    by (simp add: scrapeLinkedIn_loop.simps[of env client jobTitle loc sessionId 3 "Some error" ?w3]
          maxAttempts_def)
  have fin: "(attemptCount + 1 < 3 \<longrightarrow>
              (\<exists>rest. trace (snd (scrapeLinkedIn_loop env client jobTitle loc sessionId attemptCount lastError w)) =
                 trace ?w3 @ Fetch (next_credential_request client ''linkedin'' sessionId) # rest))
         \<and> (attemptCount = 2 \<longrightarrow>
              scrapeLinkedIn_loop env client jobTitle loc sessionId attemptCount lastError w = (Inl error, ?w3))"
    using nxt last by (simp add: maxAttempts_def)
  show ?thesis
  proof (cases "str_includes (message error) ''Login failed'' \<or> str_includes (message error) ''credentials''
                 \<or> str_includes (message error) ''waitForSelector''")
    case True
    then have "trace ?w3 = trace w2 @ [Fetch (failure_request client credential (''Login failed: '' @ message error) 0)]"
      using reportFailure_trace[OF held] by (simp add: linkedin_catch_def)
    with True eq fin show ?thesis by (intro exI[of _ ?w3] exI[of _ "''Login failed: ''"] exI[of _ 0]) simp
  next
    case False
    show ?thesis
    proof (cases "str_includes (message error) ''rate limit'' \<or> str_includes (message error) ''challenge''")
      case True
      with False have "trace ?w3 = trace w2 @ [Fetch (failure_request client credential (''Rate limited or challenge: '' @ message error) 60)]"
        using reportFailure_trace[OF held] by (simp add: linkedin_catch_def)
      with True False eq fin show ?thesis
        by (intro exI[of _ ?w3] exI[of _ "''Rate limited or challenge: ''"] exI[of _ 60]) simp
    next
      case neither: False
      with False have "trace ?w3 = trace w2 @ [Fetch (failure_request client credential (''Credential error: '' @ message error) 0)]"
        using reportFailure_trace[OF held] by (simp add: linkedin_catch_def)
      with neither False eq fin show ?thesis
        by (intro exI[of _ ?w3] exI[of _ "''Credential error: ''"] exI[of _ 0]) simp
    qed
  qed
qed

lemma scrapeTechFetch_loop_first_request:
  assumes "attemptCount < maxAttempts"
    and "scrapeTechFetch_loop env client jobTitle loc sessionId attemptCount lastError w = (r, w')"
  shows "\<exists>rest. trace w' = trace w @ Fetch (next_credential_request client ''techfetch'' sessionId) # rest"
proof -
  note unf = scrapeTechFetch_loop.simps[of env client jobTitle loc sessionId attemptCount lastError w]
  obtain out w1 where g: "waitForCredential env client ''techfetch'' sessionId 0 w = (out, w1)"
    by (cases "waitForCredential env client ''techfetch'' sessionId 0 w")
  from waitForCredential_first_request[OF _ g] obtain rest where
    t1: "trace w1 = trace w @ Fetch (next_credential_request client ''techfetch'' sessionId) # rest"
    by (auto simp: maxCredentialRetries_def)
  have "no_queue_traffic w1 w'"
  proof (cases "\<exists>credential. out = Inr credential \<and> credential \<noteq> JNull")
    case False
    with assms g have "w' = w1" by (auto simp: unf split: sum.splits)
    then show ?thesis by simp
  next
    case True
    then obtain credential where c: "out = Inr credential" "credential \<noteq> JNull" by blast
    obtain b w2 where o: "outside (techfetchBrowser env credential jobTitle loc) w1 = (b, w2)"
      by (cases "outside (techfetchBrowser env credential jobTitle loc) w1")
    note q2 = nqt_outside[OF o]
    show ?thesis
    proof (cases b)
      case (Done jobs)
      with assms g c o have "w' = reportSuccess env client ''techfetch'' (scraped_message jobs '' jobs successfully'') w2"
        by (simp add: unf)
      then have "no_queue_traffic w2 w'" by simp
      with q2 show ?thesis by (rule nqt_trans)
    next
      case (ThrewBeforeLogin error)
      with assms g c o
      have "scrapeTechFetch_loop env client jobTitle loc sessionId (attemptCount + 1) (Some error)
                  (techfetch_catch env client False error w2) = (r, w')"
        by (simp add: unf)
      from nqt_scrapeTechFetch_loop[OF this]
      have "no_queue_traffic (techfetch_catch env client False error w2) w'" .
      moreover have "no_queue_traffic w2 (techfetch_catch env client False error w2)" by simp
      ultimately show ?thesis using q2 by (blast intro: nqt_trans)
    next
      case (ThrewAfterLogin error)
      with assms g c o
      have "scrapeTechFetch_loop env client jobTitle loc sessionId (attemptCount + 1) (Some error)
                  (techfetch_catch env client True error w2) = (r, w')"
        by (simp add: unf)
      from nqt_scrapeTechFetch_loop[OF this]
      have "no_queue_traffic (techfetch_catch env client True error w2) w'" .
      moreover have "no_queue_traffic w2 (techfetch_catch env client True error w2)" by simp
      ultimately show ?thesis using q2 by (blast intro: nqt_trans)
    qed
  qed
  then obtain evs where "trace w' = trace w1 @ evs" by (auto simp: no_queue_traffic_def)
  with t1 show ?thesis by simp
qed

lemma techfetch_failure_before_login:
  assumes "attemptCount < 3"
    and "waitForCredential env client ''techfetch'' sessionId 0 w = (Inr credential, w1)"
    and "credential \<noteq> JNull"
    and "outside (techfetchBrowser env credential jobTitle loc) w1 = (ThrewBeforeLogin error, w2)"
  shows "\<exists>w3 label cooldownMinutes.
           trace w3 = trace w2 @ [Fetch (failure_request client credential (label @ message error) cooldownMinutes)]
         \<and> cooldownMinutes =
             (if str_includes (message error) ''Login'' \<or> str_includes (message error) ''credentials''
              then 0
              else if str_includes (message error) ''rate limit'' then 60 else 0)
         \<and> scrapeTechFetch_loop env client jobTitle loc sessionId attemptCount lastError w =
             scrapeTechFetch_loop env client jobTitle loc sessionId (attemptCount + 1) (Some error) w3
         \<and> (attemptCount + 1 < 3 \<longrightarrow>
              (\<exists>rest. trace (snd (scrapeTechFetch_loop env client jobTitle loc sessionId attemptCount lastError w)) =
                 trace w3 @ Fetch (next_credential_request client ''techfetch'' sessionId) # rest))
         \<and> (attemptCount = 2 \<longrightarrow>
              scrapeTechFetch_loop env client jobTitle loc sessionId attemptCount lastError w = (Inl error, w3))"
proof -
  let ?w3 = "techfetch_catch env client False error w2"
  from waitForCredential_held[OF assms(2,3)] outside_held[OF assms(4)]
  have held: "activeCredentials w2 ''techfetch'' = Some credential" by simp
  have eq: "scrapeTechFetch_loop env client jobTitle loc sessionId attemptCount lastError w =
             scrapeTechFetch_loop env client jobTitle loc sessionId (attemptCount + 1) (Some error) ?w3"
    using assms
    by (simp add: scrapeTechFetch_loop.simps[of env client jobTitle loc sessionId attemptCount lastError w]
          maxAttempts_def)
  have nxt: "\<exists>rest. trace (snd (scrapeTechFetch_loop env client jobTitle loc sessionId attemptCount lastError w)) =
                 trace ?w3 @ Fetch (next_credential_request client ''techfetch'' sessionId) # rest"
    if "attemptCount + 1 < maxAttempts"
    using scrapeTechFetch_loop_first_request[OF that, of env client jobTitle loc sessionId "Some error" ?w3
            "fst (scrapeTechFetch_loop env client jobTitle loc sessionId (attemptCount + 1) (Some error) ?w3)"
            "snd (scrapeTechFetch_loop env client jobTitle loc sessionId (attemptCount + 1) (Some error) ?w3)"]
      eq by simp
  have last: "scrapeTechFetch_loop env client jobTitle loc sessionId attemptCount lastError w = (Inl error, ?w3)"
    if "attemptCount = 2"
    using eq that
    by (simp add: scrapeTechFetch_loop.simps[of env client jobTitle loc sessionId 3 "Some error" ?w3]
          maxAttempts_def)
  have fin: "(attemptCount + 1 < 3 \<longrightarrow>
              (\<exists>rest. trace (snd (scrapeTechFetch_loop env client jobTitle loc sessionId attemptCount lastError w)) =
                 trace ?w3 @ Fetch (next_credential_request client ''techfetch'' sessionId) # rest))
         \<and> (attemptCount = 2 \<longrightarrow>
              scrapeTechFetch_loop env client jobTitle loc sessionId attemptCount lastError w = (Inl error, ?w3))"
    using nxt last by (simp add: maxAttempts_def)
  show ?thesis
  proof (cases "str_includes (message error) ''Login'' \<or> str_includes (message error) ''credentials''")
    case True
    then have "trace ?w3 = trace w2 @ [Fetch (failure_request client credential (''Login failed: '' @ message error) 0)]"
      using reportFailure_trace[OF held] by (simp add: techfetch_catch_def)
    with True eq fin show ?thesis by (intro exI[of _ ?w3] exI[of _ "''Login failed: ''"] exI[of _ 0]) simp
  next
    case False
    show ?thesis
    proof (cases "str_includes (message error) ''rate limit''")
      case True
      with False have "trace ?w3 = trace w2 @ [Fetch (failure_request client credential (''Rate limited: '' @ message error) 60)]"
        using reportFailure_trace[OF held] by (simp add: techfetch_catch_def)
      with True False eq fin show ?thesis
        by (intro exI[of _ ?w3] exI[of _ "''Rate limited: ''"] exI[of _ 60]) simp
    next
      case neither: False
      with False have "trace ?w3 = trace w2 @ [Fetch (failure_request client credential (''Credential error: '' @ message error) 0)]"
        using reportFailure_trace[OF held] by (simp add: techfetch_catch_def)
      with neither False eq fin show ?thesis
        by (intro exI[of _ ?w3] exI[of _ "''Credential error: ''"] exI[of _ 0]) simp
    qed
  qed
qed

lemma glassdoor_failure_before_login:
  assumes "getCredentialsAPIClient env = Inr client"
    and "getCredential env client ''glassdoor'' sessionId w = (Inr credential, w1)"
    and "credential \<noteq> JNull"
    and "loadCookies credential = Inr ()"
    and "outside (glassdoorLaunch env credential) w1 = (Inr u, w2)"
    and "outside (glassdoorBrowser env credential jobTitle loc) w2 = (ThrewBeforeLogin error, w3)"
  shows "\<exists>w4 label cooldownMinutes.
           trace w4 = trace w3 @ [Fetch (failure_request client credential (label @ message error) cooldownMinutes)]
         \<and> cooldownMinutes =
             (if str_includes (message error) ''cookie'' \<or> str_includes (message error) ''login''
                 \<or> str_includes (message error) ''auth'' then 0
              else if str_includes (message error) ''rate limit'' \<or> str_includes (message error) ''blocked''
              then 60 else 30)
         \<and> scrapeGlassdoor env jobTitle loc sessionId w = (Inl error, w4)"
proof -
  let ?w4 = "glassdoor_catch env client False error w3"
  from getCredential_held[OF assms(2,3)] outside_held[OF assms(5)] outside_held[OF assms(6)]
  have held: "activeCredentials w3 ''glassdoor'' = Some credential" by simp
  have eq: "scrapeGlassdoor env jobTitle loc sessionId w = (Inl error, ?w4)"
    using assms by (simp add: scrapeGlassdoor_def)
  show ?thesis
  proof (cases "str_includes (message error) ''cookie'' \<or> str_includes (message error) ''login''
                 \<or> str_includes (message error) ''auth''")
    case True
    then have "trace ?w4 = trace w3 @ [Fetch (failure_request client credential (''Authentication failed: '' @ message error) 0)]"
      using reportFailure_trace[OF held] by (simp add: glassdoor_catch_def)
    with True eq show ?thesis by (intro exI[of _ ?w4] exI[of _ "''Authentication failed: ''"] exI[of _ 0]) simp
  next
    case False
    show ?thesis
    proof (cases "str_includes (message error) ''rate limit'' \<or> str_includes (message error) ''blocked''")
      case True
      with False have "trace ?w4 = trace w3 @ [Fetch (failure_request client credential (''Rate limited or blocked: '' @ message error) 60)]"
        using reportFailure_trace[OF held] by (simp add: glassdoor_catch_def)
      with True False eq show ?thesis
        by (intro exI[of _ ?w4] exI[of _ "''Rate limited or blocked: ''"] exI[of _ 60]) simp
    next
      case neither: False
      with False have "trace ?w4 = trace w3 @ [Fetch (failure_request client credential (''Scraping error: '' @ message error) 30)]"
        using reportFailure_trace[OF held] by (simp add: glassdoor_catch_def)
      with neither False eq show ?thesis
        by (intro exI[of _ ?w4] exI[of _ "''Scraping error: ''"] exI[of _ 30]) simp
    qed
  qed
qed

lemmas lease_simps =
  scripted_def quiet_env_def fetch_def w0_def fetchOptions_def answer_def sleep_def
  leasing_def lease_def the_client_def getCredential_def client_request_def ok_def api_error_def
  report_def reportFailure_def reportSuccess_def outside_def maxAttempts_def
  maxCredentialRetries_def credentialRetryDelay_def getCredentialsAPIClient_def
  failure_request_def next_credential_request_def string_of_nat.simps digit_def
  cookie_leasing_def cookie_lease_def loadCookies_def

lemma glassdoor_loadCookies_throws:
  assumes "getCredentialsAPIClient env = Inr client"
    and "getCredential env client ''glassdoor'' sessionId w = (Inr credential, w1)"
    and "credential \<noteq> JNull"
    and "loadCookies credential = Inl e"
  shows "scrapeGlassdoor env jobTitle loc sessionId w = (Inl e, w1)"
  using assms by (simp add: scrapeGlassdoor_def)

lemma glassdoor_launch_throws:
  assumes "getCredentialsAPIClient env = Inr client"
    and "getCredential env client ''glassdoor'' sessionId w = (Inr credential, w1)"
    and "credential \<noteq> JNull"
    and "loadCookies credential = Inr ()"
    and "outside (glassdoorLaunch env credential) w1 = (Inl e, w2)"
  shows "scrapeGlassdoor env jobTitle loc sessionId w = (Inl e, w2)"
  using assms by (simp add: scrapeGlassdoor_def)

lemma linkedin_three_failures:
  "fst (scrapeLinkedIn linkedin_wrong_password ''DevOps Engineer'' ''New York'' ''s1'' w0) =
        Inl (Error ''Login failed: invalid password'')
      \<and> fetches_of (trace (snd (scrapeLinkedIn linkedin_wrong_password ''DevOps Engineer''
                                    ''New York'' ''s1'' w0))) =
          [next_credential_request the_client ''linkedin'' ''s1'',
           failure_request the_client (lease 0) ''Login failed: Login failed: invalid password'' 0,
           next_credential_request the_client ''linkedin'' ''s1'',
           failure_request the_client (lease 2) ''Login failed: Login failed: invalid password'' 0,
           next_credential_request the_client ''linkedin'' ''s1'',
           failure_request the_client (lease 4) ''Login failed: Login failed: invalid password'' 0]"
  by (simp add: linkedin_wrong_password_def scrapeLinkedIn_def scrapeLinkedIn_loop.simps
        waitForCredential.simps linkedin_catch_def lease_simps)

lemma techfetch_three_failures:
  "fst (scrapeTechFetch techfetch_rate_limited ''DevOps Engineer'' ''New York'' ''s1'' w0) =
        Inl (Error ''rate limit reached'')
      \<and> fetches_of (trace (snd (scrapeTechFetch techfetch_rate_limited ''DevOps Engineer''
                                    ''New York'' ''s1'' w0))) =
          [next_credential_request the_client ''techfetch'' ''s1'',
           failure_request the_client (lease 0) ''Rate limited: rate limit reached'' 60,
           next_credential_request the_client ''techfetch'' ''s1'',
           failure_request the_client (lease 2) ''Rate limited: rate limit reached'' 60,
           next_credential_request the_client ''techfetch'' ''s1'',
           failure_request the_client (lease 4) ''Rate limited: rate limit reached'' 60]"
  by (simp add: techfetch_rate_limited_def scrapeTechFetch_def scrapeTechFetch_loop.simps
        waitForCredential.simps techfetch_catch_def lease_simps)

text \<open>
  C8, as stated, fails for Glassdoor: an error before loginSuccess that is neither an
  authentication error nor a rate limit is reported with a cooldown of 30 minutes, and
  the error is thrown to the caller: one credential is asked for and no second one. The
  credential is one whose cookies load.
\<close>

theorem cooldown_every_platform_counterexample:
  "loadCookies (cookie_lease 0) = Inr ()
   \<and> fst (scrapeGlassdoor glassdoor_timeout ''DevOps Engineer'' ''New York'' ''s1'' w0) =
       Inl (Error ''Navigation timeout exceeded'')
   \<and> fetches_of (trace (snd (scrapeGlassdoor glassdoor_timeout ''DevOps Engineer'' ''New York'' ''s1'' w0))) =
       [next_credential_request the_client ''glassdoor'' ''s1'',
        failure_request the_client (cookie_lease 0) ''Scraping error: Navigation timeout exceeded'' 30]"
  by (simp add: glassdoor_timeout_def scrapeGlassdoor_def glassdoor_catch_def lease_simps)

text \<open>
  C8 (amended): when an attempt of scrapeLinkedIn or scrapeTechFetch, the first, second
  or third, fails before loginSuccess is set, the failure is reported for the leased
  credential with a cooldown chosen from the text of the error message: 0 for a
  credential error (LinkedIn: "Login failed", "credentials" or "waitForSelector";
  TechFetch: "Login" or "credentials"), else 60 for a rate limit (LinkedIn: "rate limit"
  or "challenge"; TechFetch: "rate limit"), else 0. After the first and the second
  failure the loop goes on and asks for the next credential; the third failure ends the
  loop, which throws the error. Three wrong passwords in a row on LinkedIn, and three
  rate limits in a row on TechFetch, take three credentials, report each, and throw.
  scrapeGlassdoor has no loop: with a credential whose cookies load, it reports 0 for
  "cookie", "login" or "auth", else 60 for "rate limit" or "blocked", else 30, and throws
  the error; an error of loadCookies or of the launch of the browser is thrown with
  nothing reported.
\<close>

theorem credential_failure_before_login:
  "(\<forall>(env :: 'e env) client jobTitle loc sessionId attemptCount lastError w credential w1 error w2.
      attemptCount < 3
      \<and> waitForCredential env client ''linkedin'' sessionId 0 w = (Inr credential, w1)
      \<and> credential \<noteq> JNull
      \<and> outside (linkedinBrowser env credential jobTitle loc) w1 = (Inl error, w2) \<longrightarrow>
      (\<exists>w3 label cooldownMinutes.
           trace w3 = trace w2 @
             [Fetch (failure_request client credential (label @ message error) cooldownMinutes)]
         \<and> cooldownMinutes =
             (if str_includes (message error) ''Login failed''
                 \<or> str_includes (message error) ''credentials''
                 \<or> str_includes (message error) ''waitForSelector'' then 0
              else if str_includes (message error) ''rate limit''
                      \<or> str_includes (message error) ''challenge''
              then 60 else 0)
         \<and> scrapeLinkedIn_loop env client jobTitle loc sessionId attemptCount lastError w =
             scrapeLinkedIn_loop env client jobTitle loc sessionId (attemptCount + 1) (Some error) w3
         \<and> (attemptCount + 1 < 3 \<longrightarrow>
              (\<exists>rest. trace (snd (scrapeLinkedIn_loop env client jobTitle loc sessionId
                                       attemptCount lastError w)) =
                 trace w3 @ Fetch (next_credential_request client ''linkedin'' sessionId) # rest))
         \<and> (attemptCount = 2 \<longrightarrow>
              scrapeLinkedIn_loop env client jobTitle loc sessionId attemptCount lastError w =
                (Inl error, w3))))
   \<and> (\<forall>(env :: 'e env) client jobTitle loc sessionId attemptCount lastError w credential w1 error w2.
      attemptCount < 3
      \<and> waitForCredential env client ''techfetch'' sessionId 0 w = (Inr credential, w1)
      \<and> credential \<noteq> JNull
      \<and> outside (techfetchBrowser env credential jobTitle loc) w1 = (ThrewBeforeLogin error, w2) \<longrightarrow>
      (\<exists>w3 label cooldownMinutes.
           trace w3 = trace w2 @
             [Fetch (failure_request client credential (label @ message error) cooldownMinutes)]
         \<and> cooldownMinutes =
             (if str_includes (message error) ''Login''
                 \<or> str_includes (message error) ''credentials'' then 0
              else if str_includes (message error) ''rate limit'' then 60 else 0)
         \<and> scrapeTechFetch_loop env client jobTitle loc sessionId attemptCount lastError w =
             scrapeTechFetch_loop env client jobTitle loc sessionId (attemptCount + 1) (Some error) w3
         \<and> (attemptCount + 1 < 3 \<longrightarrow>
              (\<exists>rest. trace (snd (scrapeTechFetch_loop env client jobTitle loc sessionId
                                       attemptCount lastError w)) =
                 trace w3 @ Fetch (next_credential_request client ''techfetch'' sessionId) # rest))
         \<and> (attemptCount = 2 \<longrightarrow>
              scrapeTechFetch_loop env client jobTitle loc sessionId attemptCount lastError w =
                (Inl error, w3))))
   \<and> (\<forall>(env :: 'e env) client jobTitle loc sessionId w credential w1 u w2 error w3.
      getCredentialsAPIClient env = Inr client
      \<and> getCredential env client ''glassdoor'' sessionId w = (Inr credential, w1)
      \<and> credential \<noteq> JNull
      \<and> loadCookies credential = Inr ()
      \<and> outside (glassdoorLaunch env credential) w1 = (Inr u, w2)
      \<and> outside (glassdoorBrowser env credential jobTitle loc) w2 = (ThrewBeforeLogin error, w3) \<longrightarrow>
      (\<exists>w4 label cooldownMinutes.
           trace w4 = trace w3 @
             [Fetch (failure_request client credential (label @ message error) cooldownMinutes)]
         \<and> cooldownMinutes =
             (if str_includes (message error) ''cookie''
                 \<or> str_includes (message error) ''login''
                 \<or> str_includes (message error) ''auth'' then 0
              else if str_includes (message error) ''rate limit''
                      \<or> str_includes (message error) ''blocked''
              then 60 else 30)
         \<and> scrapeGlassdoor env jobTitle loc sessionId w = (Inl error, w4)))
   \<and> (\<forall>(env :: 'e env) client jobTitle loc sessionId w credential w1 e.
      getCredentialsAPIClient env = Inr client
      \<and> getCredential env client ''glassdoor'' sessionId w = (Inr credential, w1)
      \<and> credential \<noteq> JNull
      \<and> loadCookies credential = Inl e \<longrightarrow>
      scrapeGlassdoor env jobTitle loc sessionId w = (Inl e, w1))
   \<and> (\<forall>(env :: 'e env) client jobTitle loc sessionId w credential w1 e w2.
      getCredentialsAPIClient env = Inr client
      \<and> getCredential env client ''glassdoor'' sessionId w = (Inr credential, w1)
      \<and> credential \<noteq> JNull
      \<and> loadCookies credential = Inr ()
      \<and> outside (glassdoorLaunch env credential) w1 = (Inl e, w2) \<longrightarrow>
      scrapeGlassdoor env jobTitle loc sessionId w = (Inl e, w2))
   \<and> (fst (scrapeLinkedIn linkedin_wrong_password ''DevOps Engineer'' ''New York'' ''s1'' w0) =
        Inl (Error ''Login failed: invalid password'')
      \<and> fetches_of (trace (snd (scrapeLinkedIn linkedin_wrong_password ''DevOps Engineer''
                                    ''New York'' ''s1'' w0))) =
          [next_credential_request the_client ''linkedin'' ''s1'',
           failure_request the_client (lease 0) ''Login failed: Login failed: invalid password'' 0,
           next_credential_request the_client ''linkedin'' ''s1'',
           failure_request the_client (lease 2) ''Login failed: Login failed: invalid password'' 0,
           next_credential_request the_client ''linkedin'' ''s1'',
           failure_request the_client (lease 4) ''Login failed: Login failed: invalid password'' 0])
   \<and> (fst (scrapeTechFetch techfetch_rate_limited ''DevOps Engineer'' ''New York'' ''s1'' w0) =
        Inl (Error ''rate limit reached'')
      \<and> fetches_of (trace (snd (scrapeTechFetch techfetch_rate_limited ''DevOps Engineer''
                                    ''New York'' ''s1'' w0))) =
          [next_credential_request the_client ''techfetch'' ''s1'',
           failure_request the_client (lease 0) ''Rate limited: rate limit reached'' 60,
           next_credential_request the_client ''techfetch'' ''s1'',
           failure_request the_client (lease 2) ''Rate limited: rate limit reached'' 60,
           next_credential_request the_client ''techfetch'' ''s1'',
           failure_request the_client (lease 4) ''Rate limited: rate limit reached'' 60])"
proof (intro conjI allI impI)
  fix env :: "'e env" and client jobTitle loc sessionId and attemptCount :: nat
    and lastError w credential w1 error w2
  assume "attemptCount < 3
      \<and> waitForCredential env client ''linkedin'' sessionId 0 w = (Inr credential, w1)
      \<and> credential \<noteq> JNull
      \<and> outside (linkedinBrowser env credential jobTitle loc) w1 = (Inl error, w2)"
  then show "\<exists>w3 label cooldownMinutes.
           trace w3 = trace w2 @
             [Fetch (failure_request client credential (label @ message error) cooldownMinutes)]
         \<and> cooldownMinutes =
             (if str_includes (message error) ''Login failed''
                 \<or> str_includes (message error) ''credentials''
                 \<or> str_includes (message error) ''waitForSelector'' then 0
              else if str_includes (message error) ''rate limit''
                      \<or> str_includes (message error) ''challenge''
              then 60 else 0)
         \<and> scrapeLinkedIn_loop env client jobTitle loc sessionId attemptCount lastError w =
             scrapeLinkedIn_loop env client jobTitle loc sessionId (attemptCount + 1) (Some error) w3
         \<and> (attemptCount + 1 < 3 \<longrightarrow>
              (\<exists>rest. trace (snd (scrapeLinkedIn_loop env client jobTitle loc sessionId
                                       attemptCount lastError w)) =
                 trace w3 @ Fetch (next_credential_request client ''linkedin'' sessionId) # rest))
         \<and> (attemptCount = 2 \<longrightarrow>
              scrapeLinkedIn_loop env client jobTitle loc sessionId attemptCount lastError w =
                (Inl error, w3))"
    by (elim conjE) (rule linkedin_failure_before_login)
next
  fix env :: "'e env" and client jobTitle loc sessionId and attemptCount :: nat
    and lastError w credential w1 error w2
  assume "attemptCount < 3
      \<and> waitForCredential env client ''techfetch'' sessionId 0 w = (Inr credential, w1)
      \<and> credential \<noteq> JNull
      \<and> outside (techfetchBrowser env credential jobTitle loc) w1 = (ThrewBeforeLogin error, w2)"
  then show "\<exists>w3 label cooldownMinutes.
           trace w3 = trace w2 @
             [Fetch (failure_request client credential (label @ message error) cooldownMinutes)]
         \<and> cooldownMinutes =
             (if str_includes (message error) ''Login''
                 \<or> str_includes (message error) ''credentials'' then 0
              else if str_includes (message error) ''rate limit'' then 60 else 0)
         \<and> scrapeTechFetch_loop env client jobTitle loc sessionId attemptCount lastError w =
             scrapeTechFetch_loop env client jobTitle loc sessionId (attemptCount + 1) (Some error) w3
         \<and> (attemptCount + 1 < 3 \<longrightarrow>
              (\<exists>rest. trace (snd (scrapeTechFetch_loop env client jobTitle loc sessionId
                                       attemptCount lastError w)) =
                 trace w3 @ Fetch (next_credential_request client ''techfetch'' sessionId) # rest))
         \<and> (attemptCount = 2 \<longrightarrow>
              scrapeTechFetch_loop env client jobTitle loc sessionId attemptCount lastError w =
                (Inl error, w3))"
    by (elim conjE) (rule techfetch_failure_before_login)
next
  fix env :: "'e env" and client jobTitle loc sessionId w credential w1 u w2 error w3
  assume "getCredentialsAPIClient env = Inr client
      \<and> getCredential env client ''glassdoor'' sessionId w = (Inr credential, w1)
      \<and> credential \<noteq> JNull
      \<and> loadCookies credential = Inr ()
      \<and> outside (glassdoorLaunch env credential) w1 = (Inr u, w2)
      \<and> outside (glassdoorBrowser env credential jobTitle loc) w2 = (ThrewBeforeLogin error, w3)"
  then show "\<exists>w4 label cooldownMinutes.
           trace w4 = trace w3 @
             [Fetch (failure_request client credential (label @ message error) cooldownMinutes)]
         \<and> cooldownMinutes =
             (if str_includes (message error) ''cookie''
                 \<or> str_includes (message error) ''login''
                 \<or> str_includes (message error) ''auth'' then 0
              else if str_includes (message error) ''rate limit''
                      \<or> str_includes (message error) ''blocked''
              then 60 else 30)
         \<and> scrapeGlassdoor env jobTitle loc sessionId w = (Inl error, w4)"
    by (elim conjE) (rule glassdoor_failure_before_login)
next
  fix env :: "'e env" and client jobTitle loc sessionId w credential w1 e
  assume "getCredentialsAPIClient env = Inr client
      \<and> getCredential env client ''glassdoor'' sessionId w = (Inr credential, w1)
      \<and> credential \<noteq> JNull
      \<and> loadCookies credential = Inl e"
  then show "scrapeGlassdoor env jobTitle loc sessionId w = (Inl e, w1)"
    by (elim conjE) (rule glassdoor_loadCookies_throws)
next
  fix env :: "'e env" and client jobTitle loc sessionId w credential w1 e w2
  assume "getCredentialsAPIClient env = Inr client
      \<and> getCredential env client ''glassdoor'' sessionId w = (Inr credential, w1)
      \<and> credential \<noteq> JNull
      \<and> loadCookies credential = Inr ()
      \<and> outside (glassdoorLaunch env credential) w1 = (Inl e, w2)"
  then show "scrapeGlassdoor env jobTitle loc sessionId w = (Inl e, w2)"
    by (elim conjE) (rule glassdoor_launch_throws)
qed (simp_all only: linkedin_three_failures techfetch_three_failures)

theorem credential_failure_before_login_witness:
  "\<exists>w3 label.
     fetches_of (trace w3) =
       [next_credential_request the_client ''linkedin'' ''s1'',
        failure_request the_client (lease 0) (label @ ''Login failed: invalid password'') 0]
   \<and> scrapeLinkedIn_loop linkedin_wrong_password the_client ''DevOps Engineer'' ''New York'' ''s1''
         0 None w0 =
       scrapeLinkedIn_loop linkedin_wrong_password the_client ''DevOps Engineer'' ''New York'' ''s1''
         1 (Some (Error ''Login failed: invalid password'')) w3"
proof -
  let ?env = linkedin_wrong_password
  let ?w1 = "snd (waitForCredential ?env the_client ''linkedin'' ''s1'' 0 w0)"
  have a: "(0::nat) < 3" by simp
  have g: "waitForCredential ?env the_client ''linkedin'' ''s1'' 0 w0 = (Inr (lease 0), ?w1)"
    by (simp add: linkedin_wrong_password_def waitForCredential.simps lease_simps)
  have t: "trace ?w1 = [Fetch (next_credential_request the_client ''linkedin'' ''s1'')]"
    by (simp add: linkedin_wrong_password_def waitForCredential.simps lease_simps)
  have c: "lease 0 \<noteq> JNull" by (simp add: lease_def)
  have o: "outside (linkedinBrowser ?env (lease 0) ''DevOps Engineer'' ''New York'') ?w1 =
             (Inl (Error ''Login failed: invalid password''), ?w1)"
    by (simp add: linkedin_wrong_password_def outside_def)
  from credential_failure_before_login[THEN conjunct1, rule_format,
         where client = the_client and lastError = None, OF conjI[OF a conjI[OF g conjI[OF c o]]]]
  obtain w3 label cooldownMinutes where
    r: "trace w3 = trace ?w1 @ [Fetch (failure_request the_client (lease 0)
                                 (label @ message (Error ''Login failed: invalid password'')) cooldownMinutes)]"
    and k: "cooldownMinutes =
             (if str_includes (message (Error ''Login failed: invalid password'')) ''Login failed''
                 \<or> str_includes (message (Error ''Login failed: invalid password'')) ''credentials''
                 \<or> str_includes (message (Error ''Login failed: invalid password'')) ''waitForSelector'' then 0
              else if str_includes (message (Error ''Login failed: invalid password'')) ''rate limit''
                      \<or> str_includes (message (Error ''Login failed: invalid password'')) ''challenge''
              then 60 else 0)"
    and e: "scrapeLinkedIn_loop ?env the_client ''DevOps Engineer'' ''New York'' ''s1'' 0 None w0 =
             scrapeLinkedIn_loop ?env the_client ''DevOps Engineer'' ''New York'' ''s1'' (0 + 1)
               (Some (Error ''Login failed: invalid password'')) w3"
    by blast
  from k have "cooldownMinutes = 0" by simp
  with r t e show ?thesis by (intro exI[of _ w3] exI[of _ label]) simp
qed

lemma fetch_ignores_held:
  "fst (fetch env req (w\<lparr>activeCredentials := held\<rparr>)) = fst (fetch env req w)"
  by (simp add: fetch_def split: prod.splits)

lemma getCredential_outcome:
  "fst (getCredential env client platform sessionId w) =
     (case fst (fetch env (next_credential_request client platform sessionId) w) of
        Inl e \<Rightarrow> Inl e
      | Inr response \<Rightarrow>
          if status response = 204 then Inr JNull
          else if \<not> ok response then Inl (api_error response)
          else (case json_body response of
                  None \<Rightarrow> Inl SyntaxError
                | Some JNull \<Rightarrow> Inl TypeError
                | Some credential \<Rightarrow> Inr credential))"
proof -
  obtain out w1 where f: "fetch env (next_credential_request client platform sessionId) w = (out, w1)"
    by (cases "fetch env (next_credential_request client platform sessionId) w")
  then show ?thesis
    unfolding getCredential_def next_credential_request_def[symmetric]
    by (simp split: sum.splits option.splits json.splits)
qed

lemma getCredential_ignores_held:
  "fst (getCredential env client platform sessionId (w\<lparr>activeCredentials := held\<rparr>)) =
   fst (getCredential env client platform sessionId w)"
  by (simp only: getCredential_outcome fetch_ignores_held)

text \<open>
  C9 (amended): the map of the credentials client, keyed by platform, holds at most one
  lease for a platform. Taking a lease for a platform while one is held is not an error:
  what getCredential returns does not depend on the leases held, and the lease it
  obtains replaces the one held for that platform and leaves the other platforms alone.
\<close>

theorem second_lease_replaces_first:
  "(\<forall>(env :: 'e env) client platform sessionId w credential w'.
      getCredential env client platform sessionId w = (Inr credential, w') \<and> credential \<noteq> JNull \<longrightarrow>
      activeCredentials w' = (activeCredentials w)(platform \<mapsto> credential))
   \<and> (\<forall>(env :: 'e env) client platform sessionId w held.
        fst (getCredential env client platform sessionId (w\<lparr>activeCredentials := held\<rparr>)) =
        fst (getCredential env client platform sessionId w))"
  by (auto simp: getCredential_held getCredential_ignores_held)

theorem second_lease_replaces_first_witness:
  "activeCredentials (snd (getCredential leasing the_client ''linkedin'' ''s1''
      (w0\<lparr>activeCredentials := [''linkedin'' \<mapsto> lease 7, ''glassdoor'' \<mapsto> lease 8]\<rparr>))) =
   [''linkedin'' \<mapsto> lease 0, ''glassdoor'' \<mapsto> lease 8]"
proof -
  let ?w = "w0\<lparr>activeCredentials := [''linkedin'' \<mapsto> lease 7, ''glassdoor'' \<mapsto> lease 8]\<rparr>"
  have g: "getCredential leasing the_client ''linkedin'' ''s1'' ?w =
        (Inr (lease 0), snd (getCredential leasing the_client ''linkedin'' ''s1'' ?w))"
    by (simp add: lease_simps)
  have c: "lease 0 \<noteq> JNull" by (simp add: lease_def)
  from second_lease_replaces_first[THEN conjunct1, rule_format, OF conjI[OF g c]]
  show ?thesis by (auto simp: w0_def)
qed

text \<open>
  C9, as stated, fails: two leases taken in a row for linkedin, with no release between
  them. The second call returns its credential as the first did, and the map then holds
  the second credential in place of the first.
\<close>

theorem second_lease_counterexample:
  "fst (getCredential leasing the_client ''linkedin'' ''s1'' w0) = Inr (lease 0)
   \<and> activeCredentials (snd (getCredential leasing the_client ''linkedin'' ''s1'' w0)) ''linkedin'' =
       Some (lease 0)
   \<and> fst (getCredential leasing the_client ''linkedin'' ''s1''
            (snd (getCredential leasing the_client ''linkedin'' ''s1'' w0))) = Inr (lease 1)
   \<and> activeCredentials (snd (getCredential leasing the_client ''linkedin'' ''s1''
            (snd (getCredential leasing the_client ''linkedin'' ''s1'' w0)))) ''linkedin'' =
       Some (lease 1)"
  by (simp add: lease_simps)

section \<open>The platform loop: what holds for the platforms that have a scraper\<close>

lemma scrape_failure_is_reported:
  assumes "SCRAPERS env (toLowerCase env (platform_name platformInfo)) = Some scraper"
    and "scraper (name (role queueItem)) (location queueItem) (session_id queueItem)
           (w\<lparr>trace := trace w @
                [Scrape (toLowerCase env (platform_name platformInfo)) (name (role queueItem))
                   (location queueItem) (session_id queueItem)]\<rparr>) = (Inl error, w1)"
  shows "process_platform env apiUrl apiKey queueItem platformInfo res w =
           (Inr (record_failure (toLowerCase env (platform_name platformInfo)) (message error) res),
            snd (submitJobs env apiUrl apiKey (session_id queueItem)
                   (toLowerCase env (platform_name platformInfo)) [] ''failed''
                   (Some (message error)) w1))"
  using assms by (simp add: process_platform_def scrape_and_submit_def Let_def split: prod.splits)

lemma completion_once_after_loop:
  assumes "blacklight env = Some (apiUrl, apiKey)" and "apiUrl \<noteq> []" and "apiKey \<noteq> []"
    and "checkActiveSession env apiUrl apiKey w = (Inr sessionCheck, w1)"
    and "session_is_active sessionCheck = Inr False"
    and "getNextRoleLocation env apiUrl apiKey w1 = (Inr (JQueueItem queueItem), w2)"
    and "platform_loop env apiUrl apiKey queueItem (platforms queueItem)
           (initial_results queueItem) w2 = (Inr res, w3)"
  shows "\<exists>res' w4 evs n.
           runBlacklightQueue env w = (Inr (Results res'), w4)
         \<and> trace w4 = trace w3 @ evs \<and> platform_ops evs = []
         \<and> completions_of evs = replicate (Suc n) (session_id queueItem)
         \<and> (\<forall>error w5. completeSession env apiUrl apiKey (session_id queueItem) w3 = (Inl error, w5)
                \<longrightarrow> completion_error res' = Some (message error))"
proof -
  obtain res' w4 where c: "complete_step env apiUrl apiKey queueItem res w3 = (res', w4)"
    by (cases "complete_step env apiUrl apiKey queueItem res w3")
  from complete_step_events[OF c] obtain evs n where
    t: "trace w4 = trace w3 @ evs" "platform_ops evs = []"
       "completions_of evs = replicate (Suc n) (session_id queueItem)" by blast
  have run: "runBlacklightQueue env w = (Inr (Results res'), w4)"
    using assms c by (simp add: runBlacklightQueue_def blacklightConfigured_def)
  have "completion_error res' = Some (message error)"
    if "completeSession env apiUrl apiKey (session_id queueItem) w3 = (Inl error, w5)" for error w5
    using that c by (auto simp: complete_step_def)
  with run t show ?thesis by blast
qed

section \<open>The scheduler: properties\<close>

text \<open>Nothing a run does writes the flag: only autoCheckQueue does.\<close>

lemma getNextRoleLocation_flag:
  "getNextRoleLocation env apiUrl apiKey w = (r, w') \<Longrightarrow> isProcessingQueue w' = isProcessingQueue w"
  by (auto simp: getNextRoleLocation_def split: prod.splits sum.splits if_splits
           dest: makeApiRequest_flag)

lemma submitJobs_flag:
  "submitJobs env apiUrl apiKey sessionId platform jobs st errorMessage w = (r, w') \<Longrightarrow>
   isProcessingQueue w' = isProcessingQueue w"
  by (auto simp: submitJobs_def split: prod.splits sum.splits if_splits dest: makeApiRequest_flag)

lemma completeSession_flag:
  "completeSession env apiUrl apiKey sessionId w = (r, w') \<Longrightarrow>
   isProcessingQueue w' = isProcessingQueue w"
  by (auto simp: completeSession_def split: prod.splits sum.splits if_splits
           dest: makeApiRequest_flag)

lemma complete_step_flag:
  "complete_step env apiUrl apiKey queueItem res w = (res', w') \<Longrightarrow>
   isProcessingQueue w' = isProcessingQueue w"
  by (auto simp: complete_step_def split: prod.splits sum.splits json.splits
           dest: completeSession_flag)

lemma scrape_and_submit_flag:
  assumes "SCRAPERS env platformName = Some scraper"
    and "scrape_and_submit env apiUrl apiKey queueItem platformName scraper res w = (r, w')"
  shows "isProcessingQueue w' = isProcessingQueue w"
proof -
  let ?w0 = "w\<lparr>trace := trace w @
                  [Scrape platformName (name (role queueItem)) (location queueItem)
                     (session_id queueItem)]\<rparr>"
  obtain out w1 where
    s: "scraper (name (role queueItem)) (location queueItem) (session_id queueItem) ?w0 = (out, w1)"
    by (cases "scraper (name (role queueItem)) (location queueItem) (session_id queueItem) ?w0")
  from nqt_SCRAPERS[OF assms(1) s] have f1: "isProcessingQueue w1 = isProcessingQueue w"
    by (simp add: no_queue_traffic_def)
  show ?thesis
  proof (cases out)
    case (Inl e)
    with assms(2) s have "w' = w1" by (simp add: scrape_and_submit_def)
    with f1 show ?thesis by simp
  next
    case (Inr jobs)
    obtain r2 w2 where
      j: "submitJobs env apiUrl apiKey (session_id queueItem) platformName
            (map (\<lambda>job. formatJobForBlacklight env job platformName) jobs) ''success'' None w1 = (r2, w2)"
      by (cases "submitJobs env apiUrl apiKey (session_id queueItem) platformName
            (map (\<lambda>job. formatJobForBlacklight env job platformName) jobs) ''success'' None w1")
    from assms(2) s Inr j have "w' = w2"
      by (auto simp: scrape_and_submit_def split: sum.splits json.splits)
    with submitJobs_flag[OF j] f1 show ?thesis by simp
  qed
qed

lemma process_platform_flag:
  assumes "process_platform env apiUrl apiKey queueItem platformInfo res w = (r, w')"
  shows "isProcessingQueue w' = isProcessingQueue w"
proof (cases "SCRAPERS env (toLowerCase env (platform_name platformInfo))")
  case None
  with assms show ?thesis
    by (auto simp: process_platform_def Let_def split: prod.splits sum.splits dest: submitJobs_flag)
next
  case (Some scraper)
  let ?p = "toLowerCase env (platform_name platformInfo)"
  obtain r1 w1 where
    s: "scrape_and_submit env apiUrl apiKey queueItem ?p scraper res w = (r1, w1)"
    by (cases "scrape_and_submit env apiUrl apiKey queueItem ?p scraper res w")
  note f1 = scrape_and_submit_flag[OF Some s]
  show ?thesis
  proof (cases r1)
    case (Inr res')
    with assms Some s have "w' = w1" by (simp add: process_platform_def)
    with f1 show ?thesis by simp
  next
    case (Inl error)
    obtain r2 w2 where
      j: "submitJobs env apiUrl apiKey (session_id queueItem) ?p [] ''failed''
            (Some (message error)) w1 = (r2, w2)"
      by (cases "submitJobs env apiUrl apiKey (session_id queueItem) ?p [] ''failed''
            (Some (message error)) w1")
    with assms Some s Inl have "w' = w2" by (simp add: process_platform_def)
    with submitJobs_flag[OF j] f1 show ?thesis by simp
  qed
qed

lemma platform_loop_flag:
  "platform_loop env apiUrl apiKey queueItem ps res w = (r, w') \<Longrightarrow>
   isProcessingQueue w' = isProcessingQueue w"
proof (induction ps arbitrary: res w)
  case Nil
  then show ?case by simp
next
  case (Cons p ps)
  obtain r1 w1 where s: "process_platform env apiUrl apiKey queueItem p res w = (r1, w1)"
    by (cases "process_platform env apiUrl apiKey queueItem p res w")
  note f1 = process_platform_flag[OF s]
  show ?case
  proof (cases r1)
    case (Inl e)
    with Cons.prems s have "w' = w1" by simp
    with f1 show ?thesis by simp
  next
    case (Inr res1)
    with Cons.prems s have "platform_loop env apiUrl apiKey queueItem ps res1 w1 = (r, w')"
      by simp
    from Cons.IH[OF this] f1 show ?thesis by simp
  qed
qed

lemma runBlacklightQueue_flag:
  assumes "runBlacklightQueue env w = (r, w')"
  shows "isProcessingQueue w' = isProcessingQueue w"
proof (cases "blacklightConfigured env")
  case False
  with assms show ?thesis by (simp add: runBlacklightQueue_def)
next
  case True
  obtain apiUrl apiKey where b: "the (blacklight env) = (apiUrl, apiKey)"
    by (cases "the (blacklight env)")
  obtain r1 w1 where c: "checkActiveSession env apiUrl apiKey w = (r1, w1)"
    by (cases "checkActiveSession env apiUrl apiKey w")
  note f1 = checkActiveSession_flag[OF c]
  obtain r2 w2 where g: "getNextRoleLocation env apiUrl apiKey w1 = (r2, w2)"
    by (cases "getNextRoleLocation env apiUrl apiKey w1")
  note f2 = getNextRoleLocation_flag[OF g]
  have "w' = w1 \<or> w' = w2
      \<or> (\<exists>queueItem r3 w3.
            platform_loop env apiUrl apiKey queueItem (platforms queueItem)
              (initial_results queueItem) w2 = (r3, w3)
          \<and> (w' = w3 \<or> (\<exists>res res'. complete_step env apiUrl apiKey queueItem res w3 = (res', w'))))"
    using assms True b c g
    by (auto simp: runBlacklightQueue_def
             split: sum.splits bool.splits option.splits json.splits prod.splits)
  with f1 f2 show ?thesis
    by (auto dest: platform_loop_flag complete_step_flag)
qed

lemma post_scrape_queue_flag:
  "isProcessingQueue (snd (post_scrape_queue env w)) = isProcessingQueue w"
proof -
  obtain r w' where run: "runBlacklightQueue env w = (r, w')"
    by (cases "runBlacklightQueue env w")
  then have "snd (post_scrape_queue env w) = w'"
    by (simp add: post_scrape_queue_def split: sum.splits run_result.splits)
  with runBlacklightQueue_flag[OF run] show ?thesis by simp
qed

lemma autoCheckQueue_guard: "isProcessingQueue w \<Longrightarrow> autoCheckQueue env w = w"
  by (simp add: autoCheckQueue_def autoCheckQueue_begin_def)

lemma guarded_step: "guarded s \<Longrightarrow> guarded (turn_step env s t)"
  by (cases t)
     (auto simp: guarded_def autoCheckQueue_begin_def autoCheckQueue_finish_def
                 post_scrape_queue_flag split: prod.splits)

lemma guarded_foldl: "guarded s \<Longrightarrow> guarded (foldl (turn_step env) s ts)"
  by (induction ts arbitrary: s) (auto simp: guarded_step)

lemma guarded_turns: "\<not> isProcessingQueue w \<Longrightarrow> guarded (turns env w ts)"
  unfolding turns_def by (rule guarded_foldl) (simp add: guarded_def)

lemma timer_turn_while_set:
  "isProcessingQueue (current (turns env w ts)) \<Longrightarrow>
   turns env w (ts @ [TimerFires]) = turns env w ts"
  by (simp add: turns_def autoCheckQueue_begin_def)

lemma scheduled_turns: "current (turns env w [TimerFires, ScheduledRunSettles]) = autoCheckQueue env w"
  by (simp add: turns_def autoCheckQueue_def autoCheckQueue_begin_def)

lemma manual_turns:
  "current (turns env w [PostScrapeQueue, ManualRunSettles]) = snd (post_scrape_queue env w)"
  by (simp add: turns_def)

text \<open>
  C1 (amended): a call of autoCheckQueue that finds the flag set returns at once and
  changes nothing: no request is issued, nothing is kept for later. With the flag unset at
  the start, and whatever the order of timers, posts and runs that settle, at most one run
  that autoCheckQueue started is in flight, the flag is set exactly while one is, and a
  timer that fires meanwhile leaves the server as it was. A timer turn followed by the
  turn in which its run settles is one call of autoCheckQueue; a post followed by the turn
  in which its run settles is one call of the handler, which leaves the flag as it found
  it. A run started by POST /scrape-queue is outside the guarantee.
\<close>

theorem scheduled_runs_never_overlap:
  "(\<forall>(env :: 'e env) w. isProcessingQueue w \<longrightarrow> autoCheckQueue env w = w)
   \<and> (\<forall>(env :: 'e env) w ts. \<not> isProcessingQueue w \<longrightarrow>
        scheduled_runs (turns env w ts) \<le> 1
        \<and> (isProcessingQueue (current (turns env w ts)) \<longleftrightarrow> scheduled_runs (turns env w ts) = 1)
        \<and> (isProcessingQueue (current (turns env w ts)) \<longrightarrow>
             turns env w (ts @ [TimerFires]) = turns env w ts))
   \<and> (\<forall>(env :: 'e env) w.
        current (turns env w [TimerFires, ScheduledRunSettles]) = autoCheckQueue env w)
   \<and> (\<forall>(env :: 'e env) w.
        current (turns env w [PostScrapeQueue, ManualRunSettles]) = snd (post_scrape_queue env w))
   \<and> (\<forall>(env :: 'e env) w.
        isProcessingQueue (snd (post_scrape_queue env w)) = isProcessingQueue w)"
proof (intro conjI allI impI)
  fix env :: "'e env" and w :: "'e world"
  assume "isProcessingQueue w"
  then show "autoCheckQueue env w = w" by (rule autoCheckQueue_guard)
next
  fix env :: "'e env" and w :: "'e world" and ts
  assume "\<not> isProcessingQueue w"
  from guarded_turns[OF this, of env ts]
  show "scheduled_runs (turns env w ts) \<le> 1"
    and "isProcessingQueue (current (turns env w ts)) \<longleftrightarrow> scheduled_runs (turns env w ts) = 1"
    by (simp_all add: guarded_def)
next
  fix env :: "'e env" and w :: "'e world" and ts
  assume "isProcessingQueue (current (turns env w ts))"
  then show "turns env w (ts @ [TimerFires]) = turns env w ts" by (rule timer_turn_while_set)
next
  fix env :: "'e env" and w :: "'e world"
  show "current (turns env w [TimerFires, ScheduledRunSettles]) = autoCheckQueue env w"
    by (rule scheduled_turns)
next
  fix env :: "'e env" and w :: "'e world"
  show "current (turns env w [PostScrapeQueue, ManualRunSettles]) = snd (post_scrape_queue env w)"
    by (rule manual_turns)
next
  fix env :: "'e env" and w :: "'e world"
  show "isProcessingQueue (snd (post_scrape_queue env w)) = isProcessingQueue w"
    by (rule post_scrape_queue_flag)
qed

theorem scheduled_runs_never_overlap_witness:
  "autoCheckQueue active_session_env (w0\<lparr>isProcessingQueue := True\<rparr>) = w0\<lparr>isProcessingQueue := True\<rparr>
   \<and> trace (autoCheckQueue active_session_env (w0\<lparr>isProcessingQueue := True\<rparr>)) = []
   \<and> isProcessingQueue (current (turns active_session_env w0 [PostScrapeQueue, TimerFires]))
   \<and> turns active_session_env w0 ([PostScrapeQueue, TimerFires] @ [TimerFires]) =
       turns active_session_env w0 [PostScrapeQueue, TimerFires]
   \<and> scheduled_runs (turns active_session_env w0 [PostScrapeQueue, TimerFires, TimerFires]) = 1"
proof -
  have n: "\<not> isProcessingQueue w0" by (simp add: w0_def)
  have y: "isProcessingQueue (w0\<lparr>isProcessingQueue := True\<rparr>)" by simp
  have p: "isProcessingQueue (current (turns active_session_env w0 [PostScrapeQueue, TimerFires]))"
    by (simp add: turns_def autoCheckQueue_begin_def blacklightConfigured_def w0_def
          active_session_env_def backend_def scripted_def quiet_env_def)
  from scheduled_runs_never_overlap[THEN conjunct1, rule_format, OF y, of active_session_env]
  have a: "autoCheckQueue active_session_env (w0\<lparr>isProcessingQueue := True\<rparr>) =
             w0\<lparr>isProcessingQueue := True\<rparr>" .
  from scheduled_runs_never_overlap[THEN conjunct2, THEN conjunct1, rule_format, OF n,
         of active_session_env "[PostScrapeQueue, TimerFires]"] p
  have b: "turns active_session_env w0 ([PostScrapeQueue, TimerFires] @ [TimerFires]) =
             turns active_session_env w0 [PostScrapeQueue, TimerFires]"
    and c: "scheduled_runs (turns active_session_env w0 [PostScrapeQueue, TimerFires]) = 1"
    by blast+
  from b c have d: "scheduled_runs (turns active_session_env w0 [PostScrapeQueue, TimerFires, TimerFires]) = 1"
    by simp
  from a have e: "trace (autoCheckQueue active_session_env (w0\<lparr>isProcessingQueue := True\<rparr>)) = []"
    by (simp add: w0_def)
  from a e p b d show ?thesis by blast
qed

text \<open>
  C1, as stated, fails: a post to /scrape-queue is a trigger of a run, and with the flag
  set it is no silent no-op: the handler runs the orchestrator, which sends its request to
  the backend. A post while a scheduled run is in flight, or a timer while a run started
  by a post is in flight, gives two runs in flight.
\<close>

theorem one_run_in_flight_counterexample:
  "isProcessingQueue (w0\<lparr>isProcessingQueue := True\<rparr>)
   \<and> reply_status (fst (post_scrape_queue active_session_env (w0\<lparr>isProcessingQueue := True\<rparr>))) = 409
   \<and> length (fetches_of (trace (snd (post_scrape_queue active_session_env
                                        (w0\<lparr>isProcessingQueue := True\<rparr>))))) = 1
   \<and> isProcessingQueue (current (turns active_session_env w0 [TimerFires]))
   \<and> runs_in_flight (turns active_session_env w0 [TimerFires, PostScrapeQueue]) = 2
   \<and> length (fetches_of (trace (current (turns active_session_env w0
                [TimerFires, PostScrapeQueue, ManualRunSettles])))) = 1
   \<and> runs_in_flight (turns active_session_env w0 [PostScrapeQueue, TimerFires]) = 2"
  by (simp add: turns_def runs_in_flight_def autoCheckQueue_begin_def post_scrape_queue_def
        active_session_env_def world_simps)

text \<open>
  C10: a call of autoCheckQueue that starts a run ends with the flag reset, whatever the
  run returned or threw; the next call therefore starts a run of its own.
\<close>

theorem guard_reset_after_run:
  assumes "\<not> isProcessingQueue w" and "blacklightConfigured env"
    and "runBlacklightQueue env (w\<lparr>isProcessingQueue := True\<rparr>) = (outcome, w')"
  shows "autoCheckQueue env w = w'\<lparr>isProcessingQueue := False\<rparr>
       \<and> \<not> isProcessingQueue (autoCheckQueue env w)
       \<and> autoCheckQueue env (autoCheckQueue env w) =
           (snd (runBlacklightQueue env (w'\<lparr>isProcessingQueue := True\<rparr>)))\<lparr>isProcessingQueue := False\<rparr>"
  using assms
  by (simp add: autoCheckQueue_def autoCheckQueue_begin_def autoCheckQueue_finish_def
        split: prod.splits)

theorem guard_reset_after_run_witness:
  "fst (runBlacklightQueue network_down (w0\<lparr>isProcessingQueue := True\<rparr>)) = Inl (Error ''ECONNRESET'')
   \<and> \<not> isProcessingQueue (autoCheckQueue network_down w0)
   \<and> length (fetches_of (trace (autoCheckQueue network_down w0))) = 5
   \<and> length (fetches_of (trace (autoCheckQueue network_down (autoCheckQueue network_down w0)))) = 10"
proof -
  have a: "\<not> isProcessingQueue w0" by (simp add: w0_def)
  have b: "blacklightConfigured network_down"
    by (simp add: blacklightConfigured_def network_down_def scripted_def quiet_env_def)
  have r: "runBlacklightQueue network_down (w0\<lparr>isProcessingQueue := True\<rparr>) =
             (Inl (Error ''ECONNRESET''), snd (runBlacklightQueue network_down (w0\<lparr>isProcessingQueue := True\<rparr>)))"
    by (simp add: network_down_def world_simps)
  have t1: "length (fetches_of (trace (snd (runBlacklightQueue network_down (w0\<lparr>isProcessingQueue := True\<rparr>))))) = 5"
    by (simp add: network_down_def world_simps)
  have t2: "length (fetches_of (trace (snd (runBlacklightQueue network_down
              ((snd (runBlacklightQueue network_down (w0\<lparr>isProcessingQueue := True\<rparr>)))\<lparr>isProcessingQueue := True\<rparr>))))) = 10"
    by (simp add: network_down_def world_simps)
  let ?w' = "snd (runBlacklightQueue network_down (w0\<lparr>isProcessingQueue := True\<rparr>))"
  from guard_reset_after_run[OF a b r]
  have e1: "autoCheckQueue network_down w0 = ?w'\<lparr>isProcessingQueue := False\<rparr>"
    and e2: "\<not> isProcessingQueue (autoCheckQueue network_down w0)"
    and e3: "autoCheckQueue network_down (autoCheckQueue network_down w0) =
           (snd (runBlacklightQueue network_down (?w'\<lparr>isProcessingQueue := True\<rparr>)))\<lparr>isProcessingQueue := False\<rparr>"
    by blast+
  from r have c1: "fst (runBlacklightQueue network_down (w0\<lparr>isProcessingQueue := True\<rparr>)) =
      Inl (Error ''ECONNRESET'')"
    by (metis fst_conv)
  have c3: "length (fetches_of (trace (autoCheckQueue network_down w0))) = 5"
    unfolding e1 using t1 by simp
  have c4: "length (fetches_of (trace (autoCheckQueue network_down (autoCheckQueue network_down w0)))) = 10"
    unfolding e3 using t2 by simp
  from c1 e2 c3 c4 show ?thesis by blast
qed

end
